(* ===== verification/Prelude.thy ===== *)
theory Prelude
  imports Main
begin

text \<open>
  What every component of the ingestor shares: the combinators of the result type, the ranges of the machine integers, and generic facts on lists and maps.

  The Rust code reports every failure as a \<^verbatim>\<open>color_eyre::eyre::Report\<close>. Each component has its own
  datatype of reports, one constructor per place that raises one, with the values the message
  names; a \<^verbatim>\<open>wrap_err_with\<close> that adds context is a constructor that holds the inner report. A
  fallible operation returns a sum, the report on the left.
\<close>

section \<open>Results\<close>

text \<open>\<open>and_then\<close> is the \<^verbatim>\<open>?\<close> operator: an error returns at once.\<close>

definition and_then :: "'e + 'a \<Rightarrow> ('a \<Rightarrow> 'e + 'b) \<Rightarrow> 'e + 'b" where
  "and_then r f = (case r of Inl e \<Rightarrow> Inl e | Inr a \<Rightarrow> f a)"

definition ok_or :: "'e \<Rightarrow> 'a option \<Rightarrow> 'e + 'a" where
  "ok_or e x = (case x of None \<Rightarrow> Inl e | Some a \<Rightarrow> Inr a)"

definition map_err :: "('e \<Rightarrow> 'f) \<Rightarrow> 'e + 'a \<Rightarrow> 'f + 'a" where
  "map_err f r = (case r of Inl e \<Rightarrow> Inl (f e) | Inr a \<Rightarrow> Inr a)"

text \<open>\<open>collect_res f xs\<close> is \<^verbatim>\<open>xs.into_iter().map(f).collect::<Result<Vec<_>>>()\<close>: the first error wins.\<close>

fun collect_res :: "('a \<Rightarrow> 'e + 'b) \<Rightarrow> 'a list \<Rightarrow> 'e + 'b list" where
  "collect_res f [] = Inr []"
| "collect_res f (x # xs) =
     and_then (f x) (\<lambda>y. and_then (collect_res f xs) (\<lambda>ys. Inr (y # ys)))"

lemma and_then_simps [simp]:
  "and_then (Inl e) f = Inl e"
  "and_then (Inr a) f = f a"
  by (simp_all add: and_then_def)

lemma and_then_Inr [simp]: "and_then r f = Inr b \<longleftrightarrow> (\<exists>a. r = Inr a \<and> f a = Inr b)"
  by (cases r) auto

lemma ok_or_simps [simp]:
  "ok_or e None = Inl e"
  "ok_or e (Some a) = Inr a"
  by (simp_all add: ok_or_def)

lemma ok_or_Inr [simp]: "ok_or e x = Inr a \<longleftrightarrow> x = Some a"
  by (cases x) auto

lemma map_err_simps [simp]:
  "map_err f (Inl e) = Inl (f e)"
  "map_err f (Inr a) = Inr a"
  by (simp_all add: map_err_def)

lemma map_err_Inr [simp]: "map_err f r = Inr a \<longleftrightarrow> r = Inr a"
  by (cases r) auto

lemma collect_res_Inr: "collect_res f xs = Inr ys \<longleftrightarrow> list_all2 (\<lambda>x y. f x = Inr y) xs ys"
proof (induction xs arbitrary: ys)
  case Nil
  show ?case by auto
next
  case (Cons x xs)
  show ?case by (cases ys) (auto simp: Cons.IH)
qed

lemma collect_res_map:
  assumes "\<And>x. x \<in> set xs \<Longrightarrow> f x = Inr (g x)"
  shows "collect_res f xs = Inr (map g xs)"
  using assms by (induction xs) auto

lemma fst_Inr_E:
  assumes "\<not> isl (fst p)"
  obtains x y where "p = (Inr x, y)"
  using assms by (cases p; cases "fst p") auto

lemma fst_Inl_E:
  assumes "isl (fst p)"
  obtains e y where "p = (Inl e, y)"
  using assms by (cases p; cases "fst p") auto

section \<open>Machine integers\<close>

text \<open>
  Nonces, timestamps and identifiers are \<^verbatim>\<open>i64\<close> and \<^verbatim>\<open>i32\<close> values. The code compares and stores
  them and, outside \<open>floor_hour\<close>, does no arithmetic on them, so they are \<open>int\<close> with the range
  checked where a value enters the program (JSON numbers, \<^verbatim>\<open>str::parse\<close>).
\<close>

definition in_i32 :: "int \<Rightarrow> bool" where
  "in_i32 n \<longleftrightarrow> - 2147483648 \<le> n \<and> n \<le> 2147483647"

definition in_i64 :: "int \<Rightarrow> bool" where
  "in_i64 n \<longleftrightarrow> - 9223372036854775808 \<le> n \<and> n \<le> 9223372036854775807"

definition in_u32 :: "int \<Rightarrow> bool" where
  "in_u32 n \<longleftrightarrow> 0 \<le> n \<and> n \<le> 4294967295"

lemmas int_ranges = in_i32_def in_i64_def in_u32_def

section \<open>Lists and maps\<close>

lemma map_of_eq_Some_distinct:
  assumes "distinct (map fst ps)" and "(k, v) \<in> set ps"
  shows "map_of ps k = Some v"
  using assms by simp

lemma find_distinct_key:
  "distinct (map f xs) \<Longrightarrow> find (\<lambda>x. f x = k) xs = Some x \<longleftrightarrow> x \<in> set xs \<and> f x = k"
  by (induction xs) auto

lemma list_all_upt: "list_all P [i..<j] \<Longrightarrow> i \<le> n \<Longrightarrow> n < j \<Longrightarrow> P n"
  by (simp add: list_all_iff)

lemma sorted_split: "sorted (map f xs) \<Longrightarrow> xs = filter (\<lambda>x. f x \<le> c) xs @ filter (\<lambda>x. c < f x) xs"
proof (induction xs)
  case (Cons x xs)
  show ?case
  proof (cases "f x \<le> c")
    case True
    with Cons show ?thesis by simp
  next
    case False
    with Cons.prems have "\<forall>y \<in> set xs. c < f y" by fastforce
    with False show ?thesis by (auto simp: filter_empty_conv filter_id_conv)
  qed
qed simp

lemma sorted_filter_suffix: "sorted (map f xs) \<Longrightarrow> \<exists>older. xs = older @ filter (\<lambda>x. c \<le> f x) xs"
proof (induction xs)
  case (Cons x xs)
  show ?case
  proof (cases "c \<le> f x")
    case True
    with Cons.prems have "filter (\<lambda>x. c \<le> f x) (x # xs) = x # xs" by (auto simp: filter_id_conv)
    then show ?thesis by (metis append_Nil)
  next
    case False
    from Cons obtain older where "xs = older @ filter (\<lambda>x. c \<le> f x) xs" by auto
    with False show ?thesis by (intro exI [of _ "x # older"]) simp
  qed
qed simp

end
