(* ===== verification/Json.thy ===== *)
theory Json
  imports Prelude
begin

text \<open>
  JSON values (\<^verbatim>\<open>serde_json::Value\<close>) and what \<^verbatim>\<open>#[derive(Deserialize)]\<close> makes of the types of the
  crate \<^verbatim>\<open>lighter-rs-types\<close>: decoders for the field types, for a struct with named fields and for
  an enum with an internal tag (\<^verbatim>\<open>#[serde(tag = "type")]\<close>). A number is \<open>JInt\<close> when its literal is
  an integer that fits \<^verbatim>\<open>i64\<close> or \<^verbatim>\<open>u64\<close>, \<open>JFloat\<close> with its literal otherwise. An object keeps its
  members in the order of the text; a value that went through \<^verbatim>\<open>serde_json::Value\<close> has no key twice.
\<close>

datatype json =
    JNull
  | JBool bool
  | JInt int
  | JFloat string
  | JStr string
  | JArr "json list"
  | JObj "(string \<times> json) list"

type_synonym 'a decoder = "json \<Rightarrow> 'a option"

section \<open>Field types\<close>

definition de_string :: "string decoder" where
  "de_string j = (case j of JStr s \<Rightarrow> Some s | _ \<Rightarrow> None)"

definition de_bool :: "bool decoder" where
  "de_bool j = (case j of JBool b \<Rightarrow> Some b | _ \<Rightarrow> None)"

definition de_int :: "(int \<Rightarrow> bool) \<Rightarrow> int decoder" where
  "de_int in_range j = (case j of JInt n \<Rightarrow> if in_range n then Some n else None | _ \<Rightarrow> None)"

abbreviation de_i64 :: "int decoder" where "de_i64 \<equiv> de_int in_i64"
abbreviation de_i32 :: "int decoder" where "de_i32 \<equiv> de_int in_i32"
abbreviation de_u32 :: "int decoder" where "de_u32 \<equiv> de_int in_u32"

fun seq_opt :: "('a \<Rightarrow> 'b option) \<Rightarrow> 'a list \<Rightarrow> 'b list option" where
  "seq_opt f [] = Some []"
| "seq_opt f (x # xs) =
     (case f x of None \<Rightarrow> None | Some y \<Rightarrow> map_option ((#) y) (seq_opt f xs))"

definition de_vec :: "'a decoder \<Rightarrow> 'a list decoder" where
  "de_vec d j = (case j of JArr js \<Rightarrow> seq_opt d js | _ \<Rightarrow> None)"

definition de_option :: "'a decoder \<Rightarrow> 'a option decoder" where
  "de_option d j = (case j of JNull \<Rightarrow> Some None | _ \<Rightarrow> map_option Some (d j))"

text \<open>\<^verbatim>\<open>HashMap<String, V>\<close>: every member is decoded, a later member of the same key replaces an
  earlier one.\<close>

definition de_map :: "'a decoder \<Rightarrow> (string \<rightharpoonup> 'a) decoder" where
  "de_map d j = (case j of
     JObj kvs \<Rightarrow> map_option (\<lambda>vs. map_of (rev (zip (map fst kvs) vs))) (seq_opt d (map snd kvs))
   | _ \<Rightarrow> None)"

section \<open>Structs and tagged enums\<close>

text \<open>
  \<open>struct_fields names j\<close> is the struct's input as the derived visitor sees it: the members of an
  object whose names are fields (others are ignored; a field named twice is an error), or the
  elements of an array with one element per field.
\<close>

definition struct_fields :: "string list \<Rightarrow> json \<Rightarrow> (string \<times> json) list option" where
  "struct_fields names j = (case j of
     JObj kvs \<Rightarrow>
       (let known = filter (\<lambda>kv. fst kv \<in> set names) kvs
        in if distinct (map fst known) then Some known else None)
   | JArr vs \<Rightarrow> if length vs = length names then Some (zip names vs) else None
   | _ \<Rightarrow> None)"

text \<open>A missing field is an error, unless its type is an \<^verbatim>\<open>Option\<close>.\<close>

definition field :: "'a decoder \<Rightarrow> string \<Rightarrow> (string \<times> json) list \<Rightarrow> 'a option" where
  "field d name kvs = (case map_of kvs name of None \<Rightarrow> None | Some v \<Rightarrow> d v)"

definition opt_field :: "'a decoder \<Rightarrow> string \<Rightarrow> (string \<times> json) list \<Rightarrow> 'a option option" where
  "opt_field d name kvs = (case map_of kvs name of None \<Rightarrow> Some None | Some v \<Rightarrow> de_option d v)"

text \<open>
  An internally tagged enum: the tag is the string member \<^verbatim>\<open>type\<close> (or the first element of an
  array); the variant with that name decodes what is left.
\<close>

definition de_tagged :: "(string \<rightharpoonup> 'a decoder) \<Rightarrow> 'a decoder" where
  "de_tagged variant j = (case j of
     JObj kvs \<Rightarrow>
       (case filter (\<lambda>kv. fst kv = ''type'') kvs of
          [(_, JStr ty)] \<Rightarrow>
            (case variant ty of
               None \<Rightarrow> None
             | Some d \<Rightarrow> d (JObj (filter (\<lambda>kv. fst kv \<noteq> ''type'') kvs)))
        | _ \<Rightarrow> None)
   | JArr (JStr ty # vs) \<Rightarrow>
       (case variant ty of None \<Rightarrow> None | Some d \<Rightarrow> d (JArr vs))
   | _ \<Rightarrow> None)"

text \<open>\<^verbatim>\<open>Value::get(key)\<close>: a member of an object, nothing for any other value.\<close>

fun json_get :: "string \<Rightarrow> json \<Rightarrow> json option" where
  "json_get key (JObj kvs) = map_of kvs key"
| "json_get key _ = None"

section \<open>Facts\<close>

lemma seq_opt_Some: "seq_opt f xs = Some ys \<longleftrightarrow> list_all2 (\<lambda>x y. f x = Some y) xs ys"
proof (induction xs arbitrary: ys)
  case Nil
  show ?case by auto
next
  case (Cons x xs)
  show ?case by (cases ys) (auto simp: Cons.IH split: option.splits)
qed

lemma seq_opt_map:
  "(\<And>x. x \<in> set xs \<Longrightarrow> d (e x) = Some x) \<Longrightarrow> seq_opt d (map e xs) = Some xs"
  by (induction xs) auto

lemma de_vec_map: "(\<And>x. x \<in> set xs \<Longrightarrow> d (e x) = Some x) \<Longrightarrow> de_vec d (JArr (map e xs)) = Some xs"
  by (simp add: de_vec_def seq_opt_map)

lemma seq_opt_all: "seq_opt d js = Some xs \<Longrightarrow> x \<in> set xs \<Longrightarrow> \<exists>j \<in> set js. d j = Some x"
  by (induction js arbitrary: xs) (auto split: option.splits)

lemma de_vec_all:
  "de_vec d j = Some xs \<Longrightarrow> (\<And>v x. d v = Some x \<Longrightarrow> P x) \<Longrightarrow> x \<in> set xs \<Longrightarrow> P x"
  by (auto simp: de_vec_def split: json.splits dest!: seq_opt_all)

lemma de_int_range: "de_int r j = Some n \<Longrightarrow> r n"
  by (auto simp: de_int_def split: json.splits if_splits)

text \<open>Members that are not fields of the struct do not matter.\<close>

lemma struct_fields_ignores:
  "k \<notin> set names \<Longrightarrow> struct_fields names (JObj (kvs @ (k, v) # kvs')) = struct_fields names (JObj (kvs @ kvs'))"
  by (simp add: struct_fields_def)

lemma field_missing: "name \<notin> fst ` set kvs \<Longrightarrow> field d name kvs = None"
  by (simp add: field_def map_of_eq_None_iff [THEN iffD2])

lemma struct_fields_missing:
  "struct_fields names (JObj kvs) = Some fs \<Longrightarrow> name \<notin> fst ` set kvs \<Longrightarrow> field d name fs = None"
  by (rule field_missing) (auto simp: struct_fields_def Let_def split: if_splits)

end
