(* ===== verification/Libs.thy ===== *)
theory Libs
  imports Json
begin

text \<open>
  The third-party functions the ingestor calls, as parameters of the model. Nothing in the model
  fixes what they compute; a property that relies on documented behaviour of one of them names it
  as a hypothesis.

  The type \<open>'d\<close> stands for \<^verbatim>\<open>bigdecimal::BigDecimal\<close> and \<open>'t\<close> for \<^verbatim>\<open>chrono::DateTime<Utc>\<close>. Both
  are compared by value in the code (\<^verbatim>\<open>1.50\<close> equals \<^verbatim>\<open>1.5\<close>; two instants are equal when they are the
  same instant), and both orders are total, so they are used at types of class \<open>linorder\<close>. The type
  \<open>'f\<close> stands for \<^verbatim>\<open>f64\<close>, whose values the code only stores. A
  \<^verbatim>\<open>serde_json::Value\<close> keeps the last of several members of one name; a struct read straight from the
  text sees all of them, so the two readings of a text are two parameters.
\<close>

record ('d, 't, 'f) libs =
  dec_from_str :: "string \<Rightarrow> 'd option"      \<comment> \<open>\<^verbatim>\<open>BigDecimal::from_str\<close>\<close>
  dec_is_zero :: "'d \<Rightarrow> bool"                \<comment> \<open>\<^verbatim>\<open>Zero::is_zero\<close>\<close>
  from_micros :: "int \<Rightarrow> 't option"          \<comment> \<open>\<^verbatim>\<open>DateTime::from_timestamp_micros\<close>\<close>
  from_millis :: "int \<Rightarrow> 't option"          \<comment> \<open>\<^verbatim>\<open>DateTime::from_timestamp_millis\<close>\<close>
  from_secs :: "int \<Rightarrow> 't option"            \<comment> \<open>\<^verbatim>\<open>DateTime::from_timestamp(s, 0)\<close>\<close>
  to_secs :: "'t \<Rightarrow> int"                     \<comment> \<open>\<^verbatim>\<open>DateTime::timestamp\<close>\<close>
  to_micros :: "'t \<Rightarrow> int"                   \<comment> \<open>\<^verbatim>\<open>DateTime::timestamp_micros\<close>\<close>
  plus_secs :: "'t \<Rightarrow> int \<Rightarrow> 't option"       \<comment> \<open>\<^verbatim>\<open>+ Duration::seconds(n)\<close>, \<open>None\<close> where it panics\<close>
  parse_f64 :: "string \<Rightarrow> 'f option"         \<comment> \<open>\<^verbatim>\<open>str::parse::<f64>\<close>\<close>
  json_from_str :: "string \<Rightarrow> json option"   \<comment> \<open>\<^verbatim>\<open>serde_json::from_str::<Value>\<close>\<close>
  json_to_text :: "json \<Rightarrow> string option"    \<comment> \<open>\<^verbatim>\<open>serde_json::to_string\<close>\<close>
  json_document :: "string \<Rightarrow> json option"   \<comment> \<open>the document a typed \<^verbatim>\<open>serde_json::from_str\<close> reads\<close>

text \<open>
  Documented behaviour of chrono's clock arithmetic. An instant is a number of nanoseconds
  (\<open>nanos\<close>); its order is the order of the instants; \<^verbatim>\<open>timestamp\<close> rounds down to whole seconds; the
  constructors give the instant of their argument where they give one. What counts as in range is
  left open but for one thing: the whole seconds between two representable instants are
  representable.
\<close>

definition chrono_ok :: "('d, 't::linorder, 'f) libs \<Rightarrow> ('t \<Rightarrow> int) \<Rightarrow> bool" where
  "chrono_ok L nanos \<longleftrightarrow>
     (\<forall>a b. a < b \<longleftrightarrow> nanos a < nanos b)
   \<and> (\<forall>a. to_secs L a = nanos a div 1000000000)
   \<and> (\<forall>a. to_micros L a = nanos a div 1000)
   \<and> (\<forall>s a. from_secs L s = Some a \<longrightarrow> nanos a = s * 1000000000)
   \<and> (\<forall>n a. from_micros L n = Some a \<longrightarrow> nanos a = n * 1000)
   \<and> (\<forall>n a. from_millis L n = Some a \<longrightarrow> nanos a = n * 1000000)
   \<and> (\<forall>a n b. plus_secs L a n = Some b \<longrightarrow> nanos b = nanos a + n * 1000000000)
   \<and> (\<forall>a n b. nanos a \<le> n * 1000000000 \<and> n * 1000000000 \<le> nanos b \<longrightarrow> from_secs L n \<noteq> None)
   \<and> (\<forall>a n b. 0 \<le> n \<and> nanos a + n * 1000000000 \<le> nanos b \<longrightarrow> plus_secs L a n \<noteq> None)"

lemma chrono_less: "chrono_ok L nanos \<Longrightarrow> a < b \<longleftrightarrow> nanos a < nanos b"
  by (simp add: chrono_ok_def)

lemma chrono_le: "chrono_ok L nanos \<Longrightarrow> a \<le> b \<longleftrightarrow> nanos a \<le> nanos b"
  by (simp add: chrono_ok_def linorder_not_less [symmetric])

lemma chrono_eq: "chrono_ok L nanos \<Longrightarrow> a = b \<longleftrightarrow> nanos a = nanos b"
  by (metis chrono_le order_antisym_conv order_refl)

lemma chrono_to_secs: "chrono_ok L nanos \<Longrightarrow> to_secs L a = nanos a div 1000000000"
  by (simp add: chrono_ok_def)

lemma chrono_to_micros: "chrono_ok L nanos \<Longrightarrow> to_micros L a = nanos a div 1000"
  by (simp add: chrono_ok_def)

lemma chrono_from_secs: "chrono_ok L nanos \<Longrightarrow> from_secs L s = Some a \<Longrightarrow> nanos a = s * 1000000000"
  by (simp add: chrono_ok_def)

lemma chrono_from_micros: "chrono_ok L nanos \<Longrightarrow> from_micros L n = Some a \<Longrightarrow> nanos a = n * 1000"
  by (simp add: chrono_ok_def)

lemma chrono_from_millis: "chrono_ok L nanos \<Longrightarrow> from_millis L n = Some a \<Longrightarrow> nanos a = n * 1000000"
  by (simp add: chrono_ok_def)

lemma chrono_plus_secs:
  "chrono_ok L nanos \<Longrightarrow> plus_secs L a n = Some b \<Longrightarrow> nanos b = nanos a + n * 1000000000"
  by (simp add: chrono_ok_def)

lemma chrono_from_secs_between:
  "chrono_ok L nanos \<Longrightarrow> nanos a \<le> n * 1000000000 \<Longrightarrow> n * 1000000000 \<le> nanos b \<Longrightarrow>
   from_secs L n \<noteq> None"
  unfolding chrono_ok_def by blast

lemma chrono_plus_secs_below:
  "chrono_ok L nanos \<Longrightarrow> 0 \<le> n \<Longrightarrow> nanos a + n * 1000000000 \<le> nanos b \<Longrightarrow> plus_secs L a n \<noteq> None"
  unfolding chrono_ok_def by blast

lemmas chrono_nanos = chrono_from_secs chrono_from_micros chrono_from_millis chrono_plus_secs

end
