(* ===== verification/Rust_Std.thy ===== *)
theory Rust_Std
  imports Prelude
begin

text \<open>
  The functions of Rust's standard library that the ingestor calls on strings and integers:
  \<^verbatim>\<open>str::split\<close>, \<^verbatim>\<open>str::parse::<i32>\<close>, the decimal \<^verbatim>\<open>Display\<close> of integers, \<^verbatim>\<open>str::ends_with\<close>,
  \<^verbatim>\<open>str::replace\<close> of a character, \<^verbatim>\<open>[String]::join\<close>. Strings are lists of bytes; every separator
  the code uses is ASCII.
\<close>

section \<open>Splitting and suffixes\<close>

fun str_split :: "char \<Rightarrow> string \<Rightarrow> string list" where
  "str_split c [] = [[]]"
| "str_split c (x # xs) =
     (if x = c then [] # str_split c xs
      else (case str_split c xs of [] \<Rightarrow> [[x]] | w # ws \<Rightarrow> (x # w) # ws))"

definition nth_opt :: "nat \<Rightarrow> 'a list \<Rightarrow> 'a option" where
  "nth_opt n xs = (if n < length xs then Some (xs ! n) else None)"

definition ends_with :: "string \<Rightarrow> string \<Rightarrow> bool" where
  "ends_with s t \<longleftrightarrow> length t \<le> length s \<and> drop (length s - length t) s = t"

fun str_join :: "string \<Rightarrow> string list \<Rightarrow> string" where
  "str_join sep [] = []"
| "str_join sep [s] = s"
| "str_join sep (s # t # ss) = s @ sep @ str_join sep (t # ss)"

definition str_replace :: "char \<Rightarrow> string \<Rightarrow> string \<Rightarrow> string" where
  "str_replace c r s = concat (map (\<lambda>x. if x = c then r else [x]) s)"

lemma str_split_nonempty [simp]: "str_split c s \<noteq> []"
  by (cases s) (auto split: list.splits)

lemma str_split_free: "c \<notin> set s \<Longrightarrow> str_split c s = [s]"
  by (induction s) auto

lemma str_split_sep: "c \<notin> set a \<Longrightarrow> str_split c (a @ c # b) = a # str_split c b"
  by (induction a) auto

lemma ends_with_append [simp]: "ends_with (s @ t) t"
  by (simp add: ends_with_def)

lemma ends_with_iff: "ends_with s t \<longleftrightarrow> (\<exists>p. s = p @ t)"
proof
  assume h: "ends_with s t"
  have "s = take (length s - length t) s @ drop (length s - length t) s" by simp
  with h show "\<exists>p. s = p @ t" by (metis ends_with_def)
qed auto

section \<open>Integers as text\<close>

definition digit_val :: "char \<Rightarrow> nat option" where
  "digit_val c = (let n = of_char c in if 48 \<le> n \<and> n \<le> 57 then Some (n - 48) else None)"

definition digit_char :: "nat \<Rightarrow> char" where
  "digit_char d = char_of (48 + d)"

fun parse_digits :: "int \<Rightarrow> string \<Rightarrow> int option" where
  "parse_digits a [] = Some a"
| "parse_digits a (c # cs) =
     (case digit_val c of None \<Rightarrow> None | Some d \<Rightarrow> parse_digits (10 * a + int d) cs)"

text \<open>\<^verbatim>\<open>from_str_radix\<close>: one optional sign, then at least one digit and nothing else.\<close>

fun parse_int :: "string \<Rightarrow> int option" where
  "parse_int [] = None"
| "parse_int (c # cs) =
     (if c = CHR ''-'' \<or> c = CHR ''+'' then
        (if cs = [] then None
         else map_option (\<lambda>n. if c = CHR ''-'' then - n else n) (parse_digits 0 cs))
      else parse_digits 0 (c # cs))"

definition parse_i32 :: "string \<Rightarrow> int option" where
  "parse_i32 s = (case parse_int s of
     None \<Rightarrow> None
   | Some n \<Rightarrow> if in_i32 n then Some n else None)"

fun show_nat :: "nat \<Rightarrow> string" where
  "show_nat n = (if n < 10 then [digit_char n] else show_nat (n div 10) @ [digit_char (n mod 10)])"

declare show_nat.simps [simp del]

definition show_int :: "int \<Rightarrow> string" where
  "show_int n = (if n < 0 then CHR ''-'' # show_nat (nat (- n)) else show_nat (nat n))"

lemma digit_val_char [simp]: "d < 10 \<Longrightarrow> digit_val (digit_char d) = Some d"
  by (simp add: digit_val_def digit_char_def Let_def)

lemma digit_val_signs [simp]:
  "digit_val (CHR ''-'') = None" "digit_val (CHR ''+'') = None"
  "digit_val (CHR '':'') = None" "digit_val (CHR ''/'') = None"
  by (simp_all add: digit_val_def Let_def)

lemma show_nat_digits: "c \<in> set (show_nat n) \<Longrightarrow> digit_val c \<noteq> None"
proof (induction n rule: show_nat.induct)
  case (1 n)
  then show ?case by (subst (asm) show_nat.simps) (auto split: if_splits)
qed

lemma show_nat_nonempty [simp]: "show_nat n \<noteq> []"
  by (subst show_nat.simps) simp

lemma parse_digits_append:
  "parse_digits a (xs @ ys) = (case parse_digits a xs of None \<Rightarrow> None | Some b \<Rightarrow> parse_digits b ys)"
  by (induction xs arbitrary: a) (auto split: option.splits)

lemma parse_digits_show_nat [simp]: "parse_digits 0 (show_nat n) = Some (int n)"
proof (induction n rule: show_nat.induct)
  case (1 n)
  show ?case
  proof (cases "n < 10")
    case True
    then show ?thesis by (subst show_nat.simps) simp
  next
    case False
    with "1.IH" show ?thesis
      by (subst show_nat.simps) (simp add: parse_digits_append zdiv_int zmod_int)
  qed
qed

lemma parse_int_show_nat: "parse_int (show_nat n) = Some (int n)"
proof -
  obtain c cs where s: "show_nat n = c # cs" by (cases "show_nat n") auto
  then have "digit_val c \<noteq> None" using show_nat_digits [of c n] by simp
  then have "c \<noteq> CHR ''-''" and "c \<noteq> CHR ''+''" by auto
  moreover have "parse_digits 0 (c # cs) = Some (int n)" using s parse_digits_show_nat [of n] by simp
  ultimately show ?thesis unfolding s by (simp del: parse_digits.simps)
qed

lemma parse_int_show_int [simp]: "parse_int (show_int n) = Some n"
  by (auto simp: show_int_def parse_int_show_nat)

lemma parse_i32_show_int [simp]: "in_i32 n \<Longrightarrow> parse_i32 (show_int n) = Some n"
  by (simp add: parse_i32_def)

lemma parse_i32_range: "parse_i32 s = Some n \<Longrightarrow> in_i32 n"
  by (auto simp: parse_i32_def split: option.splits if_splits)

lemma show_int_free: "digit_val c = None \<Longrightarrow> c \<noteq> CHR ''-'' \<Longrightarrow> c \<notin> set (show_int n)"
  by (auto simp: show_int_def dest: show_nat_digits)

section \<open>Quoting\<close>

lemma str_replace_simps [simp]:
  "str_replace c r [] = []"
  "str_replace c r (x # xs) = (if x = c then r else [x]) @ str_replace c r xs"
  by (simp_all add: str_replace_def)

end
