(* ===== verification/Export.thy ===== *)
theory Export
  imports Libs Rust_Std
begin

text \<open>
  \<^verbatim>\<open>src/export.rs\<close>: the export of stored rows as Parquet files. The database is the environment of an
  export: what it answers to the query for known symbol names and the stream of rows it answers to
  a query text. So is the disk: whether a directory or a file can be made and how many batches a
  file takes. \<open>export_loop\<close> is the loop that \<open>export_trades\<close> and \<open>export_orderbooks\<close> share, over the
  operations of their batches.
\<close>

section \<open>The condition of a query\<close>

datatype export_error =
    NoDataset
  | AlreadyExists string
  | ExportConnect
  | ExportQuery
  | UnknownSymbols string
  | CreateDirectory
  | CreateFile string
  | RowStream
  | JsonText
  | ColumnLengths
  | WriteBatch
  | CloseFile

definition quote_char :: char where "quote_char = CHR 0x27"

definition sql_quote :: "string \<Rightarrow> string" where
  "sql_quote s = [quote_char] @ str_replace quote_char [quote_char, quote_char] s @ [quote_char]"

definition symbol_condition ::
  "(string list \<Rightarrow> string list option) \<Rightarrow> string list \<Rightarrow> export_error + string" where
  "symbol_condition query_names symbols =
     (if symbols = [] then Inr []
      else and_then (ok_or ExportQuery (query_names symbols)) (\<lambda>known.
        let unknown = filter (\<lambda>s. s \<notin> set known) symbols in
        if unknown \<noteq> [] then Inl (UnknownSymbols (str_join '', '' unknown))
        else Inr (''s.name IN ('' @ str_join '', '' (map sql_quote symbols) @ '')'')))"

definition hours_condition :: "nat \<Rightarrow> string \<Rightarrow> string" where
  "hours_condition hours time_column =
     time_column @ '' >= now() - interval '' @ [quote_char] @ show_nat hours @ '' hours'' @ [quote_char]"

definition where_clause :: "string \<Rightarrow> nat option \<Rightarrow> string \<Rightarrow> string" where
  "where_clause symbol_cond hours time_column =
     (let conditions = (if symbol_cond \<noteq> [] then [symbol_cond] else [])
            @ (case hours of None \<Rightarrow> [] | Some h \<Rightarrow> [hours_condition h time_column])
      in if conditions = [] then [] else '' WHERE '' @ str_join '' AND '' conditions)"

definition trades_sql :: "string \<Rightarrow> string" where
  "trades_sql filt =
     ''SELECT t.time, s.name, t.lighter_trade_id, t.price, t.size, t.is_maker_ask, t.trade_type ''
     @ ''FROM trades t JOIN symbols s ON s.id = t.symbol'' @ filt @ '' ORDER BY t.time, t.id''"

definition orderbooks_sql :: "string \<Rightarrow> string" where
  "orderbooks_sql filt =
     ''SELECT o.time, s.name, o.message_type, o.sequence, o.bids, o.asks ''
     @ ''FROM orderbook_messages o JOIN symbols s ON s.id = o.symbol'' @ filt
     @ '' ORDER BY o.time, o.id''"

section \<open>Batches\<close>

definition BATCH_SIZE :: nat where "BATCH_SIZE = 8192"

text \<open>A row of the query, and the columns of a batch.\<close>

record ('t, 'f) trade_view =
  tv_time :: 't
  tv_symbol :: string
  tv_id :: int
  tv_price :: 'f
  tv_size :: 'f
  tv_maker :: bool
  tv_kind :: string

record 'f trade_batch =
  tb_times :: "int list"
  tb_symbols :: "string list"
  tb_ids :: "int list"
  tb_prices :: "'f list"
  tb_sizes :: "'f list"
  tb_makers :: "bool list"
  tb_kinds :: "string list"

definition trade_batch_new :: "'f trade_batch" where
  "trade_batch_new = \<lparr>tb_times = [], tb_symbols = [], tb_ids = [], tb_prices = [], tb_sizes = [],
     tb_makers = [], tb_kinds = []\<rparr>"

definition trade_batch_len :: "'f trade_batch \<Rightarrow> nat" where
  "trade_batch_len b = length (tb_times b)"

definition trade_batch_push ::
  "('d, 't, 'f) libs \<Rightarrow> 'f trade_batch \<Rightarrow> ('t, 'f) trade_view \<Rightarrow> export_error + 'f trade_batch" where
  "trade_batch_push L b row =
     Inr \<lparr>tb_times = tb_times b @ [to_micros L (tv_time row)],
          tb_symbols = tb_symbols b @ [tv_symbol row], tb_ids = tb_ids b @ [tv_id row],
          tb_prices = tb_prices b @ [tv_price row], tb_sizes = tb_sizes b @ [tv_size row],
          tb_makers = tb_makers b @ [tv_maker row], tb_kinds = tb_kinds b @ [tv_kind row]\<rparr>"

text \<open>\<^verbatim>\<open>RecordBatch::try_new\<close> wants columns of one length. The columns leave the batch empty.\<close>

definition trade_batch_write :: "'f trade_batch \<Rightarrow> export_error + 'f trade_batch \<times> 'f trade_batch" where
  "trade_batch_write b =
     (let n = length (tb_times b) in
      if length (tb_symbols b) = n \<and> length (tb_ids b) = n \<and> length (tb_prices b) = n
         \<and> length (tb_sizes b) = n \<and> length (tb_makers b) = n \<and> length (tb_kinds b) = n
      then Inr (b, trade_batch_new) else Inl ColumnLengths)"

record 't book_view =
  bv_time :: 't
  bv_symbol :: string
  bv_type :: string
  bv_sequence :: "int option"
  bv_bids :: json
  bv_asks :: json

record book_batch =
  bb_times :: "int list"
  bb_symbols :: "string list"
  bb_types :: "string list"
  bb_sequences :: "int option list"
  bb_bids :: "string list"
  bb_asks :: "string list"

definition book_batch_new :: book_batch where
  "book_batch_new = \<lparr>bb_times = [], bb_symbols = [], bb_types = [], bb_sequences = [],
     bb_bids = [], bb_asks = []\<rparr>"

definition book_batch_len :: "book_batch \<Rightarrow> nat" where
  "book_batch_len b = length (bb_times b)"

definition book_batch_push ::
  "('d, 't, 'f) libs \<Rightarrow> book_batch \<Rightarrow> 't book_view \<Rightarrow> export_error + book_batch" where
  "book_batch_push L b row =
     and_then (ok_or JsonText (json_to_text L (bv_bids row))) (\<lambda>bids_text.
     and_then (ok_or JsonText (json_to_text L (bv_asks row))) (\<lambda>asks_text.
       Inr \<lparr>bb_times = bb_times b @ [to_micros L (bv_time row)],
            bb_symbols = bb_symbols b @ [bv_symbol row], bb_types = bb_types b @ [bv_type row],
            bb_sequences = bb_sequences b @ [bv_sequence row],
            bb_bids = bb_bids b @ [bids_text], bb_asks = bb_asks b @ [asks_text]\<rparr>))"

definition book_batch_write :: "book_batch \<Rightarrow> export_error + book_batch \<times> book_batch" where
  "book_batch_write b =
     (let n = length (bb_times b) in
      if length (bb_symbols b) = n \<and> length (bb_types b) = n \<and> length (bb_sequences b) = n
         \<and> length (bb_bids b) = n \<and> length (bb_asks b) = n
      then Inr (b, book_batch_new) else Inl ColumnLengths)"

section \<open>The loop\<close>

text \<open>
  \<open>room\<close> is how many writes the file takes before the disk fails (\<open>None\<close>: it does not). The result
  is beside the batches that are in the file and whether its footer is.
\<close>

definition write_to :: "nat option \<Rightarrow> 'o list \<Rightarrow> 'o \<Rightarrow> export_error + 'o list" where
  "write_to room out o1 =
     (case room of None \<Rightarrow> Inr (out @ [o1])
      | Some n \<Rightarrow> if length out < n then Inr (out @ [o1]) else Inl WriteBatch)"

definition close_file :: "nat option \<Rightarrow> 'o list \<Rightarrow> (export_error + unit) \<times> 'o list \<times> bool" where
  "close_file room out =
     (case room of None \<Rightarrow> (Inr (), out, True)
      | Some n \<Rightarrow> if length out < n then (Inr (), out, True) else (Inl CloseFile, out, False))"

fun export_loop ::
  "('b \<Rightarrow> 'r \<Rightarrow> export_error + 'b) \<Rightarrow> ('b \<Rightarrow> nat) \<Rightarrow> ('b \<Rightarrow> export_error + 'o \<times> 'b) \<Rightarrow> nat option
   \<Rightarrow> 'r option list \<Rightarrow> 'b \<Rightarrow> 'o list \<Rightarrow> (export_error + unit) \<times> 'o list \<times> bool" where
  "export_loop push len write room [] b out =
     (if len b = 0 then close_file room out
      else (case write b of
        Inl e \<Rightarrow> (Inl e, out, False)
      | Inr (o1, b') \<Rightarrow>
          (case write_to room out o1 of
             Inl e \<Rightarrow> (Inl e, out, False)
           | Inr out' \<Rightarrow> close_file room out')))"
| "export_loop push len write room (None # rows) b out = (Inl RowStream, out, False)"
| "export_loop push len write room (Some row # rows) b out =
     (case push b row of
        Inl e \<Rightarrow> (Inl e, out, False)
      | Inr b1 \<Rightarrow>
          if len b1 = BATCH_SIZE then
            (case write b1 of
               Inl e \<Rightarrow> (Inl e, out, False)
             | Inr (o1, b2) \<Rightarrow>
                 (case write_to room out o1 of
                    Inl e \<Rightarrow> (Inl e, out, False)
                  | Inr out' \<Rightarrow> export_loop push len write room rows b2 out'))
          else export_loop push len write room rows b1 out)"

section \<open>Files\<close>

datatype 'f out_file =
    OtherFile string
  | TradesFile "'f trade_batch list" bool     \<comment> \<open>row groups, and whether it is complete\<close>
  | BooksFile "book_batch list" bool

type_synonym 'f files = "string \<rightharpoonup> 'f out_file"

record ('t, 'f) export_env =
  ev_connect :: bool
  ev_names :: "string list \<Rightarrow> string list option"
  ev_mkdir :: bool
  ev_others :: "'f files"     \<comment> \<open>files that others make between the check and the export\<close>
  ev_open :: "string \<Rightarrow> bool"
  ev_room :: "string \<Rightarrow> nat option"
  ev_trades :: "string \<Rightarrow> ('t, 'f) trade_view option list option"
  ev_books :: "string \<Rightarrow> 't book_view option list option"

text \<open>\<^verbatim>\<open>Path::join\<close> of a plain file name.\<close>

definition path_join :: "string \<Rightarrow> string \<Rightarrow> string" where
  "path_join dir name =
     (if dir = [] \<or> ends_with dir ''/'' then dir @ name else dir @ ''/'' @ name)"

definition parquet_writer ::
  "('t, 'f) export_env \<Rightarrow> string \<Rightarrow> bool \<Rightarrow> 'f out_file \<Rightarrow> 'f files \<Rightarrow> export_error + 'f files" where
  "parquet_writer env path overwrite new_file files =
     (if \<not> ev_open env path \<or> (\<not> overwrite \<and> files path \<noteq> None) then Inl (CreateFile path)
      else Inr (files(path \<mapsto> new_file)))"

definition export_trades ::
  "('d, 't, 'f) libs \<Rightarrow> ('t, 'f) export_env \<Rightarrow> string \<Rightarrow> string \<Rightarrow> bool \<Rightarrow> 'f files
   \<Rightarrow> (export_error + unit) \<times> 'f files" where
  "export_trades L env path filt overwrite files =
     (case parquet_writer env path overwrite (TradesFile [] False) files of
        Inl e \<Rightarrow> (Inl e, files)
      | Inr files1 \<Rightarrow>
          (case ev_trades env (trades_sql filt) of
             None \<Rightarrow> (Inl ExportQuery, files1)
           | Some rows \<Rightarrow>
               (let (r, out, closed) = export_loop (trade_batch_push L) trade_batch_len
                      trade_batch_write (ev_room env path) rows trade_batch_new []
                in (r, files1(path \<mapsto> TradesFile out closed)))))"

definition export_orderbooks ::
  "('d, 't, 'f) libs \<Rightarrow> ('t, 'f) export_env \<Rightarrow> string \<Rightarrow> string \<Rightarrow> bool \<Rightarrow> 'f files
   \<Rightarrow> (export_error + unit) \<times> 'f files" where
  "export_orderbooks L env path filt overwrite files =
     (case parquet_writer env path overwrite (BooksFile [] False) files of
        Inl e \<Rightarrow> (Inl e, files)
      | Inr files1 \<Rightarrow>
          (case ev_books env (orderbooks_sql filt) of
             None \<Rightarrow> (Inl ExportQuery, files1)
           | Some rows \<Rightarrow>
               (let (r, out, closed) = export_loop (book_batch_push L) book_batch_len
                      book_batch_write (ev_room env path) rows book_batch_new []
                in (r, files1(path \<mapsto> BooksFile out closed)))))"

definition export_parquet ::
  "('d, 't, 'f) libs \<Rightarrow> ('t, 'f) export_env \<Rightarrow> string \<Rightarrow> string list \<Rightarrow> nat option \<Rightarrow> bool \<Rightarrow> bool
   \<Rightarrow> bool \<Rightarrow> 'f files \<Rightarrow> (export_error + unit) \<times> 'f files" where
  "export_parquet L env output_dir symbols hours trades orderbooks overwrite files =
     (let trades_path = path_join output_dir ''trades.parquet'';
          orderbooks_path = path_join output_dir ''orderbook_messages.parquet'';
          present = filter (\<lambda>(selected, path). selected \<and> files path \<noteq> None)
            [(trades, trades_path), (orderbooks, orderbooks_path)]
      in if \<not> trades \<and> \<not> orderbooks then (Inl NoDataset, files)
         else if \<not> overwrite \<and> present \<noteq> [] then (Inl (AlreadyExists (snd (hd present))), files)
         else let files = files ++ ev_others env in
         if \<not> ev_connect env then (Inl ExportConnect, files)
         else (case symbol_condition (ev_names env) symbols of
           Inl e \<Rightarrow> (Inl e, files)
         | Inr cond \<Rightarrow>
             if \<not> ev_mkdir env then (Inl CreateDirectory, files)
             else (case (if trades then export_trades L env trades_path
                           (where_clause cond hours ''t.time'') overwrite files
                         else (Inr (), files)) of
               (Inl e, files1) \<Rightarrow> (Inl e, files1)
             | (Inr _, files1) \<Rightarrow>
                 if orderbooks then export_orderbooks L env orderbooks_path
                   (where_clause cond hours ''o.time'') overwrite files1
                 else (Inr (), files1))))"

end
