(* ===== verification/Export_Laws.thy ===== *)
theory Export_Laws
  imports Export
begin

text \<open>
  What the export of \<^verbatim>\<open>src/export.rs\<close> promises: the loop writes every row once, in order, in full
  batches; the query names exactly the requested symbols whatever characters they contain; files are
  replaced only on request.
\<close>

section \<open>Batches of columns\<close>

text \<open>Full batches, but for the last, which is not empty.\<close>

definition well_cut :: "'w list list \<Rightarrow> bool" where
  "well_cut batches \<longleftrightarrow> (\<forall>ws \<in> set (butlast batches). length ws = BATCH_SIZE)
     \<and> (batches \<noteq> [] \<longrightarrow> 0 < length (last batches) \<and> length (last batches) \<le> BATCH_SIZE)"

definition all_full :: "'w list list \<Rightarrow> bool" where
  "all_full batches \<longleftrightarrow> (\<forall>ws \<in> set batches. length ws = BATCH_SIZE)"

lemma all_full_snoc: "all_full batches \<Longrightarrow> 0 < length ws \<Longrightarrow> length ws \<le> BATCH_SIZE \<Longrightarrow>
    well_cut (batches @ [ws])"
  by (simp add: all_full_def well_cut_def)

lemma all_full_cut: "all_full batches \<Longrightarrow> well_cut batches"
  by (auto simp: all_full_def well_cut_def BATCH_SIZE_def dest: in_set_butlastD)

text \<open>
  The contract of a batch: it holds rows in order (\<open>contents\<close>), a push adds what the row exports as
  or fails with the row's error, and writing gives a record batch of the contents and empties it.
\<close>

locale column_batch =
  fixes new :: "'b"
    and push :: "'b \<Rightarrow> 'r \<Rightarrow> export_error + 'b"
    and len :: "'b \<Rightarrow> nat"
    and put :: "'b \<Rightarrow> export_error + 'o \<times> 'b"
    and inv :: "'b \<Rightarrow> bool"
    and contents :: "'b \<Rightarrow> 'w list"
    and view :: "'r \<Rightarrow> export_error + 'w"
    and read_back :: "'o \<Rightarrow> 'w list"
  assumes inv_new: "inv new"
    and contents_new: "contents new = []"
    and len_contents: "inv b \<Longrightarrow> len b = length (contents b)"
    and push_view: "inv b \<Longrightarrow> (case push b r of
        Inl e \<Rightarrow> view r = Inl e
      | Inr b' \<Rightarrow> inv b' \<and> (\<exists>w. view r = Inr w \<and> contents b' = contents b @ [w]))"
    and write_all: "inv b \<Longrightarrow> \<exists>o1 b'. put b = Inr (o1, b') \<and> inv b' \<and> contents b' = []
        \<and> read_back o1 = contents b"
begin

lemma push_Inr:
  "inv b \<Longrightarrow> push b r = Inr b' \<Longrightarrow> inv b' \<and> (\<exists>w. view r = Inr w \<and> contents b' = contents b @ [w])"
  using push_view [of b r] by simp

lemma push_ok: "inv b \<Longrightarrow> view r = Inr w \<Longrightarrow> \<exists>b'. push b r = Inr b' \<and> inv b' \<and> contents b' = contents b @ [w]"
  using push_view [of b r] by (auto split: sum.splits)

text \<open>An export that succeeds has every row of the stream, in order; one that fails a prefix of them.\<close>

lemma loop_ok:
  assumes "export_loop push len put room rows b out = (Inr (), out', closed)"
    and "inv b" and "length (contents b) < BATCH_SIZE" and "all_full (map read_back out)"
  shows "\<exists>ws. list_all2 (\<lambda>r w. \<exists>row. r = Some row \<and> view row = Inr w) rows ws
     \<and> concat (map read_back out') = concat (map read_back out) @ contents b @ ws \<and> well_cut (map read_back out') \<and> closed"
  using assms
proof (induction rows arbitrary: b out)
  case Nil
  obtain o1 b' where w: "put b = Inr (o1, b')" "read_back o1 = contents b"
    using write_all [OF Nil.prems(2)] by blast
  show ?case
  proof (cases "len b = 0")
    case True
    with Nil.prems len_contents show ?thesis
      by (auto simp: close_file_def all_full_cut split: option.splits if_splits)
  next
    case False
    with Nil.prems len_contents w have "well_cut (map read_back (out @ [o1]))" by (simp add: all_full_snoc)
    with Nil.prems False w show ?thesis
      by (auto simp: close_file_def write_to_def split: option.splits if_splits)
  qed
next
  case (Cons r rows)
  from Cons.prems(1) obtain row b1 where r: "r = Some row" "push b row = Inr b1"
    by (cases r) (auto split: sum.splits)
  obtain v where b1: "inv b1" "view row = Inr v" "contents b1 = contents b @ [v]"
    using push_Inr [OF Cons.prems(2) r(2)] by blast
  obtain o1 b2 where w: "put b1 = Inr (o1, b2)" "inv b2" "contents b2 = []" "read_back o1 = contents b1"
    using write_all [OF b1(1)] by blast
  show ?case
  proof (cases "len b1 = BATCH_SIZE")
    case True
    with Cons.prems(1) r w have run: "export_loop push len put room rows b2 (out @ [o1]) = (Inr (), out', closed)"
      by (auto simp: write_to_def split: option.splits if_splits)
    have "all_full (map read_back (out @ [o1]))"
      using Cons.prems(4) True w len_contents [OF b1(1)] by (simp add: all_full_def)
    with Cons.IH [OF run w(2)] w(3) obtain ws where
      "list_all2 (\<lambda>r w. \<exists>row. r = Some row \<and> view row = Inr w) rows ws"
      "concat (map read_back out') = concat (map read_back (out @ [o1])) @ ws" "well_cut (map read_back out')" closed
      by (auto simp: BATCH_SIZE_def)
    with r b1 w show ?thesis by (intro exI [of _ "v # ws"]) auto
  next
    case False
    with Cons.prems(1) r have run: "export_loop push len put room rows b1 out = (Inr (), out', closed)" by simp
    have "length (contents b1) < BATCH_SIZE"
      using False b1 Cons.prems(3) len_contents [OF b1(1)] by simp
    from Cons.IH [OF run b1(1) this Cons.prems(4)] obtain ws where
      "list_all2 (\<lambda>r w. \<exists>row. r = Some row \<and> view row = Inr w) rows ws"
      "concat (map read_back out') = concat (map read_back out) @ contents b1 @ ws" "well_cut (map read_back out')" closed
      by blast
    with r b1 show ?thesis by (intro exI [of _ "v # ws"]) auto
  qed
qed

text \<open>With a healthy disk and stream the export succeeds.\<close>

lemma loop_total:
  "inv b \<Longrightarrow> \<forall>r \<in> set rows. \<exists>w. view r = Inr w \<Longrightarrow>
   fst (export_loop push len put None (map Some rows) b out) = Inr ()"
proof (induction rows arbitrary: b out)
  case Nil
  then show ?case using write_all [of b] by (auto simp: close_file_def write_to_def)
next
  case (Cons r rows)
  then obtain w b1 where b1: "push b r = Inr b1" "inv b1" using push_ok by (meson list.set_intros(1))
  obtain o1 b2 where w: "put b1 = Inr (o1, b2)" "inv b2" using write_all [OF b1(2)] by blast
  from b1 w Cons show ?case by (simp add: write_to_def)
qed

text \<open>A failed export leaves whole batches of a prefix of the rows, and no footer.\<close>

lemma loop_failed:
  assumes "export_loop push len put room rows b out = (Inl e, out', closed)"
    and "inv b" and "all_full (map read_back out)" and "length (contents b) < BATCH_SIZE"
  shows "\<not> closed \<and> well_cut (map read_back out') \<and> (\<exists>new. out' = out @ new)"
  using assms
proof (induction rows arbitrary: b out)
  case Nil
  obtain o1 b' where w: "put b = Inr (o1, b')" "read_back o1 = contents b"
    using write_all [OF Nil.prems(2)] by blast
  have "well_cut (map read_back (out @ [o1]))" if "len b \<noteq> 0"
    using that Nil.prems len_contents w by (simp add: all_full_snoc)
  with Nil.prems w all_full_cut [OF Nil.prems(3)] show ?case
    by (auto simp: close_file_def write_to_def split: option.splits if_splits)
next
  case (Cons r rows)
  show ?case
  proof (cases "r = None \<or> (\<exists>row e. r = Some row \<and> push b row = Inl e)")
    case True
    with Cons.prems all_full_cut [OF Cons.prems(3)] show ?thesis by auto
  next
    case False
    then obtain row b1 where r: "r = Some row" "push b row = Inr b1"
      by (cases r) (auto, metis old.sum.exhaust)
    obtain v where b1: "inv b1" "contents b1 = contents b @ [v]"
      using push_Inr [OF Cons.prems(2) r(2)] by blast
    obtain o1 b2 where w: "put b1 = Inr (o1, b2)" "inv b2" "contents b2 = []" "read_back o1 = contents b1"
      using write_all [OF b1(1)] by blast
    show ?thesis
    proof (cases "len b1 = BATCH_SIZE")
      case True
      have full: "all_full (map read_back (out @ [o1]))"
        using Cons.prems(3) True w len_contents [OF b1(1)] by (simp add: all_full_def)
      show ?thesis
      proof (cases "write_to room out o1")
        case (Inl e')
        with Cons.prems(1) r w True all_full_cut [OF Cons.prems(3)] show ?thesis by simp
      next
        case (Inr out1)
        then have "out1 = out @ [o1]" by (auto simp: write_to_def split: option.splits if_splits)
        with Inr Cons.prems(1) r w True
        have run: "export_loop push len put room rows b2 (out @ [o1]) = (Inl e, out', closed)" by simp
        have "length (contents b2) < BATCH_SIZE" using w(3) by (simp add: BATCH_SIZE_def)
        from Cons.IH [OF run w(2) full this] show ?thesis by auto
      qed
    next
      case False
      with Cons.prems(1) r have run: "export_loop push len put room rows b1 out = (Inl e, out', closed)" by simp
      have "length (contents b1) < BATCH_SIZE"
        using False b1 Cons.prems(4) len_contents [OF b1(1)] by simp
      from Cons.IH [OF run b1(1) Cons.prems(3) this] show ?thesis .
    qed
  qed
qed

end

text \<open>The rows of a batch of trades, and what a trade exports as.\<close>

type_synonym 'f trade_line = "int \<times> string \<times> int \<times> 'f \<times> 'f \<times> bool \<times> string"

definition trade_line :: "('d, 't, 'f) libs \<Rightarrow> ('t, 'f) trade_view \<Rightarrow> 'f trade_line" where
  "trade_line L r = (to_micros L (tv_time r), tv_symbol r, tv_id r, tv_price r, tv_size r,
     tv_maker r, tv_kind r)"

definition trade_lines :: "'f trade_batch \<Rightarrow> 'f trade_line list" where
  "trade_lines b = zip (tb_times b) (zip (tb_symbols b) (zip (tb_ids b) (zip (tb_prices b)
     (zip (tb_sizes b) (zip (tb_makers b) (tb_kinds b))))))"

definition trade_batch_inv :: "'f trade_batch \<Rightarrow> bool" where
  "trade_batch_inv b \<longleftrightarrow> (let n = length (tb_times b) in length (tb_symbols b) = n
     \<and> length (tb_ids b) = n \<and> length (tb_prices b) = n \<and> length (tb_sizes b) = n
     \<and> length (tb_makers b) = n \<and> length (tb_kinds b) = n)"

interpretation trade_cols: column_batch trade_batch_new "trade_batch_push L" trade_batch_len
    trade_batch_write trade_batch_inv trade_lines "\<lambda>r. Inr (trade_line L r)" trade_lines
  for L :: "('d, 't, 'f) libs"
  by unfold_locales
    (auto simp: trade_batch_inv_def trade_batch_new_def trade_batch_len_def trade_batch_push_def
      trade_batch_write_def trade_lines_def trade_line_def Let_def)

type_synonym book_line = "int \<times> string \<times> string \<times> int option \<times> string \<times> string"

definition book_line :: "('d, 't, 'f) libs \<Rightarrow> 't book_view \<Rightarrow> export_error + book_line" where
  "book_line L r =
     and_then (ok_or JsonText (json_to_text L (bv_bids r))) (\<lambda>bids_text.
     and_then (ok_or JsonText (json_to_text L (bv_asks r))) (\<lambda>asks_text.
       Inr (to_micros L (bv_time r), bv_symbol r, bv_type r, bv_sequence r, bids_text, asks_text)))"

definition book_lines :: "book_batch \<Rightarrow> book_line list" where
  "book_lines b = zip (bb_times b) (zip (bb_symbols b) (zip (bb_types b) (zip (bb_sequences b)
     (zip (bb_bids b) (bb_asks b)))))"

definition book_batch_inv :: "book_batch \<Rightarrow> bool" where
  "book_batch_inv b \<longleftrightarrow> (let n = length (bb_times b) in length (bb_symbols b) = n
     \<and> length (bb_types b) = n \<and> length (bb_sequences b) = n \<and> length (bb_bids b) = n
     \<and> length (bb_asks b) = n)"

lemma book_push_line:
  assumes "book_batch_inv b"
  shows "case book_batch_push L b r of
      Inl e \<Rightarrow> book_line L r = Inl e
    | Inr b' \<Rightarrow> book_batch_inv b' \<and> (\<exists>w. book_line L r = Inr w \<and> book_lines b' = book_lines b @ [w])"
proof (cases "json_to_text L (bv_bids r)")
  case None
  then show ?thesis by (simp add: book_batch_push_def book_line_def)
next
  case (Some t)
  with assms show ?thesis
    by (cases "json_to_text L (bv_asks r)")
      (auto simp: book_batch_push_def book_line_def book_batch_inv_def book_lines_def Let_def)
qed

interpretation book_cols: column_batch book_batch_new "book_batch_push L" book_batch_len
    book_batch_write book_batch_inv book_lines "book_line L" book_lines
  for L :: "('d, 't, 'f) libs"
proof unfold_locales
  show "book_batch_inv b \<Longrightarrow> case book_batch_push L b r of
      Inl e \<Rightarrow> book_line L r = Inl e
    | Inr b' \<Rightarrow> book_batch_inv b' \<and> (\<exists>w. book_line L r = Inr w \<and> book_lines b' = book_lines b @ [w])" for b r
    by (rule book_push_line)
qed (auto simp: book_batch_inv_def book_batch_new_def book_batch_len_def
      book_batch_write_def book_lines_def Let_def)

end
