(* ===== verification/Export_Query.thy ===== *)
theory Export_Query
  imports Export_Laws
begin

text \<open>
  The text of an export's query, read back the way SQL reads string literals, and what an export
  does to the files that are there.
\<close>

section \<open>Literals\<close>

text \<open>
  The rest of a literal after its opening quote: a doubled quote is a quote character, a single one
  ends the literal. The result is the value and the text after the literal.
\<close>

fun literal_rest :: "string \<Rightarrow> (string \<times> string) option" where
  "literal_rest [] = None"
| "literal_rest (c # cs) =
     (if c \<noteq> quote_char then map_option (\<lambda>(v, rest). (c # v, rest)) (literal_rest cs)
      else (case cs of
        d # ds \<Rightarrow> if d = quote_char then map_option (\<lambda>(v, rest). (quote_char # v, rest)) (literal_rest ds)
                  else Some ([], cs)
      | [] \<Rightarrow> Some ([], [])))"

definition literal :: "string \<Rightarrow> (string \<times> string) option" where
  "literal s = (case s of c # cs \<Rightarrow> if c = quote_char then literal_rest cs else None | [] \<Rightarrow> None)"

text \<open>The values of a list of literals up to its closing parenthesis, and the text after it.\<close>

fun in_list :: "nat \<Rightarrow> string \<Rightarrow> (string list \<times> string) option" where
  "in_list 0 s = None"
| "in_list (Suc n) s =
     (case literal s of
        None \<Rightarrow> None
      | Some (v, rest) \<Rightarrow>
          (if take 1 rest = '')'' then Some ([v], drop 1 rest)
           else if take 2 rest = '', '' then
             map_option (\<lambda>(vs, end). (v # vs, end)) (in_list n (drop 2 rest))
           else None))"

lemma literal_rest_quoted:
  "hd (rest @ '' '') \<noteq> quote_char \<Longrightarrow>
   literal_rest (str_replace quote_char [quote_char, quote_char] s @ quote_char # rest) = Some (s, rest)"
proof (induction s)
  case Nil
  then show ?case by (cases rest) auto
qed simp

lemma literal_quoted: "hd (rest @ '' '') \<noteq> quote_char \<Longrightarrow> literal (sql_quote s @ rest) = Some (s, rest)"
  by (simp add: literal_def sql_quote_def literal_rest_quoted)

lemma in_list_quoted:
  "names \<noteq> [] \<Longrightarrow>
   in_list (length names) (str_join '', '' (map sql_quote names) @ '')'' @ rest) = Some (names, rest)"
proof (induction names)
  case (Cons s names)
  show ?case
  proof (cases names)
    case Nil
    then show ?thesis using literal_quoted [of "'')'' @ rest" s] by (simp add: quote_char_def)
  next
    case (Cons t ts)
    define more where "more = str_join '', '' (map sql_quote names) @ '')'' @ rest"
    have "str_join '', '' (map sql_quote (s # names)) @ '')'' @ rest = sql_quote s @ '', '' @ more"
      by (simp add: Cons more_def)
    moreover have "literal (sql_quote s @ '', '' @ more) = Some (s, '', '' @ more)"
      by (rule literal_quoted) (simp add: quote_char_def)
    moreover have "in_list (length names) more = Some (names, rest)"
      using Cons.IH Cons by (simp add: more_def)
    ultimately show ?thesis by simp
  qed
qed simp

text \<open>The condition on symbols names the requested symbols, each of which the database knows.\<close>

lemma symbol_condition_names_symbols:
  assumes "symbol_condition names symbols = Inr cond" and "symbols \<noteq> []"
  shows "take 11 cond = ''s.name IN ('' \<and> in_list (length symbols) (drop 11 cond) = Some (symbols, '''')
     \<and> (\<exists>known. names symbols = Some known \<and> set symbols \<subseteq> set known)"
proof -
  obtain known where k: "names symbols = Some known" "filter (\<lambda>s. s \<notin> set known) symbols = []"
    and c: "cond = ''s.name IN ('' @ str_join '', '' (map sql_quote symbols) @ '')''"
    using assms by (auto simp: symbol_condition_def Let_def split: if_splits)
  from k(2) have "set symbols \<subseteq> set known" by (auto simp: filter_empty_conv)
  with k(1) c in_list_quoted [OF assms(2), of "''''"] show ?thesis by simp
qed

section \<open>Files\<close>

lemma parquet_writer_keeps:
  "parquet_writer env path overwrite new_file files = Inr files' \<Longrightarrow>
   \<not> overwrite \<Longrightarrow> files p = Some f \<Longrightarrow> files' p = Some f \<and> p \<noteq> path"
  by (auto simp: parquet_writer_def split: if_splits)

lemma export_trades_keeps:
  "export_trades L env path filt False files = (r, files') \<Longrightarrow> files p = Some f \<Longrightarrow> files' p = Some f"
  by (auto simp: export_trades_def split: sum.splits option.splits prod.splits
      dest: parquet_writer_keeps)

lemma export_orderbooks_keeps:
  "export_orderbooks L env path filt False files = (r, files') \<Longrightarrow> files p = Some f \<Longrightarrow> files' p = Some f"
  by (auto simp: export_orderbooks_def split: sum.splits option.splits prod.splits
      dest: parquet_writer_keeps)

text \<open>An export touches no file but its own.\<close>

lemma export_trades_other:
  "export_trades L env path filt overwrite files = (r, files') \<Longrightarrow> p \<noteq> path \<Longrightarrow> files' p = files p"
  by (auto simp: export_trades_def parquet_writer_def split: sum.splits option.splits prod.splits if_splits)

lemma export_orderbooks_other:
  "export_orderbooks L env path filt overwrite files = (r, files') \<Longrightarrow> p \<noteq> path \<Longrightarrow> files' p = files p"
  by (auto simp: export_orderbooks_def parquet_writer_def split: sum.splits option.splits prod.splits if_splits)

lemma export_trades_done:
  assumes "export_trades L env path filt overwrite files = (Inr (), files')"
  shows "\<exists>rows out. ev_trades env (trades_sql filt) = Some rows \<and> files' path = Some (TradesFile out True)
     \<and> None \<notin> set rows \<and> concat (map trade_lines out) = map (trade_line L \<circ> the) rows
     \<and> well_cut (map trade_lines out)"
proof -
  obtain rows out closed where r: "ev_trades env (trades_sql filt) = Some rows"
    and run: "export_loop (trade_batch_push L) trade_batch_len trade_batch_write (ev_room env path)
        rows trade_batch_new [] = (Inr (), out, closed)"
    and f: "files' path = Some (TradesFile out closed)"
    using assms by (auto simp: export_trades_def split: sum.splits option.splits prod.splits)
  have "length (trade_lines trade_batch_new) < BATCH_SIZE"
    by (simp add: trade_cols.contents_new BATCH_SIZE_def)
  from trade_cols.loop_ok [OF run trade_cols.inv_new this] obtain ws where
    ws: "list_all2 (\<lambda>r w. \<exists>row. r = Some row \<and> Inr (trade_line L row) = (Inr w :: export_error + _)) rows ws"
    and rest: "concat (map trade_lines out) = ws" "well_cut (map trade_lines out)" closed
    by (auto simp: all_full_def trade_cols.contents_new)
  from ws have "None \<notin> set rows \<and> ws = map (trade_line L \<circ> the) rows"
    by (induction rule: list_all2_induct) auto
  with r f rest show ?thesis by auto
qed

lemma export_orderbooks_done:
  assumes "export_orderbooks L env path filt overwrite files = (Inr (), files')"
  shows "\<exists>rows out. ev_books env (orderbooks_sql filt) = Some rows \<and> files' path = Some (BooksFile out True)
     \<and> None \<notin> set rows \<and> map Inr (concat (map book_lines out)) = map (book_line L \<circ> the) rows
     \<and> well_cut (map book_lines out)"
proof -
  obtain rows out closed where r: "ev_books env (orderbooks_sql filt) = Some rows"
    and run: "export_loop (book_batch_push L) book_batch_len book_batch_write (ev_room env path)
        rows book_batch_new [] = (Inr (), out, closed)"
    and f: "files' path = Some (BooksFile out closed)"
    using assms by (auto simp: export_orderbooks_def split: sum.splits option.splits prod.splits)
  have "length (book_lines book_batch_new) < BATCH_SIZE"
    by (simp add: book_cols.contents_new BATCH_SIZE_def)
  from book_cols.loop_ok [OF run book_cols.inv_new this] obtain ws where
    ws: "list_all2 (\<lambda>r w. \<exists>row. r = Some row \<and> book_line L row = Inr w) rows ws"
    and rest: "concat (map book_lines out) = ws" "well_cut (map book_lines out)" closed
    by (auto simp: all_full_def book_cols.contents_new)
  from ws have "None \<notin> set rows \<and> map Inr ws = map (book_line L \<circ> the) rows"
    by (induction rule: list_all2_induct) auto
  with r f rest show ?thesis by auto
qed

text \<open>The two files have different names.\<close>

lemma export_paths_differ [simp]: "path_join dir ''trades.parquet'' \<noteq> path_join dir ''orderbook_messages.parquet''"
  by (simp add: path_join_def)

section \<open>Complete files\<close>

lemma trades_file_complete:
  assumes "export_trades L env path filt overwrite files = (Inr (), files')"
  shows "\<exists>rows out. ev_trades env (trades_sql filt) = Some (map Some rows)
     \<and> files' path = Some (TradesFile out True)
     \<and> concat (map trade_lines out) = map (trade_line L) rows \<and> well_cut (map trade_lines out)"
proof -
  obtain rows out where r: "ev_trades env (trades_sql filt) = Some rows" "None \<notin> set rows"
    and o: "files' path = Some (TradesFile out True)" "concat (map trade_lines out) = map (trade_line L \<circ> the) rows"
      "well_cut (map trade_lines out)"
    using export_trades_done [OF assms] by blast
  have "map Some (map the rows) = rows" using r(2) by (induction rows) auto
  with r o show ?thesis by (intro exI [of _ "map the rows"] exI [of _ out]) simp
qed

lemma books_file_complete:
  assumes "export_orderbooks L env path filt overwrite files = (Inr (), files')"
  shows "\<exists>rows out. ev_books env (orderbooks_sql filt) = Some (map Some rows)
     \<and> files' path = Some (BooksFile out True)
     \<and> map Inr (concat (map book_lines out)) = map (book_line L) rows \<and> well_cut (map book_lines out)"
proof -
  obtain rows out where r: "ev_books env (orderbooks_sql filt) = Some rows" "None \<notin> set rows"
    and o: "files' path = Some (BooksFile out True)"
      "map Inr (concat (map book_lines out)) = map (book_line L \<circ> the) rows" "well_cut (map book_lines out)"
    using export_orderbooks_done [OF assms] by blast
  have "map Some (map the rows) = rows" using r(2) by (induction rows) auto
  with r o show ?thesis by (intro exI [of _ "map the rows"] exI [of _ out]) simp
qed

text \<open>An export that succeeds leaves a complete file for each selected dataset.\<close>

lemma exported_files_are_complete:
  assumes "export_parquet L env dir symbols hours trades orderbooks overwrite files = (Inr (), files')"
  shows "\<exists>cond. symbol_condition (ev_names env) symbols = Inr cond
     \<and> (trades \<longrightarrow> (\<exists>rows out. ev_trades env (trades_sql (where_clause cond hours ''t.time'')) = Some (map Some rows)
          \<and> files' (path_join dir ''trades.parquet'') = Some (TradesFile out True)
          \<and> concat (map trade_lines out) = map (trade_line L) rows \<and> well_cut (map trade_lines out)))
     \<and> (orderbooks \<longrightarrow> (\<exists>rows out. ev_books env (orderbooks_sql (where_clause cond hours ''o.time'')) = Some (map Some rows)
          \<and> files' (path_join dir ''orderbook_messages.parquet'') = Some (BooksFile out True)
          \<and> map Inr (concat (map book_lines out)) = map (book_line L) rows \<and> well_cut (map book_lines out)))"
proof -
  let ?t = "path_join dir ''trades.parquet''" let ?o = "path_join dir ''orderbook_messages.parquet''"
  let ?files = "files ++ ev_others env"
  obtain cond files1 where c: "symbol_condition (ev_names env) symbols = Inr cond"
    and t: "(if trades then export_trades L env ?t (where_clause cond hours ''t.time'') overwrite ?files
        else (Inr (), ?files)) = (Inr (), files1)"
    and o: "(if orderbooks then export_orderbooks L env ?o (where_clause cond hours ''o.time'') overwrite files1
        else (Inr (), files1)) = (Inr (), files')"
    using assms by (auto simp: export_parquet_def Let_def split: if_splits sum.splits prod.splits)
  have same: "files' ?t = files1 ?t"
    using o export_orderbooks_other [of L env ?o _ overwrite files1 "Inr ()" files' ?t] by (auto split: if_splits)
  have "trades \<longrightarrow> (\<exists>rows out. ev_trades env (trades_sql (where_clause cond hours ''t.time'')) = Some (map Some rows)
          \<and> files' ?t = Some (TradesFile out True)
          \<and> concat (map trade_lines out) = map (trade_line L) rows \<and> well_cut (map trade_lines out))"
    unfolding same using t trades_file_complete [of L env ?t _ overwrite ?files files1] by auto
  moreover have "orderbooks \<longrightarrow> (\<exists>rows out. ev_books env (orderbooks_sql (where_clause cond hours ''o.time'')) = Some (map Some rows)
          \<and> files' ?o = Some (BooksFile out True)
          \<and> map Inr (concat (map book_lines out)) = map (book_line L) rows \<and> well_cut (map book_lines out))"
    using o books_file_complete [of L env ?o _ overwrite files1 files'] by auto
  ultimately show ?thesis using c by blast
qed

end
