(* ===== verification/Models.thy ===== *)
theory Models
  imports Json
begin

text \<open>
  \<^verbatim>\<open>src/models.rs\<close>: the rows the ingestor writes and reads, and \<^verbatim>\<open>WriteMsg\<close> of \<^verbatim>\<open>src/ws.rs\<close>, what
  the WebSocket connection hands to the writer task. The type \<open>'t\<close> is an instant, \<open>'f\<close> an \<^verbatim>\<open>f64\<close>,
  \<open>'d\<close> an exact decimal.
\<close>

record symbol_row =
  sym_id :: int
  sym_name :: string
  sym_market_id :: int
  sym_market_type :: string

record new_symbol =
  new_name :: string
  new_market_type :: string
  new_market_id :: int

record ('t, 'f) trade_row =
  tw_time :: 't
  tw_symbol :: int
  tw_trade_id :: int
  tw_price :: 'f
  tw_size :: 'f
  tw_is_maker_ask :: bool
  tw_type :: string

record ('t, 'd) funding_row =
  fw_time :: 't
  fw_symbol :: int
  fw_rate :: 'd
  fw_direction :: string

record 't ob_row =
  obr_time :: 't
  obr_symbol :: int
  obr_type :: string
  obr_sequence :: "int option"
  obr_bids :: json
  obr_asks :: json
  obr_begin_nonce :: "int option"

datatype ('t, 'f) write_msg =
    WTrade "('t, 'f) trade_row"
  | WOrderbook "'t ob_row"

text \<open>The rows of one kind in a list of messages, as \<^verbatim>\<open>flush\<close> sorts a batch.\<close>

fun trade_of :: "('t, 'f) write_msg \<Rightarrow> ('t, 'f) trade_row option" where
  "trade_of (WTrade r) = Some r"
| "trade_of (WOrderbook r) = None"

fun orderbook_of :: "('t, 'f) write_msg \<Rightarrow> 't ob_row option" where
  "orderbook_of (WTrade r) = None"
| "orderbook_of (WOrderbook r) = Some r"

definition trades_of :: "('t, 'f) write_msg list \<Rightarrow> ('t, 'f) trade_row list" where
  "trades_of ms = List.map_filter trade_of ms"

definition orderbooks_of :: "('t, 'f) write_msg list \<Rightarrow> 't ob_row list" where
  "orderbooks_of ms = List.map_filter orderbook_of ms"

lemma trades_of_simps [simp]:
  "trades_of [] = []"
  "trades_of (WTrade r # ms) = r # trades_of ms"
  "trades_of (WOrderbook b # ms) = trades_of ms"
  "trades_of (ms @ ns) = trades_of ms @ trades_of ns"
  by (simp_all add: trades_of_def List.map_filter_simps, simp add: map_filter_def)

lemma orderbooks_of_simps [simp]:
  "orderbooks_of [] = []"
  "orderbooks_of (WTrade r # ms) = orderbooks_of ms"
  "orderbooks_of (WOrderbook b # ms) = b # orderbooks_of ms"
  "orderbooks_of (ms @ ns) = orderbooks_of ms @ orderbooks_of ns"
  by (simp_all add: orderbooks_of_def List.map_filter_simps, simp add: map_filter_def)

end
