(* ===== verification/Store.thy ===== *)
theory Store
  imports Models
begin

text \<open>
  The database operations of \<^verbatim>\<open>src/lib.rs\<close> on the tables that \<^verbatim>\<open>migrations/\<close> declare (\<^verbatim>\<open>src/schema.rs\<close>
  lists the columns). A table is the list of its rows in insertion order, which is the order of
  the serial \<^verbatim>\<open>id\<close> that \<open>trades\<close> and \<open>orderbook_messages\<close> carry; \<open>symbols\<close> keeps its id, since other
  tables refer to it. A statement checks the constraints of the table and changes nothing when one
  is violated. Failures of the connection are not part of these functions: their callers have them.
\<close>

section \<open>State and constraints\<close>

datatype db_error =
    CheckViolation
  | ForeignKeyViolation
  | UniqueViolation
  | SequenceLimit

record ('t, 'f, 'd) db =
  db_symbols :: "symbol_row list"
  db_next_symbol :: int
  db_trades :: "('t, 'f) trade_row list"
  db_orderbooks :: "'t ob_row list"
  db_fundings :: "('t, 'd) funding_row list"

definition symbol_ids :: "('t, 'f, 'd) db \<Rightarrow> int set" where
  "symbol_ids db = sym_id ` set (db_symbols db)"

text \<open>\<^verbatim>\<open>trades_dedup_uniq\<close> and the primary key of \<open>funding_rates\<close>.\<close>

definition trade_key :: "('t, 'f) trade_row \<Rightarrow> 't \<times> int \<times> int" where
  "trade_key r = (tw_time r, tw_symbol r, tw_trade_id r)"

definition funding_key :: "('t, 'd) funding_row \<Rightarrow> int \<times> 't" where
  "funding_key r = (fw_symbol r, fw_time r)"

definition trade_types :: "string list" where
  "trade_types = [''trade'', ''liquidation'', ''deleverage'', ''market-settlement'']"

text \<open>\<^verbatim>\<open>ON CONFLICT DO NOTHING\<close>: row by row, a row whose key is taken is skipped.\<close>

fun insert_skip :: "('r \<Rightarrow> 'k) \<Rightarrow> 'r list \<Rightarrow> 'r list \<Rightarrow> 'r list" where
  "insert_skip key [] table = table"
| "insert_skip key (r # rs) table =
     insert_skip key rs (if key r \<in> key ` set table then table else table @ [r])"

section \<open>Operations\<close>

definition insert_trades ::
  "('t, 'f) trade_row list \<Rightarrow> ('t, 'f, 'd) db \<Rightarrow> db_error + nat \<times> ('t, 'f, 'd) db" where
  "insert_trades rows db =
     (if \<exists>r \<in> set rows. tw_type r \<notin> set trade_types then Inl CheckViolation
      else if \<exists>r \<in> set rows. tw_symbol r \<notin> symbol_ids db then Inl ForeignKeyViolation
      else let table = insert_skip trade_key rows (db_trades db)
           in Inr (length table - length (db_trades db), db\<lparr>db_trades := table\<rparr>))"

definition insert_orderbook_messages ::
  "'t ob_row list \<Rightarrow> ('t, 'f, 'd) db \<Rightarrow> db_error + nat \<times> ('t, 'f, 'd) db" where
  "insert_orderbook_messages rows db =
     (if \<exists>r \<in> set rows. obr_type r \<notin> {''snapshot'', ''delta''} then Inl CheckViolation
      else if \<exists>r \<in> set rows. obr_symbol r \<notin> symbol_ids db then Inl ForeignKeyViolation
      else Inr (length rows, db\<lparr>db_orderbooks := db_orderbooks db @ rows\<rparr>))"

definition insert_funding_rates ::
  "('t, 'd) funding_row list \<Rightarrow> ('t, 'f, 'd) db \<Rightarrow> db_error + nat \<times> ('t, 'f, 'd) db" where
  "insert_funding_rates rows db =
     (if \<exists>r \<in> set rows. fw_symbol r \<notin> symbol_ids db then Inl ForeignKeyViolation
      else let table = insert_skip funding_key rows (db_fundings db)
           in Inr (length table - length (db_fundings db), db\<lparr>db_fundings := table\<rparr>))"

definition funding_times :: "int \<Rightarrow> ('t, 'f, 'd) db \<Rightarrow> 't list" where
  "funding_times symbol_id db = map fw_time (filter (\<lambda>r. fw_symbol r = symbol_id) (db_fundings db))"

text \<open>\<^verbatim>\<open>SELECT max(time)\<close>: nothing when the symbol has no row.\<close>

definition newest_funding_time :: "int \<Rightarrow> ('t::linorder, 'f, 'd) db \<Rightarrow> 't option" where
  "newest_funding_time symbol_id db =
     (case funding_times symbol_id db of [] \<Rightarrow> None | t # ts \<Rightarrow> Some (fold max ts t))"

text \<open>\<^verbatim>\<open>INSERT .. ON CONFLICT (lighter_market_id) DO UPDATE .. RETURNING id\<close>. A conflict on the other
  unique index, on market type and name, is an error. Each upsert draws an id from the sequence of a
  \<^verbatim>\<open>SERIAL\<close> column, which ends at the largest \<^verbatim>\<open>INTEGER\<close>.\<close>

definition rename_symbol :: "int \<Rightarrow> string \<Rightarrow> string \<Rightarrow> symbol_row \<Rightarrow> symbol_row" where
  "rename_symbol market_id symbol_name market_type r =
     (if sym_market_id r = market_id
      then r\<lparr>sym_name := symbol_name, sym_market_type := market_type\<rparr> else r)"

definition upsert_symbol ::
  "string \<Rightarrow> string \<Rightarrow> int \<Rightarrow> ('t, 'f, 'd) db \<Rightarrow> db_error + int \<times> ('t, 'f, 'd) db" where
  "upsert_symbol symbol_name market_type market_id db =
     (if 2147483647 < db_next_symbol db then Inl SequenceLimit
      else if market_type \<notin> {''perp'', ''spot''} \<or> 255 < length symbol_name then Inl CheckViolation
      else if \<exists>r \<in> set (db_symbols db). sym_market_id r \<noteq> market_id
                \<and> sym_market_type r = market_type \<and> sym_name r = symbol_name
           then Inl UniqueViolation
      else (case find (\<lambda>r. sym_market_id r = market_id) (db_symbols db) of
              Some old \<Rightarrow>
                Inr (sym_id old,
                  db\<lparr>db_symbols := map (rename_symbol market_id symbol_name market_type) (db_symbols db),
                     db_next_symbol := db_next_symbol db + 1\<rparr>)
            | None \<Rightarrow>
                Inr (db_next_symbol db,
                  db\<lparr>db_symbols := db_symbols db @
                        [\<lparr>sym_id = db_next_symbol db, sym_name = symbol_name,
                          sym_market_id = market_id, sym_market_type = market_type\<rparr>],
                     db_next_symbol := db_next_symbol db + 1\<rparr>)))"

record perp_market =
  pm_symbol_id :: int
  pm_name :: string
  pm_market_id :: int

definition load_perp_markets :: "('t, 'f, 'd) db \<Rightarrow> perp_market list" where
  "load_perp_markets db =
     map (\<lambda>r. \<lparr>pm_symbol_id = sym_id r, pm_name = sym_name r, pm_market_id = sym_market_id r\<rparr>)
       (sort_key sym_market_id (filter (\<lambda>r. sym_market_type r = ''perp'') (db_symbols db)))"

definition load_symbol_cache :: "('t, 'f, 'd) db \<Rightarrow> (int \<rightharpoonup> int)" where
  "load_symbol_cache db = map_of (rev (map (\<lambda>r. (sym_market_id r, sym_id r)) (db_symbols db)))"

section \<open>Tables that skip duplicates\<close>

text \<open>
  What the writer and the funding poller rely on: an insert appends new rows of distinct, free keys
  and leaves every key of its argument taken.
\<close>

locale dedup_insert =
  fixes ins :: "'r list \<Rightarrow> 'db \<Rightarrow> 'e + nat \<times> 'db"
    and rows :: "'db \<Rightarrow> 'r list"
    and key :: "'r \<Rightarrow> 'k"
  assumes appends: "ins rs db = Inr (n, db') \<Longrightarrow>
      \<exists>new. rows db' = rows db @ new \<and> length new = n \<and> set new \<subseteq> set rs
          \<and> distinct (map key new) \<and> key ` set new \<inter> key ` set (rows db) = {}"
    and takes: "ins rs db = Inr (n, db') \<Longrightarrow> key ` set rs \<subseteq> key ` set (rows db')"
begin

lemma keys_after:
  assumes "ins rs db = Inr (n, db')"
  shows "key ` set (rows db') = key ` set (rows db) \<union> key ` set rs"
proof -
  obtain new where "rows db' = rows db @ new" "set new \<subseteq> set rs"
    using appends [OF assms] by blast
  with takes [OF assms] show ?thesis by auto
qed

lemma distinct_keys:
  "ins rs db = Inr (n, db') \<Longrightarrow> distinct (map key (rows db)) \<Longrightarrow> distinct (map key (rows db'))"
  using appends by fastforce

text \<open>Rows whose keys are all taken change nothing: a replayed history is skipped.\<close>

lemma replayed:
  assumes "ins rs db = Inr (n, db')" and "key ` set rs \<subseteq> key ` set (rows db)"
  shows "n = 0 \<and> rows db' = rows db"
proof -
  obtain new where new: "rows db' = rows db @ new" "length new = n" "set new \<subseteq> set rs"
    "key ` set new \<inter> key ` set (rows db) = {}"
    using appends [OF assms(1)] by blast
  from new(3) have "key ` set new \<subseteq> key ` set rs" by (rule image_mono)
  also note assms(2)
  finally have "key ` set new \<subseteq> key ` set (rows db)" .
  then have "key ` set new = {}" using new(4) by (simp add: inf_absorb1)
  with new(1,2) show ?thesis by simp
qed

lemma insert_twice:
  assumes "ins rs db = Inr (n, db1)" and "ins rs db1 = Inr (m, db2)"
  shows "m = 0 \<and> rows db2 = rows db1"
  using assms(2) takes [OF assms(1)] by (rule replayed)

end

lemma insert_skip_spec:
  "\<exists>new. insert_skip key rs table = table @ new \<and> set new \<subseteq> set rs \<and> distinct (map key new)
     \<and> key ` set new \<inter> key ` set table = {} \<and> key ` set rs \<subseteq> key ` set (table @ new)"
proof (induction rs arbitrary: table)
  case (Cons r rs)
  show ?case
  proof (cases "key r \<in> key ` set table")
    case True
    with Cons.IH [of table] show ?thesis by fastforce
  next
    case False
    obtain new where new: "insert_skip key rs (table @ [r]) = (table @ [r]) @ new" "set new \<subseteq> set rs"
      "distinct (map key new)" "key ` set new \<inter> key ` set (table @ [r]) = {}"
      "key ` set rs \<subseteq> key ` set ((table @ [r]) @ new)"
      using Cons.IH [of "table @ [r]"] by blast
    with False show ?thesis by (intro exI [of _ "r # new"]) auto
  qed
qed simp

interpretation trades_tbl: dedup_insert insert_trades db_trades trade_key
proof unfold_locales
  fix rs :: "('t, 'f) trade_row list" and db db' :: "('t, 'f, 'd) db" and n
  assume ok: "insert_trades rs db = Inr (n, db')"
  then have t: "db_trades db' = insert_skip trade_key rs (db_trades db)"
    "n = length (db_trades db') - length (db_trades db)"
    by (auto simp: insert_trades_def Let_def split: if_splits)
  then show "\<exists>new. db_trades db' = db_trades db @ new \<and> length new = n \<and> set new \<subseteq> set rs
      \<and> distinct (map trade_key new) \<and> trade_key ` set new \<inter> trade_key ` set (db_trades db) = {}"
    and "trade_key ` set rs \<subseteq> trade_key ` set (db_trades db')"
    using insert_skip_spec [of trade_key rs "db_trades db"] by auto
qed

interpretation fundings_tbl: dedup_insert insert_funding_rates db_fundings funding_key
proof unfold_locales
  fix rs :: "('t, 'd) funding_row list" and db db' :: "('t, 'f, 'd) db" and n
  assume ok: "insert_funding_rates rs db = Inr (n, db')"
  then have t: "db_fundings db' = insert_skip funding_key rs (db_fundings db)"
    "n = length (db_fundings db') - length (db_fundings db)"
    by (auto simp: insert_funding_rates_def Let_def split: if_splits)
  then show "\<exists>new. db_fundings db' = db_fundings db @ new \<and> length new = n \<and> set new \<subseteq> set rs
      \<and> distinct (map funding_key new) \<and> funding_key ` set new \<inter> funding_key ` set (db_fundings db) = {}"
    and "funding_key ` set rs \<subseteq> funding_key ` set (db_fundings db')"
    using insert_skip_spec [of funding_key rs "db_fundings db"] by auto
qed

section \<open>Invariant of the database\<close>

definition symbols_inv :: "('t, 'f, 'd) db \<Rightarrow> bool" where
  "symbols_inv db \<longleftrightarrow>
     distinct (map sym_id (db_symbols db))
   \<and> distinct (map sym_market_id (db_symbols db))
   \<and> distinct (map (\<lambda>r. (sym_market_type r, sym_name r)) (db_symbols db))
   \<and> (\<forall>r \<in> set (db_symbols db). sym_id r < db_next_symbol db
        \<and> sym_market_type r \<in> {''perp'', ''spot''})"

definition db_inv :: "('t, 'f, 'd) db \<Rightarrow> bool" where
  "db_inv db \<longleftrightarrow> symbols_inv db
   \<and> distinct (map trade_key (db_trades db))
   \<and> distinct (map funding_key (db_fundings db))
   \<and> (\<forall>r \<in> set (db_trades db). tw_symbol r \<in> symbol_ids db \<and> tw_type r \<in> set trade_types)
   \<and> (\<forall>r \<in> set (db_orderbooks db). obr_symbol r \<in> symbol_ids db
        \<and> obr_type r \<in> {''snapshot'', ''delta''})
   \<and> (\<forall>r \<in> set (db_fundings db). fw_symbol r \<in> symbol_ids db)"

lemma insert_trades_rest:
  "insert_trades rs db = Inr (n, db') \<Longrightarrow> db' = db\<lparr>db_trades := db_trades db'\<rparr>"
  by (auto simp: insert_trades_def Let_def split: if_splits)

lemma insert_trades_inv:
  assumes inv: "db_inv db" and ok: "insert_trades rs db = Inr (n, db')"
  shows "db_inv db'"
proof -
  obtain new where new: "db_trades db' = db_trades db @ new" "set new \<subseteq> set rs"
    using trades_tbl.appends [OF ok] by blast
  have rs: "\<forall>r \<in> set rs. tw_symbol r \<in> symbol_ids db \<and> tw_type r \<in> set trade_types"
    using ok by (auto simp: insert_trades_def split: if_splits)
  have "db' = db\<lparr>db_trades := db_trades db @ new\<rparr>"
    using insert_trades_rest [OF ok] new by simp
  moreover have "distinct (map trade_key (db_trades db @ new))"
    using trades_tbl.distinct_keys [OF ok] inv new by (simp add: db_inv_def)
  ultimately show ?thesis
    using inv rs new(2) by (auto simp: db_inv_def symbols_inv_def symbol_ids_def)
qed

lemma insert_fundings_rest:
  "insert_funding_rates rs db = Inr (n, db') \<Longrightarrow> db' = db\<lparr>db_fundings := db_fundings db'\<rparr>"
  by (auto simp: insert_funding_rates_def Let_def split: if_splits)

lemma insert_fundings_inv:
  assumes inv: "db_inv db" and ok: "insert_funding_rates rs db = Inr (n, db')"
  shows "db_inv db'"
proof -
  obtain new where new: "db_fundings db' = db_fundings db @ new" "set new \<subseteq> set rs"
    using fundings_tbl.appends [OF ok] by blast
  have rs: "\<forall>r \<in> set rs. fw_symbol r \<in> symbol_ids db"
    using ok by (auto simp: insert_funding_rates_def split: if_splits)
  have "db' = db\<lparr>db_fundings := db_fundings db @ new\<rparr>"
    using insert_fundings_rest [OF ok] new by simp
  moreover have "distinct (map funding_key (db_fundings db @ new))"
    using fundings_tbl.distinct_keys [OF ok] inv new by (simp add: db_inv_def)
  ultimately show ?thesis
    using inv rs new(2) by (auto simp: db_inv_def symbols_inv_def symbol_ids_def)
qed

lemma insert_orderbooks_inv:
  "db_inv db \<Longrightarrow> insert_orderbook_messages rs db = Inr (n, db') \<Longrightarrow> db_inv db'"
  by (auto simp: insert_orderbook_messages_def db_inv_def symbols_inv_def symbol_ids_def split: if_splits)

section \<open>Symbols\<close>

definition symbol_of :: "('t, 'f, 'd) db \<Rightarrow> int \<Rightarrow> symbol_row option" where
  "symbol_of db market_id = find (\<lambda>r. sym_market_id r = market_id) (db_symbols db)"

lemma symbol_of_Some:
  "symbols_inv db \<Longrightarrow> symbol_of db m = Some r \<longleftrightarrow> r \<in> set (db_symbols db) \<and> sym_market_id r = m"
  by (simp add: symbol_of_def symbols_inv_def find_distinct_key)

lemma symbol_of_None: "symbol_of db m = None \<longleftrightarrow> m \<notin> sym_market_id ` set (db_symbols db)"
  by (auto simp: symbol_of_def find_None_iff)

lemma load_symbol_cache_Some:
  assumes "symbols_inv db"
  shows "load_symbol_cache db m = Some i \<longleftrightarrow>
    (\<exists>r \<in> set (db_symbols db). sym_market_id r = m \<and> sym_id r = i)"
proof -
  have "distinct (map fst (rev (map (\<lambda>r. (sym_market_id r, sym_id r)) (db_symbols db))))"
    using assms by (simp add: symbols_inv_def rev_map [symmetric] comp_def)
  then show ?thesis by (auto simp: load_symbol_cache_def)
qed

lemma load_symbol_cache_inj:
  assumes "symbols_inv db"
  shows "inj_on (load_symbol_cache db) (dom (load_symbol_cache db))"
proof (rule inj_onI)
  fix m m' assume d: "m \<in> dom (load_symbol_cache db)"
    and eq: "load_symbol_cache db m = load_symbol_cache db m'"
  from d obtain i where i: "load_symbol_cache db m = Some i" by auto
  with eq obtain r r' where "r \<in> set (db_symbols db)" "sym_market_id r = m" "sym_id r = i"
    "r' \<in> set (db_symbols db)" "sym_market_id r' = m'" "sym_id r' = i"
    using load_symbol_cache_Some [OF assms] by metis
  moreover have "inj_on sym_id (set (db_symbols db))"
    using assms by (simp add: symbols_inv_def distinct_map)
  ultimately show "m = m'" by (metis inj_onD)
qed

lemma load_symbol_cache_ran: "symbols_inv db \<Longrightarrow> ran (load_symbol_cache db) = symbol_ids db"
  by (auto simp: ran_def load_symbol_cache_Some symbol_ids_def)

lemma load_symbol_cache_dom:
  "symbols_inv db \<Longrightarrow> dom (load_symbol_cache db) = sym_market_id ` set (db_symbols db)"
  by (auto simp: dom_def load_symbol_cache_Some)

text \<open>What an upsert does to the table: the row of the market id, under its old id when it has one.\<close>

lemma rename_symbol_simps [simp]:
  "sym_id (rename_symbol m nm ty r) = sym_id r"
  "sym_market_id (rename_symbol m nm ty r) = sym_market_id r"
  "sym_market_type (rename_symbol m nm ty r) = (if sym_market_id r = m then ty else sym_market_type r)"
  "sym_name (rename_symbol m nm ty r) = (if sym_market_id r = m then nm else sym_name r)"
  by (simp_all add: rename_symbol_def)

lemma upsert_symbol_cases:
  assumes "upsert_symbol nm ty m db = Inr (i, db')"
  obtains (update) old where "symbol_of db m = Some old" and "i = sym_id old"
      and "db' = db\<lparr>db_symbols := map (rename_symbol m nm ty) (db_symbols db),
             db_next_symbol := db_next_symbol db + 1\<rparr>"
    | (insert) "symbol_of db m = None" and "i = db_next_symbol db"
      and "db' = db\<lparr>db_symbols := db_symbols db @ [\<lparr>sym_id = i, sym_name = nm,
             sym_market_id = m, sym_market_type = ty\<rparr>],
             db_next_symbol := db_next_symbol db + 1\<rparr>"
  using assms by (auto simp: upsert_symbol_def symbol_of_def split: if_splits option.splits)

lemma upsert_symbol_checks:
  assumes "upsert_symbol nm ty m db = Inr (i, db')"
  shows "ty \<in> {''perp'', ''spot''}" and "length nm \<le> 255" and "db_next_symbol db \<le> 2147483647"
    and "r \<in> set (db_symbols db) \<Longrightarrow> sym_market_id r \<noteq> m \<Longrightarrow> (sym_market_type r, sym_name r) \<noteq> (ty, nm)"
  using assms by (auto simp: upsert_symbol_def split: if_splits)

lemma distinct_renamed:
  assumes "distinct (map (\<lambda>r. (sym_market_type r, sym_name r)) rs)" and "distinct (map sym_market_id rs)"
    and "\<And>r. r \<in> set rs \<Longrightarrow> sym_market_id r \<noteq> m \<Longrightarrow> (sym_market_type r, sym_name r) \<noteq> (ty, nm)"
  shows "distinct (map (\<lambda>r. (sym_market_type r, sym_name r)) (map (rename_symbol m nm ty) rs))"
  using assms
proof (induction rs)
  case (Cons r rs)
  have "(sym_market_type (rename_symbol m nm ty r), sym_name (rename_symbol m nm ty r))
      \<noteq> (sym_market_type (rename_symbol m nm ty q), sym_name (rename_symbol m nm ty q))"
    if "q \<in> set rs" for q
  proof -
    have "sym_market_id q \<noteq> sym_market_id r" using Cons.prems(2) that by (auto simp: image_iff)
    moreover have "(sym_market_type q, sym_name q) \<noteq> (sym_market_type r, sym_name r)"
      using Cons.prems(1) that by (auto simp: image_iff)
    ultimately show ?thesis
      using Cons.prems(3) [of r] Cons.prems(3) [of q] that by auto
  qed
  with Cons show ?case by (auto simp: image_iff)
qed simp

lemma upsert_symbol_inv:
  assumes inv: "symbols_inv db" and ok: "upsert_symbol nm ty m db = Inr (i, db')"
  shows "symbols_inv db'"
  using ok
proof (cases rule: upsert_symbol_cases)
  case (update old)
  have "distinct (map (\<lambda>r. (sym_market_type r, sym_name r)) (map (rename_symbol m nm ty) (db_symbols db)))"
    using inv upsert_symbol_checks(4) [OF ok] by (intro distinct_renamed) (simp_all add: symbols_inv_def)
  moreover have "\<forall>r \<in> set (db_symbols db). sym_id r < db_next_symbol db + 1"
    using inv by (auto simp: symbols_inv_def)
  ultimately show ?thesis
    using inv upsert_symbol_checks(1) [OF ok] by (auto simp: symbols_inv_def update comp_def)
next
  case insert
  then have m: "m \<notin> sym_market_id ` set (db_symbols db)" by (simp add: symbol_of_None)
  then have "(ty, nm) \<notin> (\<lambda>r. (sym_market_type r, sym_name r)) ` set (db_symbols db)"
    using upsert_symbol_checks(4) [OF ok] by force
  moreover have "\<forall>r \<in> set (db_symbols db). sym_id r < db_next_symbol db"
    using inv by (simp add: symbols_inv_def)
  moreover from this have "db_next_symbol db \<notin> sym_id ` set (db_symbols db)" by auto
  ultimately show ?thesis
    using inv m upsert_symbol_checks(1) [OF ok] by (auto simp: symbols_inv_def insert)
qed

lemma find_rename:
  "find (\<lambda>r. sym_market_id r = k) (map (rename_symbol m nm ty) rs)
     = map_option (rename_symbol m nm ty) (find (\<lambda>r. sym_market_id r = k) rs)"
  by (induction rs) auto

lemma upsert_symbol_lookup:
  assumes inv: "symbols_inv db" and ok: "upsert_symbol nm ty m db = Inr (i, db')"
  shows "symbol_of db' k =
     (if k = m then Some \<lparr>sym_id = i, sym_name = nm, sym_market_id = m, sym_market_type = ty\<rparr>
      else symbol_of db k)"
  using ok
proof (cases rule: upsert_symbol_cases)
  case (update old)
  have old: "sym_market_id old = m"
    using update(1) symbol_of_Some [OF inv] by simp
  have "rename_symbol m nm ty r = r" if "symbol_of db k = Some r" "k \<noteq> m" for r
    using that symbol_of_Some [OF inv] by (simp add: rename_symbol_def)
  moreover have "symbol_of db' k = map_option (rename_symbol m nm ty) (symbol_of db k)"
    by (simp add: update symbol_of_def find_rename)
  ultimately show ?thesis
    using update old by (cases "symbol_of db k") (auto simp: rename_symbol_def)
next
  case insert
  have "find P (xs @ ys) = (case find P xs of None \<Rightarrow> find P ys | Some r \<Rightarrow> Some r)"
    for P and xs ys :: "symbol_row list" by (induction xs) auto
  with insert show ?thesis by (auto simp: symbol_of_def split: option.splits)
qed

lemma upsert_symbol_keeps:
  assumes "upsert_symbol nm ty m db = Inr (i, db')"
  shows "symbol_ids db \<subseteq> symbol_ids db' \<and> db_trades db' = db_trades db
    \<and> db_orderbooks db' = db_orderbooks db \<and> db_fundings db' = db_fundings db"
  using assms
  by (cases rule: upsert_symbol_cases) (auto simp: symbol_ids_def image_image)

lemma upsert_db_inv:
  assumes inv: "db_inv db" and ok: "upsert_symbol nm ty m db = Inr (i, db')"
  shows "db_inv db'"
proof -
  have "symbols_inv db'" using inv by (intro upsert_symbol_inv [OF _ ok]) (simp add: db_inv_def)
  with inv upsert_symbol_keeps [OF ok] show ?thesis by (auto simp: db_inv_def)
qed

end
