(* ===== verification/Query.thy ===== *)
theory Query
  imports Export_Query Store
begin

text \<open>
  What the two queries of \<^verbatim>\<open>src/export.rs\<close> mean. Their \<^verbatim>\<open>WHERE\<close> clause is read back from the text that the code
  builds; the rest of a statement is fixed, and its meaning is a join of two tables, a filter, and an order
  by time and then by id. A database answers a query with these rows, or with some of them and an error.
\<close>

section \<open>Reading the clause\<close>

definition strip :: "string \<Rightarrow> string \<Rightarrow> string option" where
  "strip prefix s = (if take (length prefix) s = prefix then Some (drop (length prefix) s) else None)"

text \<open>\<^verbatim>\<open><column> >= now() - interval 'N hours'\<close>, to the end of the text.\<close>

definition read_hours :: "string \<Rightarrow> string \<Rightarrow> nat option" where
  "read_hours column s =
     Option.bind (strip (column @ '' >= now() - interval '') s) (\<lambda>rest.
     Option.bind (literal rest) (\<lambda>(text, tail).
       case str_split (CHR '' '') text of
         [n, unit] \<Rightarrow> if tail = [] \<and> unit = ''hours'' then map_option nat (parse_digits 0 n) else None
       | _ \<Rightarrow> None))"

type_synonym selection = "string list option \<times> nat option"

definition read_where :: "string \<Rightarrow> string \<Rightarrow> selection option" where
  "read_where column filt =
     (if filt = [] then Some (None, None)
      else Option.bind (strip '' WHERE '' filt) (\<lambda>cond.
        case strip ''s.name IN ('' cond of
          None \<Rightarrow> map_option (\<lambda>h. (None, Some h)) (read_hours column cond)
        | Some rest \<Rightarrow>
            Option.bind (in_list (length rest) rest) (\<lambda>(names, tail).
              if tail = [] then Some (Some names, None)
              else Option.bind (strip '' AND '' tail) (\<lambda>more.
                map_option (\<lambda>h. (Some names, Some h)) (read_hours column more)))))"

section \<open>Selecting rows\<close>

text \<open>\<open>ago h\<close> is the instant \<^verbatim>\<open>now() - interval 'h hours'\<close> of the statement.\<close>

definition names_match :: "string list option \<Rightarrow> string \<Rightarrow> bool" where
  "names_match names name = (case names of None \<Rightarrow> True | Some ns \<Rightarrow> name \<in> set ns)"

definition recent :: "(nat \<Rightarrow> 't::linorder) \<Rightarrow> nat option \<Rightarrow> 't \<Rightarrow> bool" where
  "recent ago hours t = (case hours of None \<Rightarrow> True | Some h \<Rightarrow> ago h \<le> t)"

definition view_of_trade :: "('t, 'f) trade_row \<Rightarrow> string \<Rightarrow> ('t, 'f) trade_view" where
  "view_of_trade t name = \<lparr>tv_time = tw_time t, tv_symbol = name, tv_id = tw_trade_id t, tv_price = tw_price t,
     tv_size = tw_size t, tv_maker = tw_is_maker_ask t, tv_kind = tw_type t\<rparr>"

definition view_of_book :: "'t ob_row \<Rightarrow> string \<Rightarrow> 't book_view" where
  "view_of_book r name = \<lparr>bv_time = obr_time r, bv_symbol = name, bv_type = obr_type r, bv_sequence = obr_sequence r,
     bv_bids = obr_bids r, bv_asks = obr_asks r\<rparr>"

text \<open>Tables are lists in the order of the generated id, and \<open>sort_key\<close> is stable.\<close>

definition select_trades ::
  "(nat \<Rightarrow> 't::linorder) \<Rightarrow> selection \<Rightarrow> ('t, 'f, 'd) db \<Rightarrow> ('t, 'f) trade_view list" where
  "select_trades ago sel db = sort_key tv_time
     [view_of_trade t (sym_name s). t \<leftarrow> db_trades db, s \<leftarrow> db_symbols db, sym_id s = tw_symbol t,
        names_match (fst sel) (sym_name s) \<and> recent ago (snd sel) (tw_time t)]"

definition select_orderbooks ::
  "(nat \<Rightarrow> 't::linorder) \<Rightarrow> selection \<Rightarrow> ('t, 'f, 'd) db \<Rightarrow> 't book_view list" where
  "select_orderbooks ago sel db = sort_key bv_time
     [view_of_book r (sym_name s). r \<leftarrow> db_orderbooks db, s \<leftarrow> db_symbols db, sym_id s = obr_symbol r,
        names_match (fst sel) (sym_name s) \<and> recent ago (snd sel) (obr_time r)]"

text \<open>A stream of rows is complete, or it ends in an error.\<close>

definition streams :: "'r list \<Rightarrow> 'r option list \<Rightarrow> bool" where
  "streams rows stream \<longleftrightarrow> stream = map Some rows \<or> (\<exists>n. stream = map Some (take n rows) @ [None])"

text \<open>What PostgreSQL documents of these statements: a query whose clause can be read is answered with the
  rows that it selects, or fails.\<close>

definition answers_trades :: "(nat \<Rightarrow> 't::linorder) \<Rightarrow> ('t, 'f, 'd) db \<Rightarrow> ('t, 'f) export_env \<Rightarrow> bool" where
  "answers_trades ago db env \<longleftrightarrow>
     (\<forall>filt sel stream. read_where ''t.time'' filt = Some sel \<longrightarrow> ev_trades env (trades_sql filt) = Some stream \<longrightarrow>
        streams (select_trades ago sel db) stream)"

definition answers_orderbooks :: "(nat \<Rightarrow> 't::linorder) \<Rightarrow> ('t, 'f, 'd) db \<Rightarrow> ('t, 'f) export_env \<Rightarrow> bool" where
  "answers_orderbooks ago db env \<longleftrightarrow>
     (\<forall>filt sel stream. read_where ''o.time'' filt = Some sel \<longrightarrow> ev_books env (orderbooks_sql filt) = Some stream \<longrightarrow>
        streams (select_orderbooks ago sel db) stream)"

section \<open>The clause round trip\<close>

lemma strip_append [simp]: "strip prefix (prefix @ s) = Some s"
  by (simp add: strip_def)

lemma literal_plain: "quote_char \<notin> set s \<Longrightarrow> literal (quote_char # s @ [quote_char]) = Some (s, [])"
proof -
  have "literal_rest (s @ [quote_char]) = Some (s, [])" if "quote_char \<notin> set s" for s
    using that by (induction s) auto
  then show "quote_char \<notin> set s \<Longrightarrow> ?thesis" by (simp add: literal_def)
qed

lemma show_nat_free: "digit_val c = None \<Longrightarrow> c \<notin> set (show_nat n)"
  using show_nat_digits [of c n] by auto

lemma read_hours_condition: "read_hours column (hours_condition h column) = Some h"
proof -
  let ?unit = "''hours''"
  have q: "quote_char \<notin> set (show_nat h @ '' hours'')"
    by (simp add: quote_char_def) (rule show_nat_free, simp add: digit_val_def Let_def)
  have sp: "CHR '' '' \<notin> set (show_nat h)" by (rule show_nat_free) (simp add: digit_val_def Let_def)
  have u: "str_split (CHR '' '') ?unit = [?unit]" by (rule str_split_free) simp
  have "str_split (CHR '' '') (show_nat h @ CHR '' '' # ?unit) = [show_nat h, ?unit]"
    unfolding str_split_sep [OF sp] u by (rule refl)
  moreover have "literal (quote_char # (show_nat h @ '' hours'') @ [quote_char]) = Some (show_nat h @ '' hours'', [])"
    by (rule literal_plain [OF q])
  ultimately show ?thesis
    using strip_append [of "column @ '' >= now() - interval ''" "quote_char # (show_nat h @ '' hours'') @ [quote_char]"]
    by (simp add: read_hours_def hours_condition_def del: str_split.simps)
qed

lemma in_list_more: "in_list n s = Some r \<Longrightarrow> in_list (n + k) s = Some r"
proof (induction n arbitrary: s r)
  case (Suc n)
  then show ?case by (auto split: option.splits if_splits)
qed simp

lemma str_join_length: "length ss \<le> length (str_join '', '' (map sql_quote ss))"
proof (induction ss rule: induct_list012)
  case (3 a b ss)
  then show ?case by (simp add: sql_quote_def)
qed (simp_all add: sql_quote_def)

lemma in_list_names:
  assumes "names \<noteq> []"
  shows "in_list (length (str_join '', '' (map sql_quote names) @ '')'' @ rest))
     (str_join '', '' (map sql_quote names) @ '')'' @ rest) = Some (names, rest)"
proof -
  let ?text = "str_join '', '' (map sql_quote names) @ '')'' @ rest"
  have "length names \<le> length ?text" using str_join_length [of names] by simp
  from in_list_more [OF in_list_quoted [OF assms], of "length ?text - length names" rest] this
  show ?thesis by (simp only: le_add_diff_inverse)
qed

lemma hours_no_names:
  assumes "column \<in> {''t.time'', ''o.time''}"
  shows "strip ''s.name IN ('' (hours_condition h column) = None"
  using assms by (auto simp: strip_def hours_condition_def)

text \<open>The clause of an export says what was asked for.\<close>

lemma read_where_clause:
  assumes "symbol_condition query_names symbols = Inr cond" and "column \<in> {''t.time'', ''o.time''}"
  shows "read_where column (where_clause cond hours column)
     = Some (if symbols = [] then None else Some symbols, hours)"
proof (cases "symbols = []")
  case True
  then have c: "cond = []" using assms(1) by (simp add: symbol_condition_def)
  show ?thesis
  proof (cases hours)
    case None
    with True c show ?thesis by (simp add: read_where_def where_clause_def)
  next
    case (Some h)
    have "where_clause cond hours column = '' WHERE '' @ hours_condition h column"
      by (simp add: where_clause_def c Some)
    then show ?thesis
      unfolding read_where_def
      using strip_append [of "'' WHERE ''"] hours_no_names [OF assms(2)] read_hours_condition True Some by simp
  qed
next
  case False
  let ?names = "str_join '', '' (map sql_quote symbols)"
  have c: "cond = ''s.name IN ('' @ ?names @ '')''"
    using assms(1) False by (auto simp: symbol_condition_def Let_def split: if_splits)
  show ?thesis
  proof (cases hours)
    case None
    have "where_clause cond hours column = '' WHERE '' @ ''s.name IN ('' @ ?names @ '')'' @ []"
      by (simp add: where_clause_def c None)
    then show ?thesis
      unfolding read_where_def
      using strip_append [of "'' WHERE ''"] strip_append [of "''s.name IN (''" "?names @ '')'' @ []"]
        in_list_names [OF False, of "[]"] False None by simp
  next
    case (Some h)
    let ?tail = "'' AND '' @ hours_condition h column"
    have "where_clause cond hours column = '' WHERE '' @ ''s.name IN ('' @ ?names @ '')'' @ ?tail"
      by (simp add: where_clause_def c Some)
    then show ?thesis
      unfolding read_where_def
      using strip_append [of "'' WHERE ''"] strip_append [of "''s.name IN (''" "?names @ '')'' @ ?tail"]
        in_list_names [OF False, of ?tail] strip_append [of "'' AND ''"] read_hours_condition False Some by simp
  qed
qed

section \<open>What an export holds\<close>

lemma streams_complete: "streams rows (map Some rows') \<Longrightarrow> rows' = rows"
  unfolding streams_def
proof (elim disjE exE)
  fix n assume "map Some rows' = map Some (take n rows) @ [None]"
  then have "None \<in> set (map Some rows')" by simp
  then show "rows' = rows" by auto
qed (simp add: inj_map_eq_map)

lemma exported_trades_selected:
  assumes "export_parquet L env dir symbols hours True orderbooks overwrite files = (Inr (), files')"
    and "answers_trades ago db env"
  shows "\<exists>out. files' (path_join dir ''trades.parquet'') = Some (TradesFile out True)
     \<and> concat (map trade_lines out)
         = map (trade_line L) (select_trades ago (if symbols = [] then None else Some symbols, hours) db)
     \<and> well_cut (map trade_lines out)"
proof -
  obtain cond rows out where c: "symbol_condition (ev_names env) symbols = Inr cond"
    and q: "ev_trades env (trades_sql (where_clause cond hours ''t.time'')) = Some (map Some rows)"
    and o: "files' (path_join dir ''trades.parquet'') = Some (TradesFile out True)"
      "concat (map trade_lines out) = map (trade_line L) rows" "well_cut (map trade_lines out)"
    using exported_files_are_complete [OF assms(1)] by auto
  have "read_where ''t.time'' (where_clause cond hours ''t.time'') = Some (if symbols = [] then None else Some symbols, hours)"
    by (rule read_where_clause [OF c]) simp
  with assms(2) q have "rows = select_trades ago (if symbols = [] then None else Some symbols, hours) db"
    by (intro streams_complete) (auto simp: answers_trades_def)
  with o show ?thesis by blast
qed

lemma exported_books_selected:
  assumes "export_parquet L env dir symbols hours trades True overwrite files = (Inr (), files')"
    and "answers_orderbooks ago db env"
  shows "\<exists>out. files' (path_join dir ''orderbook_messages.parquet'') = Some (BooksFile out True)
     \<and> map Inr (concat (map book_lines out))
         = map (book_line L) (select_orderbooks ago (if symbols = [] then None else Some symbols, hours) db)
     \<and> well_cut (map book_lines out)"
proof -
  obtain cond rows out where c: "symbol_condition (ev_names env) symbols = Inr cond"
    and q: "ev_books env (orderbooks_sql (where_clause cond hours ''o.time'')) = Some (map Some rows)"
    and o: "files' (path_join dir ''orderbook_messages.parquet'') = Some (BooksFile out True)"
      "map Inr (concat (map book_lines out)) = map (book_line L) rows" "well_cut (map book_lines out)"
    using exported_files_are_complete [OF assms(1)] by auto
  have "read_where ''o.time'' (where_clause cond hours ''o.time'') = Some (if symbols = [] then None else Some symbols, hours)"
    by (rule read_where_clause [OF c]) simp
  with assms(2) q have "rows = select_orderbooks ago (if symbols = [] then None else Some symbols, hours) db"
    by (intro streams_complete) (auto simp: answers_orderbooks_def)
  with o show ?thesis by blast
qed

text \<open>A join on the id of the symbol: a row is selected once, and only with the name of its own symbol.\<close>

lemma select_trades_set:
  "v \<in> set (select_trades ago sel db) \<longleftrightarrow>
     (\<exists>t \<in> set (db_trades db). \<exists>s \<in> set (db_symbols db). sym_id s = tw_symbol t \<and> names_match (fst sel) (sym_name s)
        \<and> recent ago (snd sel) (tw_time t) \<and> v = view_of_trade t (sym_name s))"
  by (auto simp: select_trades_def)

end
