(* ===== verification/Ordered_Map.thy ===== *)
theory Ordered_Map
  imports Prelude
begin

text \<open>
  Rust's \<^verbatim>\<open>BTreeMap\<close>, which each side of an order book is: the entries in strictly ascending key
  order. \<open>ordered_map\<close> is the interface the order book uses (insert, remove, iterate in key
  order), with the laws it relies on; the lemmas of the locale are about sequences of edits and
  about rebuilding a map from its own entries. The interpretation \<open>bt\<close> discharges the laws for
  the list of entries.
\<close>

section \<open>Operations\<close>

type_synonym ('k, 'v) btree = "('k \<times> 'v) list"

fun bt_insert :: "'k::linorder \<Rightarrow> 'v \<Rightarrow> ('k, 'v) btree \<Rightarrow> ('k, 'v) btree" where
  "bt_insert k v [] = [(k, v)]"
| "bt_insert k v (e # m) =
     (if k < fst e then (k, v) # e # m
      else if fst e < k then e # bt_insert k v m
      else (fst e, v) # m)"

fun bt_remove :: "'k::linorder \<Rightarrow> ('k, 'v) btree \<Rightarrow> ('k, 'v) btree" where
  "bt_remove k [] = []"
| "bt_remove k (e # m) =
     (if k < fst e then e # m
      else if fst e < k then e # bt_remove k m
      else m)"

definition bt_values :: "('k, 'v) btree \<Rightarrow> 'v list" where
  "bt_values m = map snd m"

definition bt_wf :: "('k::linorder, 'v) btree \<Rightarrow> bool" where
  "bt_wf m \<longleftrightarrow> sorted_wrt (<) (map fst m)"

section \<open>The interface\<close>

datatype ('k, 'v) edit = Put 'k 'v | Del 'k

text \<open>What an edit does to the finite map that an ordered map stands for.\<close>

fun edit_map :: "('k, 'v) edit \<Rightarrow> ('k \<rightharpoonup> 'v) \<Rightarrow> ('k \<rightharpoonup> 'v)" where
  "edit_map (Put k v) f = f(k \<mapsto> v)"
| "edit_map (Del k) f = f(k := None)"

lemma strict_sorted_distinct: "sorted_wrt (<) (xs :: 'k::linorder list) \<Longrightarrow> distinct xs"
  by (induction xs) auto

lemma strict_sorted_map_of_inject:
  fixes ps qs :: "('k::linorder \<times> 'v) list"
  assumes ps: "sorted_wrt (<) (map fst ps)" and qs: "sorted_wrt (<) (map fst qs)"
    and eq: "map_of ps = map_of qs"
  shows "ps = qs"
proof -
  note d = strict_sorted_distinct [OF ps] strict_sorted_distinct [OF qs]
  have same: "set ps = set qs" using eq by (simp add: map_of_inject_set d)
  show ?thesis
  proof (rule map_sorted_distinct_set_unique)
    show "inj_on fst (set ps \<union> set qs)" using d(1) same by (simp add: distinct_map)
  qed (use ps qs same in \<open>simp_all add: strict_sorted_iff\<close>)
qed

locale ordered_map =
  fixes empty :: "'m"
    and insert :: "'k::linorder \<Rightarrow> 'v \<Rightarrow> 'm \<Rightarrow> 'm"
    and remove :: "'k \<Rightarrow> 'm \<Rightarrow> 'm"
    and entries :: "'m \<Rightarrow> ('k \<times> 'v) list"
    and wf :: "'m \<Rightarrow> bool"
  assumes wf_empty: "wf empty"
    and wf_insert: "wf m \<Longrightarrow> wf (insert k v m)"
    and wf_remove: "wf m \<Longrightarrow> wf (remove k m)"
    and entries_empty: "entries empty = []"
    and entries_insert: "wf m \<Longrightarrow> map_of (entries (insert k v m)) = (map_of (entries m))(k \<mapsto> v)"
    and entries_remove: "wf m \<Longrightarrow> map_of (entries (remove k m)) = (map_of (entries m))(k := None)"
    and entries_sorted: "wf m \<Longrightarrow> sorted_wrt (<) (map fst (entries m))"
begin

fun run_edit :: "('k, 'v) edit \<Rightarrow> 'm \<Rightarrow> 'm" where
  "run_edit (Put k v) m = insert k v m"
| "run_edit (Del k) m = remove k m"

lemma wf_run_edit: "wf m \<Longrightarrow> wf (run_edit e m)"
  by (cases e) (auto intro: wf_insert wf_remove)

lemma wf_run_edits: "wf m \<Longrightarrow> wf (fold run_edit es m)"
  by (induction es arbitrary: m) (auto intro: wf_run_edit)

lemma entries_run_edit: "wf m \<Longrightarrow> map_of (entries (run_edit e m)) = edit_map e (map_of (entries m))"
  by (cases e) (simp_all add: entries_insert entries_remove)

lemma entries_run_edits:
  "wf m \<Longrightarrow> map_of (entries (fold run_edit es m)) = fold edit_map es (map_of (entries m))"
  by (induction es arbitrary: m) (simp_all add: entries_run_edit wf_run_edit)

text \<open>The entries are a canonical form: two maps with the same lookups list the same entries.\<close>

lemma entries_canonical:
  "wf m \<Longrightarrow> wf n \<Longrightarrow> map_of (entries m) = map_of (entries n) \<Longrightarrow> entries m = entries n"
  by (blast intro: strict_sorted_map_of_inject entries_sorted)

lemma fold_put_map_of:
  "distinct (map fst ps) \<Longrightarrow> fold edit_map (map (\<lambda>(k, v). Put k v) ps) f = f ++ map_of ps"
proof (induction ps arbitrary: f)
  case (Cons p ps)
  obtain k v where p: "p = (k, v)" by fastforce
  with Cons.prems have "k \<notin> dom (map_of ps)" by (simp add: dom_map_of_conv_image_fst)
  then have add: "f(k \<mapsto> v) ++ map_of ps = (f ++ map_of ps)(k \<mapsto> v)"
    by (rule map_add_upd_left)
  have "fold edit_map (map (\<lambda>(k, v). Put k v) (p # ps)) f = f(k \<mapsto> v) ++ map_of ps"
    using Cons by (simp add: p)
  with add show ?case by (simp only: p map_of.simps map_add_upd fst_conv snd_conv)
qed simp

text \<open>Inserting the entries of a map, in any order, into the empty map rebuilds it.\<close>

lemma rebuild:
  assumes "wf m" and "distinct (map fst ps)" and "set ps = set (entries m)"
  shows "entries (fold run_edit (map (\<lambda>(k, v). Put k v) ps) empty) = entries m"
proof (rule entries_canonical)
  have "distinct (map fst (entries m))"
    using assms(1) by (intro strict_sorted_distinct entries_sorted)
  then have "map_of ps = map_of (entries m)"
    using assms by (simp add: map_of_inject_set)
  then show "map_of (entries (fold run_edit (map (\<lambda>(k, v). Put k v) ps) empty)) = map_of (entries m)"
    using assms by (simp add: entries_run_edits wf_empty entries_empty fold_put_map_of)
qed (simp_all add: assms wf_empty wf_run_edits)

end

section \<open>The interpretation\<close>

lemma bt_insert_keys: "set (map fst (bt_insert k v m)) = insert k (set (map fst m))"
  by (induction m) auto

lemma bt_remove_keys: "set (map fst (bt_remove k m)) \<subseteq> set (map fst m)"
  by (induction m) auto

lemma bt_wf_insert: "bt_wf m \<Longrightarrow> bt_wf (bt_insert k v m)"
proof (induction m)
  case (Cons e m)
  have "\<forall>x \<in> set (map fst (bt_insert k v m)). fst e < x" if "fst e < k"
    unfolding bt_insert_keys using Cons.prems that by (auto simp: bt_wf_def)
  with Cons show ?case by (auto simp: bt_wf_def)
qed (simp add: bt_wf_def)

lemma bt_wf_remove: "bt_wf m \<Longrightarrow> bt_wf (bt_remove k m)"
proof (induction m)
  case (Cons e m)
  with bt_remove_keys [of k m] show ?case by (fastforce simp: bt_wf_def)
qed (simp add: bt_wf_def)

lemma bt_lookup_insert: "map_of (bt_insert k v m) = (map_of m)(k \<mapsto> v)"
proof (induction m)
  case (Cons e m)
  then show ?case by (cases e) (auto simp: fun_upd_twist)
qed simp

lemma bt_lookup_smaller: "\<forall>e \<in> set m. (k :: 'k::linorder) < fst e \<Longrightarrow> map_of m k = None"
  by (auto simp: map_of_eq_None_iff dest!: bspec)

lemma bt_lookup_remove: "bt_wf m \<Longrightarrow> map_of (bt_remove k m) = (map_of m)(k := None)"
proof (induction m)
  case (Cons e m)
  have m: "bt_wf m" "\<forall>x \<in> set m. fst e < fst x" using Cons.prems by (auto simp: bt_wf_def)
  consider "k < fst e" | "fst e < k" | "k = fst e" by fastforce
  then show ?case
  proof cases
    case 1
    then have "map_of (e # m) k = None"
      using bt_lookup_smaller [of "e # m" k] m by fastforce
    with 1 show ?thesis by (simp add: fun_upd_idem)
  next
    case 2
    then show ?thesis using Cons.IH m by (cases e) (auto simp: fun_eq_iff)
  next
    case 3
    then have "map_of m k = None" using bt_lookup_smaller [of m k] m by simp
    with 3 show ?thesis by (cases e) (auto simp: fun_eq_iff)
  qed
qed simp

interpretation bt: ordered_map "[]" bt_insert bt_remove "\<lambda>m. m" bt_wf
  by unfold_locales
    (auto simp: bt_wf_insert bt_wf_remove bt_lookup_insert bt_lookup_remove, auto simp: bt_wf_def)

end
