(* ===== verification/Snapshot_Log.thy ===== *)
theory Snapshot_Log
  imports Prelude
begin

text \<open>
  What a reader of the stored order-book rows does, and the interface it relies on. A log of one
  market is a list of snapshot rows and delta rows, each with the nonce after it; a delta also has
  the nonce it continues from. The reader starts from a snapshot, replaces its book at every
  snapshot and applies a delta only when it continues the nonce (README, "Order-book rows"). The
  locale \<open>snapshot_book\<close> states what the reader needs of a book: operations keep an invariant, and a
  book that satisfies it is rebuilt by a snapshot of its own listing.
\<close>

datatype 'l log_row =
    SnapRow int "'l list" "'l list"        \<comment> \<open>nonce, bids, asks\<close>
  | DeltaRow int int "'l list" "'l list"   \<comment> \<open>begin nonce, nonce, bids, asks\<close>

datatype 'e log_error =
    NoSnapshotYet
  | MissingDelta int int                   \<comment> \<open>begin nonce of the row, nonce of the reader\<close>
  | BadLevels 'e

fun is_snap :: "'l log_row \<Rightarrow> bool" where
  "is_snap (SnapRow _ _ _) = True"
| "is_snap (DeltaRow _ _ _ _) = False"

text \<open>The reader, over the operations \<open>fs\<close> (build from a snapshot) and \<open>ap\<close> (apply a delta).\<close>

fun advance ::
  "('l list \<Rightarrow> 'l list \<Rightarrow> 'e + 'b) \<Rightarrow> ('b \<Rightarrow> 'l list \<Rightarrow> 'l list \<Rightarrow> ('e + unit) \<times> 'b)
   \<Rightarrow> (int \<times> 'b) option \<Rightarrow> 'l log_row \<Rightarrow> 'e log_error + (int \<times> 'b)" where
  "advance fs ap st (SnapRow n bs as) = map_err BadLevels (and_then (fs bs as) (\<lambda>b. Inr (n, b)))"
| "advance fs ap None (DeltaRow k n bs as) = Inl NoSnapshotYet"
| "advance fs ap (Some (m, b)) (DeltaRow k n bs as) =
     (if k \<noteq> m then Inl (MissingDelta k m)
      else (case ap b bs as of (Inl e, _) \<Rightarrow> Inl (BadLevels e) | (Inr _, b') \<Rightarrow> Inr (n, b')))"

fun replay ::
  "('l list \<Rightarrow> 'l list \<Rightarrow> 'e + 'b) \<Rightarrow> ('b \<Rightarrow> 'l list \<Rightarrow> 'l list \<Rightarrow> ('e + unit) \<times> 'b)
   \<Rightarrow> (int \<times> 'b) option \<Rightarrow> 'l log_row list \<Rightarrow> 'e log_error + (int \<times> 'b) option" where
  "replay fs ap st [] = Inr st"
| "replay fs ap st (r # rs) = and_then (advance fs ap st r) (\<lambda>s. replay fs ap (Some s) rs)"

lemma replay_append:
  "replay fs ap st (xs @ ys) = and_then (replay fs ap st xs) (\<lambda>s. replay fs ap s ys)"
  by (induction xs arbitrary: st) (auto simp: and_then_def split: sum.splits)

lemma advance_snap_any: "is_snap r \<Longrightarrow> advance fs ap st r = advance fs ap st' r"
  by (cases r) auto

text \<open>A reader that starts at any snapshot of a log ends where the reader of the whole log ends.\<close>

lemma replay_restart:
  assumes "replay fs ap st (xs @ r # ys) = Inr s" and "is_snap r"
  shows "replay fs ap None (r # ys) = Inr s"
proof -
  obtain s1 s2 where "advance fs ap s1 r = Inr s2" and "replay fs ap (Some s2) ys = Inr s"
    using assms(1) by (auto simp: replay_append)
  with advance_snap_any [OF assms(2), of fs ap None s1] show ?thesis by simp
qed

locale snapshot_book =
  fixes fs :: "'l list \<Rightarrow> 'l list \<Rightarrow> 'e + 'b"
    and ap :: "'b \<Rightarrow> 'l list \<Rightarrow> 'l list \<Rightarrow> ('e + unit) \<times> 'b"
    and list_bids :: "'b \<Rightarrow> 'l list"
    and list_asks :: "'b \<Rightarrow> 'l list"
    and inv :: "'b \<Rightarrow> bool"
  assumes inv_fs: "fs bs as = Inr b \<Longrightarrow> inv b"
    and inv_ap: "inv b \<Longrightarrow> inv (snd (ap b bs as))"
    and relist: "inv b \<Longrightarrow> fs (list_bids b) (list_asks b) = Inr b"
begin

lemma advance_inv:
  assumes "advance fs ap st r = Inr (n, b)" and "\<And>m b. st = Some (m, b) \<Longrightarrow> inv b"
  shows "inv b"
proof (cases r)
  case (SnapRow m bs as)
  with assms show ?thesis by (auto intro: inv_fs)
next
  case (DeltaRow k m bs as)
  with assms(1) obtain b0 where st: "st = Some (k, b0)" and "ap b0 bs as = (Inr (), b)"
    by (cases st) (auto split: prod.splits sum.splits if_splits)
  with assms(2) [OF st] inv_ap [of b0 bs as] show ?thesis by simp
qed

lemma replay_inv:
  "replay fs ap st rs = Inr (Some (n, b)) \<Longrightarrow> (\<And>m b. st = Some (m, b) \<Longrightarrow> inv b) \<Longrightarrow> inv b"
proof (induction rs arbitrary: st)
  case (Cons r rs)
  from Cons.prems(1) obtain m b1 where a: "advance fs ap st r = Inr (m, b1)"
    and rest: "replay fs ap (Some (m, b1)) rs = Inr (Some (n, b))" by auto
  have "inv b1" using advance_inv [OF a] Cons.prems(2) by blast
  with Cons.IH [OF rest] show ?case by auto
qed auto

text \<open>The book's own listing, as a snapshot row, leads any reader to the book.\<close>

lemma advance_relist: "inv b \<Longrightarrow> advance fs ap st (SnapRow n (list_bids b) (list_asks b)) = Inr (n, b)"
  by (simp add: relist)

text \<open>Such a row in the middle of a log does not change what the log replays to.\<close>

lemma checkpoint_transparent:
  assumes "replay fs ap None xs = Inr (Some (n, b))"
  shows "replay fs ap None (xs @ SnapRow n (list_bids b) (list_asks b) # ys)
       = replay fs ap None (xs @ ys)"
proof -
  have "inv b" using replay_inv [OF assms] by simp
  with assms show ?thesis by (simp add: replay_append advance_relist del: advance.simps)
qed

end

end
