(* ===== verification/Wire.thy ===== *)
theory Wire
  imports Json Rust_Std
begin

text \<open>
  The crate \<^verbatim>\<open>lighter-rs-types\<close>: the message types of the Lighter REST and WebSocket APIs as
  records and datatypes, their decoders (derived by serde in the code), the serialiser of price
  levels, and the market id of a channel name. Struct fields carry a prefix, since one name
  serves several structs.
\<close>

section \<open>Order books (orderbook.rs)\<close>

record price_level =
  level_price :: string
  level_size :: string

record order_book_side_levels =
  ob_offset :: int
  ob_nonce :: int
  ob_begin_nonce :: int
  ob_asks :: "price_level list"
  ob_bids :: "price_level list"

datatype order_book_ws_message =
    ObSubscribed string int order_book_side_levels   \<comment> \<open>channel, \<^verbatim>\<open>last_updated_at\<close>, \<^verbatim>\<open>order_book\<close>\<close>
  | ObUpdate string int order_book_side_levels

fun ob_channel :: "order_book_ws_message \<Rightarrow> string" where
  "ob_channel (ObSubscribed channel _ _) = channel"
| "ob_channel (ObUpdate channel _ _) = channel"

text \<open>\<^verbatim>\<open>channel.split(':').nth(1)?.parse().ok()\<close>, which both message enums use.\<close>

definition channel_market_id :: "string \<Rightarrow> int option" where
  "channel_market_id channel =
     (case nth_opt 1 (str_split (CHR '':'') channel) of None \<Rightarrow> None | Some s \<Rightarrow> parse_i32 s)"

definition ob_market_id :: "order_book_ws_message \<Rightarrow> int option" where
  "ob_market_id m = channel_market_id (ob_channel m)"

definition de_price_level :: "price_level decoder" where
  "de_price_level j =
     (case struct_fields [''price'', ''size''] j of
        None \<Rightarrow> None
      | Some fs \<Rightarrow>
          (case (field de_string ''price'' fs, field de_string ''size'' fs) of
             (Some p, Some s) \<Rightarrow> Some \<lparr>level_price = p, level_size = s\<rparr>
           | _ \<Rightarrow> None))"

definition ser_price_level :: "price_level \<Rightarrow> json" where
  "ser_price_level l = JObj [(''price'', JStr (level_price l)), (''size'', JStr (level_size l))]"

definition ser_levels :: "price_level list \<Rightarrow> json" where
  "ser_levels ls = JArr (map ser_price_level ls)"

abbreviation de_levels :: "price_level list decoder" where
  "de_levels \<equiv> de_vec de_price_level"

definition de_side_levels :: "order_book_side_levels decoder" where
  "de_side_levels j =
     (case struct_fields [''offset'', ''nonce'', ''begin_nonce'', ''asks'', ''bids''] j of
        None \<Rightarrow> None
      | Some fs \<Rightarrow>
          (case (field de_i64 ''offset'' fs, field de_i64 ''nonce'' fs,
                 field de_i64 ''begin_nonce'' fs, field de_levels ''asks'' fs,
                 field de_levels ''bids'' fs) of
             (Some offset, Some nonce, Some begin_nonce, Some asks, Some bids) \<Rightarrow>
               Some \<lparr>ob_offset = offset, ob_nonce = nonce, ob_begin_nonce = begin_nonce,
                     ob_asks = asks, ob_bids = bids\<rparr>
           | _ \<Rightarrow> None))"

definition de_ob_variant ::
  "(string \<Rightarrow> int \<Rightarrow> order_book_side_levels \<Rightarrow> order_book_ws_message) \<Rightarrow> order_book_ws_message decoder" where
  "de_ob_variant C j =
     (case struct_fields [''channel'', ''last_updated_at'', ''order_book''] j of
        None \<Rightarrow> None
      | Some fs \<Rightarrow>
          (case (field de_string ''channel'' fs, field de_i64 ''last_updated_at'' fs,
                 field de_side_levels ''order_book'' fs) of
             (Some channel, Some at, Some ob) \<Rightarrow> Some (C channel at ob)
           | _ \<Rightarrow> None))"

definition de_order_book_ws_message :: "order_book_ws_message decoder" where
  "de_order_book_ws_message =
     de_tagged [''subscribed/order_book'' \<mapsto> de_ob_variant ObSubscribed,
                ''update/order_book'' \<mapsto> de_ob_variant ObUpdate]"

section \<open>Trades (trade.rs, trade\_ws.rs)\<close>

record trade =
  trade_id :: int
  tx_hash :: string
  tr_type :: string            \<comment> \<open>\<^verbatim>\<open>trade_type\<close>, renamed \<^verbatim>\<open>type\<close>\<close>
  tr_market_id :: int
  tr_size :: string
  tr_price :: string
  usd_amount :: string
  ask_id :: int
  bid_id :: int
  ask_client_id :: int
  bid_client_id :: int
  ask_account_id :: int
  bid_account_id :: int
  tr_is_maker_ask :: bool
  block_height :: int
  tr_timestamp :: int          \<comment> \<open>Unix milliseconds\<close>

definition trade_fields :: "string list" where
  "trade_fields = [''trade_id'', ''tx_hash'', ''type'', ''market_id'', ''size'', ''price'',
     ''usd_amount'', ''ask_id'', ''bid_id'', ''ask_client_id'', ''bid_client_id'',
     ''ask_account_id'', ''bid_account_id'', ''is_maker_ask'', ''block_height'', ''timestamp'']"

definition de_trade :: "trade decoder" where
  "de_trade j =
     (case struct_fields trade_fields j of
        None \<Rightarrow> None
      | Some fs \<Rightarrow>
          (case (field de_i64 ''trade_id'' fs, field de_string ''tx_hash'' fs,
                 field de_string ''type'' fs, field de_i32 ''market_id'' fs,
                 field de_string ''size'' fs, field de_string ''price'' fs,
                 field de_string ''usd_amount'' fs, field de_i64 ''ask_id'' fs) of
             (Some t_id, Some hash, Some ty, Some m_id, Some sz, Some pr, Some usd, Some a_id) \<Rightarrow>
               (case (field de_i64 ''bid_id'' fs, field de_i64 ''ask_client_id'' fs,
                      field de_i64 ''bid_client_id'' fs, field de_i64 ''ask_account_id'' fs,
                      field de_i64 ''bid_account_id'' fs, field de_bool ''is_maker_ask'' fs,
                      field de_i64 ''block_height'' fs, field de_i64 ''timestamp'' fs) of
                  (Some b_id, Some ac_id, Some bc_id, Some aa_id, Some ba_id, Some maker,
                   Some height, Some ts) \<Rightarrow>
                    Some \<lparr>trade_id = t_id, tx_hash = hash, tr_type = ty, tr_market_id = m_id,
                          tr_size = sz, tr_price = pr, usd_amount = usd, ask_id = a_id,
                          bid_id = b_id, ask_client_id = ac_id, bid_client_id = bc_id,
                          ask_account_id = aa_id, bid_account_id = ba_id,
                          tr_is_maker_ask = maker, block_height = height, tr_timestamp = ts\<rparr>
                | _ \<Rightarrow> None)
           | _ \<Rightarrow> None))"

record trades_response =
  trs_code :: int
  trs_trades :: "trade list"

definition de_trades_response :: "trades_response decoder" where
  "de_trades_response j =
     (case struct_fields [''code'', ''trades''] j of
        None \<Rightarrow> None
      | Some fs \<Rightarrow>
          (case (field de_i64 ''code'' fs, field (de_vec de_trade) ''trades'' fs) of
             (Some c, Some ts) \<Rightarrow> Some \<lparr>trs_code = c, trs_trades = ts\<rparr>
           | _ \<Rightarrow> None))"

datatype trade_ws_message =
    TrSubscribed string int "trade list" "trade list"
      \<comment> \<open>channel, nonce, trades, \<^verbatim>\<open>liquidation_trades\<close>\<close>
  | TrUpdate string int "trade list" "trade list"

fun tr_channel :: "trade_ws_message \<Rightarrow> string" where
  "tr_channel (TrSubscribed channel _ _ _) = channel"
| "tr_channel (TrUpdate channel _ _ _) = channel"

fun tr_trades :: "trade_ws_message \<Rightarrow> trade list \<times> trade list" where
  "tr_trades (TrSubscribed _ _ trades liquidation_trades) = (trades, liquidation_trades)"
| "tr_trades (TrUpdate _ _ trades liquidation_trades) = (trades, liquidation_trades)"

definition tr_ws_market_id :: "trade_ws_message \<Rightarrow> int option" where
  "tr_ws_market_id m = channel_market_id (tr_channel m)"

definition de_tr_variant ::
  "(string \<Rightarrow> int \<Rightarrow> trade list \<Rightarrow> trade list \<Rightarrow> trade_ws_message) \<Rightarrow> trade_ws_message decoder" where
  "de_tr_variant C j =
     (case struct_fields [''channel'', ''nonce'', ''trades'', ''liquidation_trades''] j of
        None \<Rightarrow> None
      | Some fs \<Rightarrow>
          (case (field de_string ''channel'' fs, field de_i64 ''nonce'' fs,
                 field (de_vec de_trade) ''trades'' fs,
                 field (de_vec de_trade) ''liquidation_trades'' fs) of
             (Some channel, Some nonce, Some ts, Some ls) \<Rightarrow> Some (C channel nonce ts ls)
           | _ \<Rightarrow> None))"

definition de_trade_ws_message :: "trade_ws_message decoder" where
  "de_trade_ws_message =
     de_tagged [''subscribed/trade'' \<mapsto> de_tr_variant TrSubscribed,
                ''update/trade'' \<mapsto> de_tr_variant TrUpdate]"

section \<open>Fundings (funding.rs of the crate)\<close>

record funding =
  fd_timestamp :: int          \<comment> \<open>Unix seconds\<close>
  fd_rate :: string
  fd_direction :: string

record fundings_response =
  fr_code :: int
  fr_resolution :: string
  fr_fundings :: "funding list"

definition de_funding :: "funding decoder" where
  "de_funding j =
     (case struct_fields [''timestamp'', ''rate'', ''direction''] j of
        None \<Rightarrow> None
      | Some fs \<Rightarrow>
          (case (field de_i64 ''timestamp'' fs, field de_string ''rate'' fs,
                 field de_string ''direction'' fs) of
             (Some t, Some r, Some d) \<Rightarrow>
               Some \<lparr>fd_timestamp = t, fd_rate = r, fd_direction = d\<rparr>
           | _ \<Rightarrow> None))"

definition de_fundings_response :: "fundings_response decoder" where
  "de_fundings_response j =
     (case struct_fields [''code'', ''resolution'', ''fundings''] j of
        None \<Rightarrow> None
      | Some fs \<Rightarrow>
          (case (field de_i64 ''code'' fs, field de_string ''resolution'' fs,
                 field (de_vec de_funding) ''fundings'' fs) of
             (Some c, Some r, Some f) \<Rightarrow>
               Some \<lparr>fr_code = c, fr_resolution = r, fr_fundings = f\<rparr>
           | _ \<Rightarrow> None))"

section \<open>Markets (market.rs)\<close>

record order_book_info =
  mk_symbol :: string
  mk_market_id :: int
  mk_market_type :: string
  base_asset_id :: int
  quote_asset_id :: int
  mk_status :: string
  taker_fee :: string
  maker_fee :: string
  liquidation_fee :: string
  min_base_amount :: string
  min_quote_amount :: string
  order_quote_limit :: string
  supported_size_decimals :: int
  supported_price_decimals :: int
  supported_quote_decimals :: int

record order_books_response =
  obs_code :: int
  obs_order_books :: "order_book_info list"

definition market_fields :: "string list" where
  "market_fields = [''symbol'', ''market_id'', ''market_type'', ''base_asset_id'',
     ''quote_asset_id'', ''status'', ''taker_fee'', ''maker_fee'', ''liquidation_fee'',
     ''min_base_amount'', ''min_quote_amount'', ''order_quote_limit'',
     ''supported_size_decimals'', ''supported_price_decimals'', ''supported_quote_decimals'']"

definition de_order_book_info :: "order_book_info decoder" where
  "de_order_book_info j =
     (case struct_fields market_fields j of
        None \<Rightarrow> None
      | Some fs \<Rightarrow>
          (case (field de_string ''symbol'' fs, field de_i32 ''market_id'' fs,
                 field de_string ''market_type'' fs, field de_i32 ''base_asset_id'' fs,
                 field de_i32 ''quote_asset_id'' fs, field de_string ''status'' fs,
                 field de_string ''taker_fee'' fs, field de_string ''maker_fee'' fs) of
             (Some symbol, Some m_id, Some ty, Some base, Some quote, Some st, Some tf, Some mf) \<Rightarrow>
               (case (field de_string ''liquidation_fee'' fs, field de_string ''min_base_amount'' fs,
                      field de_string ''min_quote_amount'' fs,
                      field de_string ''order_quote_limit'' fs,
                      field de_u32 ''supported_size_decimals'' fs,
                      field de_u32 ''supported_price_decimals'' fs,
                      field de_u32 ''supported_quote_decimals'' fs) of
                  (Some lf, Some mb, Some mq, Some oq, Some sd, Some pd, Some qd) \<Rightarrow>
                    Some \<lparr>mk_symbol = symbol, mk_market_id = m_id, mk_market_type = ty,
                          base_asset_id = base, quote_asset_id = quote, mk_status = st,
                          taker_fee = tf, maker_fee = mf, liquidation_fee = lf,
                          min_base_amount = mb, min_quote_amount = mq, order_quote_limit = oq,
                          supported_size_decimals = sd, supported_price_decimals = pd,
                          supported_quote_decimals = qd\<rparr>
                | _ \<Rightarrow> None)
           | _ \<Rightarrow> None))"

definition de_order_books_response :: "order_books_response decoder" where
  "de_order_books_response j =
     (case struct_fields [''code'', ''order_books''] j of
        None \<Rightarrow> None
      | Some fs \<Rightarrow>
          (case (field de_i64 ''code'' fs, field (de_vec de_order_book_info) ''order_books'' fs) of
             (Some c, Some ms) \<Rightarrow> Some \<lparr>obs_code = c, obs_order_books = ms\<rparr>
           | _ \<Rightarrow> None))"

section \<open>Facts\<close>

text \<open>Serialising price levels and decoding them again gives them back.\<close>

lemma de_ser_price_level [simp]: "de_price_level (ser_price_level l) = Some l"
  by (simp add: de_price_level_def ser_price_level_def struct_fields_def field_def de_string_def)

lemma de_ser_levels [simp]: "de_levels (ser_levels ls) = Some ls"
  by (simp add: ser_levels_def de_vec_map)

lemma ser_levels_inject [simp]: "ser_levels ls = ser_levels ms \<longleftrightarrow> ls = ms"
  by (metis de_ser_levels option.inject)

text \<open>The market id of a channel name \<^verbatim>\<open>kind:id\<close>.\<close>

lemma channel_market_id_show:
  assumes "CHR '':'' \<notin> set kind" and "in_i32 n"
  shows "channel_market_id (kind @ CHR '':'' # show_int n) = Some n"
proof -
  have "CHR '':'' \<notin> set (show_int n)" by (rule show_int_free) simp_all
  with assms show ?thesis
    by (simp add: channel_market_id_def str_split_sep str_split_free nth_opt_def)
qed

lemma channel_market_id_range: "channel_market_id channel = Some n \<Longrightarrow> in_i32 n"
  by (auto simp: channel_market_id_def split: option.splits dest: parse_i32_range)

text \<open>What the decoders guarantee of the values they let in.\<close>

lemma de_side_levels_ranges:
  "de_side_levels j = Some b \<Longrightarrow> in_i64 (ob_nonce b) \<and> in_i64 (ob_begin_nonce b) \<and> in_i64 (ob_offset b)"
  by (auto simp: de_side_levels_def field_def split: option.splits dest!: de_int_range)

text \<open>A tagged message is decoded by the variant its \<^verbatim>\<open>type\<close> names.\<close>

lemma de_tagged_obj:
  assumes "de_tagged variant (JObj kvs) = Some m"
  obtains ty d where "(''type'', JStr ty) \<in> set kvs" and "map_of kvs ''type'' = Some (JStr ty)"
    and "variant ty = Some d" and "d (JObj (filter (\<lambda>kv. fst kv \<noteq> ''type'') kvs)) = Some m"
proof -
  obtain t ty where one: "filter (\<lambda>kv. fst kv = ''type'') kvs = [(t, JStr ty)]"
    and rest: "(case variant ty of None \<Rightarrow> None
       | Some d \<Rightarrow> d (JObj (filter (\<lambda>kv. fst kv \<noteq> ''type'') kvs))) = Some m"
    using assms by (auto simp: de_tagged_def split: list.splits prod.splits json.splits)
  from one have "(t, JStr ty) \<in> set (filter (\<lambda>kv. fst kv = ''type'') kvs)" by simp
  then have t: "t = ''type''" and mem: "(''type'', JStr ty) \<in> set kvs" by auto
  have "map_of kvs ''type'' = map_of (filter (\<lambda>kv. fst kv = ''type'') kvs) ''type''"
    by (induction kvs) auto
  with one t have "map_of kvs ''type'' = Some (JStr ty)" by simp
  with rest mem that show ?thesis by (auto split: option.splits)
qed

lemma de_order_book_type:
  assumes "de_order_book_ws_message (JObj kvs) = Some m"
  shows "map_of kvs ''type'' = Some (JStr ''subscribed/order_book'') \<and> (\<exists>c t b. m = ObSubscribed c t b)
       \<or> map_of kvs ''type'' = Some (JStr ''update/order_book'') \<and> (\<exists>c t b. m = ObUpdate c t b)"
  using assms unfolding de_order_book_ws_message_def
  by (rule de_tagged_obj) (auto simp: de_ob_variant_def split: if_splits option.splits)

end
