(* ===== verification/Book.thy ===== *)
theory Book
  imports Ordered_Map Snapshot_Log Wire Libs
begin

text \<open>
  \<^verbatim>\<open>src/book.rs\<close>: the in-memory order book of one market, two ordered maps from the parsed price to
  the level with its original strings. An operation that fails half way leaves the changes it has
  made, as \<^verbatim>\<open>&mut self\<close> does, so \<open>apply_delta\<close> returns the book beside its result.
\<close>

section \<open>The model\<close>

datatype book_error =
    LevelPrice string        \<comment> \<open>parsing price level price\<close>
  | LevelSize string         \<comment> \<open>parsing price level size\<close>
  | SnapshotZeroSize string  \<comment> \<open>snapshot level at price has size zero\<close>

record 'd book =
  book_bids :: "('d, price_level) btree"
  book_asks :: "('d, price_level) btree"

definition book_default :: "'d book" where
  "book_default = \<lparr>book_bids = [], book_asks = []\<rparr>"

definition parse_level :: "('d, 't, 'f) libs \<Rightarrow> price_level \<Rightarrow> book_error + 'd \<times> 'd" where
  "parse_level L level =
     and_then (ok_or (LevelPrice (level_price level)) (dec_from_str L (level_price level)))
       (\<lambda>price. and_then (ok_or (LevelSize (level_size level)) (dec_from_str L (level_size level)))
         (\<lambda>sz. Inr (price, sz)))"

fun side_from_levels ::
  "('d::linorder, 't, 'f) libs \<Rightarrow> ('d, price_level) btree \<Rightarrow> price_level list
   \<Rightarrow> book_error + ('d, price_level) btree" where
  "side_from_levels L side [] = Inr side"
| "side_from_levels L side (level # levels) =
     and_then (parse_level L level) (\<lambda>(price, sz).
       if dec_is_zero L sz then Inl (SnapshotZeroSize (level_price level))
       else side_from_levels L (bt_insert price level side) levels)"

definition side_from_snapshot ::
  "('d::linorder, 't, 'f) libs \<Rightarrow> price_level list \<Rightarrow> book_error + ('d, price_level) btree" where
  "side_from_snapshot L levels = side_from_levels L [] levels"

fun apply_side ::
  "('d::linorder, 't, 'f) libs \<Rightarrow> ('d, price_level) btree \<Rightarrow> price_level list
   \<Rightarrow> (book_error + unit) \<times> ('d, price_level) btree" where
  "apply_side L side [] = (Inr (), side)"
| "apply_side L side (level # levels) =
     (case parse_level L level of
        Inl e \<Rightarrow> (Inl e, side)
      | Inr (price, sz) \<Rightarrow>
          apply_side L (if dec_is_zero L sz then bt_remove price side
                        else bt_insert price level side) levels)"

definition from_snapshot ::
  "('d::linorder, 't, 'f) libs \<Rightarrow> price_level list \<Rightarrow> price_level list \<Rightarrow> book_error + 'd book" where
  "from_snapshot L bs as =
     and_then (side_from_snapshot L bs) (\<lambda>b.
     and_then (side_from_snapshot L as) (\<lambda>a. Inr \<lparr>book_bids = b, book_asks = a\<rparr>))"

definition apply_delta ::
  "('d::linorder, 't, 'f) libs \<Rightarrow> 'd book \<Rightarrow> price_level list \<Rightarrow> price_level list
   \<Rightarrow> (book_error + unit) \<times> 'd book" where
  "apply_delta L book bs as =
     (let (r, b) = apply_side L (book_bids book) bs; book1 = book\<lparr>book_bids := b\<rparr>
      in case r of
           Inl e \<Rightarrow> (Inl e, book1)
         | Inr _ \<Rightarrow> (let (r2, a) = apply_side L (book_asks book1) as
                    in (r2, book1\<lparr>book_asks := a\<rparr>)))"

definition bids :: "'d book \<Rightarrow> price_level list" where
  "bids book = rev (bt_values (book_bids book))"

definition asks :: "'d book \<Rightarrow> price_level list" where
  "asks book = bt_values (book_asks book)"

section \<open>The levels as edits\<close>

text \<open>
  What a level asks of a side: remove the price, or set it to the level. A side that applies
  levels is a sequence of such edits on an ordered map.
\<close>

definition level_edit ::
  "('d, 't, 'f) libs \<Rightarrow> price_level \<Rightarrow> book_error + ('d, price_level) edit" where
  "level_edit L level = and_then (parse_level L level)
     (\<lambda>(price, sz). Inr (if dec_is_zero L sz then Del price else Put price level))"

lemma level_edit_Inr:
  "level_edit L level = Inr e \<longleftrightarrow> (\<exists>price sz. parse_level L level = Inr (price, sz)
     \<and> e = (if dec_is_zero L sz then Del price else Put price level))"
  by (auto simp: level_edit_def)

lemma apply_side_ok:
  "apply_side L side levels = (Inr (), side') \<longleftrightarrow>
     (\<exists>es. collect_res (level_edit L) levels = Inr es \<and> side' = fold bt.run_edit es side)"
proof (induction levels arbitrary: side)
  case (Cons level levels)
  show ?case
  proof (cases "parse_level L level")
    case (Inr ps)
    obtain price sz where ps: "ps = (price, sz)" by fastforce
    define e where "e = (if dec_is_zero L sz then Del price else Put price level)"
    have "level_edit L level = Inr e" using Inr ps by (simp add: level_edit_def e_def)
    moreover have "apply_side L side (level # levels) = apply_side L (bt.run_edit e side) levels"
      using Inr ps by (simp add: e_def)
    ultimately show ?thesis by (auto simp: Cons.IH)
  qed (auto simp: level_edit_Inr)
qed auto

lemma apply_side_wf: "bt_wf side \<Longrightarrow> bt_wf (snd (apply_side L side levels))"
  by (induction levels arbitrary: side)
    (auto split: sum.splits simp: bt_wf_insert bt_wf_remove)

text \<open>\<open>level_at L p level\<close>: the level parses, at price \<open>p\<close>, with a size that is not zero.\<close>

definition level_at :: "('d, 't, 'f) libs \<Rightarrow> 'd \<Rightarrow> price_level \<Rightarrow> bool" where
  "level_at L p level \<longleftrightarrow> level_edit L level = Inr (Put p level)"

lemma level_at_iff:
  "level_at L p level \<longleftrightarrow> dec_from_str L (level_price level) = Some p
     \<and> (\<exists>sz. dec_from_str L (level_size level) = Some sz \<and> \<not> dec_is_zero L sz)"
  by (auto simp: level_at_def level_edit_def parse_level_def)

text \<open>A snapshot is applying its levels to the empty side, where no level may have size zero.\<close>

lemma side_from_levels_ok:
  "side_from_levels L side levels = Inr side' \<longleftrightarrow>
     apply_side L side levels = (Inr (), side') \<and> (\<forall>l \<in> set levels. \<exists>p. level_at L p l)"
  by (induction levels arbitrary: side)
    (auto simp: level_at_def level_edit_def and_then_def split: sum.splits if_splits)

section \<open>Invariant\<close>

text \<open>
  Each side is an ordered map, and every entry is a level that parses, at the price it is stored
  under, with a size that is not zero.
\<close>

definition side_inv :: "('d::linorder, 't, 'f) libs \<Rightarrow> ('d, price_level) btree \<Rightarrow> bool" where
  "side_inv L side \<longleftrightarrow> bt_wf side \<and> (\<forall>(p, level) \<in> set side. level_at L p level)"

definition book_inv :: "('d::linorder, 't, 'f) libs \<Rightarrow> 'd book \<Rightarrow> bool" where
  "book_inv L book \<longleftrightarrow> side_inv L (book_bids book) \<and> side_inv L (book_asks book)"

lemma bt_insert_set: "set (bt_insert k v m) \<subseteq> insert (k, v) (set m)"
  by (induction m) auto

lemma bt_remove_set: "set (bt_remove k m) \<subseteq> set m"
  by (induction m) auto

lemma bt_insert_entries: "e \<in> set (bt_insert k v m) \<Longrightarrow> e = (k, v) \<or> e \<in> set m"
  using bt_insert_set by fastforce

lemma side_inv_insert: "side_inv L side \<Longrightarrow> level_at L p level \<Longrightarrow> side_inv L (bt_insert p level side)"
  by (auto simp: side_inv_def bt_wf_insert dest!: bt_insert_entries)

lemma side_inv_remove: "side_inv L side \<Longrightarrow> side_inv L (bt_remove p side)"
  using bt_remove_set by (fastforce simp: side_inv_def bt_wf_remove)

lemma apply_side_inv: "side_inv L side \<Longrightarrow> side_inv L (snd (apply_side L side levels))"
proof (induction levels arbitrary: side)
  case (Cons level levels)
  have "level_at L p level" if "parse_level L level = Inr (p, sz)" "\<not> dec_is_zero L sz" for p sz
    using that by (simp add: level_at_def level_edit_def)
  with Cons show ?case
    by (auto split: sum.splits intro: side_inv_insert side_inv_remove)
qed simp

lemma side_inv_empty [simp]: "side_inv L []"
  by (simp add: side_inv_def bt_wf_def)

lemma from_snapshot_inv: "from_snapshot L bs as = Inr book \<Longrightarrow> book_inv L book"
  using apply_side_inv [of L "[]" bs] apply_side_inv [of L "[]" as]
  by (auto simp: from_snapshot_def side_from_snapshot_def side_from_levels_ok book_inv_def)

lemma apply_delta_inv: "book_inv L book \<Longrightarrow> book_inv L (snd (apply_delta L book bs as))"
  using apply_side_inv [of L "book_bids book" bs] apply_side_inv [of L "book_asks book" as]
  by (auto simp: apply_delta_def book_inv_def Let_def split: prod.splits sum.splits)

lemma apply_delta_ok:
  "apply_delta L book bs as = (Inr (), book') \<longleftrightarrow>
     apply_side L (book_bids book) bs = (Inr (), book_bids book') \<and>
     apply_side L (book_asks book) as = (Inr (), book_asks book')"
  for book book' :: "'d::linorder book"
  by (cases book; cases book')
    (auto simp: apply_delta_def Let_def split: prod.splits sum.splits)

section \<open>Iteration and rebuilding\<close>

lemma apply_side_rebuild:
  assumes inv: "side_inv L side" and ps: "distinct (map fst ps)" "set ps = set side"
  shows "side_from_snapshot L (map snd ps) = Inr side"
proof -
  have at: "level_at L (fst p) (snd p)" if "p \<in> set ps" for p
    using inv that ps(2) by (auto simp: side_inv_def)
  then have "collect_res (level_edit L) (map snd ps) = Inr (map (\<lambda>(k, v). Put k v) ps)"
    by (induction ps) (auto simp: level_at_def)
  moreover have "fold bt.run_edit (map (\<lambda>(k, v). Put k v) ps) [] = side"
    using bt.rebuild [of side ps] inv ps by (simp add: side_inv_def)
  ultimately have "apply_side L [] (map snd ps) = (Inr (), side)"
    by (simp add: apply_side_ok)
  with at show ?thesis
    by (auto simp: side_from_snapshot_def side_from_levels_ok)
qed

lemma side_distinct: "side_inv L side \<Longrightarrow> distinct (map fst side)"
  by (simp add: side_inv_def bt_wf_def strict_sorted_distinct)

lemma from_snapshot_rebuild:
  assumes "book_inv L book"
  shows "from_snapshot L (bids book) (asks book) = Inr book"
proof -
  have b: "side_inv L (book_bids book)" and a: "side_inv L (book_asks book)"
    using assms by (simp_all add: book_inv_def)
  have "side_from_snapshot L (map snd (rev (book_bids book))) = Inr (book_bids book)"
    using side_distinct [OF b] by (intro apply_side_rebuild [OF b]) (simp_all add: rev_map [symmetric])
  moreover have "side_from_snapshot L (map snd (book_asks book)) = Inr (book_asks book)"
    using side_distinct [OF a] by (intro apply_side_rebuild [OF a]) simp_all
  ultimately show ?thesis
    by (simp add: from_snapshot_def bids_def asks_def bt_values_def rev_map)
qed

interpretation bk: snapshot_book "from_snapshot L" "apply_delta L" bids asks "book_inv L"
  for L :: "('d::linorder, 't, 'f) libs"
  by unfold_locales (fact from_snapshot_inv apply_delta_inv from_snapshot_rebuild)+

text \<open>The prices the book lists its levels at.\<close>

definition level_prices :: "('d, 't, 'f) libs \<Rightarrow> price_level list \<Rightarrow> 'd option list" where
  "level_prices L levels = map (\<lambda>l. dec_from_str L (level_price l)) levels"

lemma side_prices: "side_inv L side \<Longrightarrow> level_prices L (bt_values side) = map (\<lambda>e. Some (fst e)) side"
  by (auto simp: level_prices_def bt_values_def side_inv_def level_at_iff)

lemma level_prices_rev: "level_prices L (rev ls) = rev (level_prices L ls)"
  by (simp add: level_prices_def rev_map)

section \<open>The last level of a price wins\<close>

text \<open>
  A specification of a side without its order: what a sequence of levels leaves at price \<open>p\<close> is
  what the last level at \<open>p\<close> says, or the level that was there.
\<close>

definition last_level :: "('d, 't, 'f) libs \<Rightarrow> 'd \<Rightarrow> price_level list \<Rightarrow> price_level option" where
  "last_level L p levels = find (\<lambda>l. dec_from_str L (level_price l) = Some p) (rev levels)"

definition side_after ::
  "('d, 't, 'f) libs \<Rightarrow> ('d \<rightharpoonup> price_level) \<Rightarrow> price_level list \<Rightarrow> ('d \<rightharpoonup> price_level)" where
  "side_after L view levels = (\<lambda>p. case last_level L p levels of
       None \<Rightarrow> view p
     | Some level \<Rightarrow> if level_at L p level then Some level else None)"

lemma fold_edits_after:
  "collect_res (level_edit L) levels = Inr es \<Longrightarrow>
   fold edit_map es view = side_after L view levels"
proof (induction levels arbitrary: es rule: rev_induct)
  case Nil
  then show ?case by (auto simp: side_after_def last_level_def)
next
  case (snoc level levels)
  from snoc.prems obtain es' e where es: "es = es' @ [e]"
    and e: "level_edit L level = Inr e" and es': "collect_res (level_edit L) levels = Inr es'"
    by (auto simp: collect_res_Inr list_all2_append1 list_all2_Cons1)
  from e obtain price sz where
    parse: "dec_from_str L (level_price level) = Some price" "dec_from_str L (level_size level) = Some sz"
    and e': "e = (if dec_is_zero L sz then Del price else Put price level)"
    by (auto simp: level_edit_def parse_level_def)
  have "edit_map e (side_after L view levels) = side_after L view (levels @ [level])"
    using parse e' by (auto simp: fun_eq_iff side_after_def last_level_def level_at_iff)
  with snoc.IH [OF es'] show ?case by (simp add: es)
qed

lemma apply_side_after:
  "bt_wf side \<Longrightarrow> apply_side L side levels = (Inr (), side') \<Longrightarrow>
   map_of side' = side_after L (map_of side) levels"
  using bt.entries_run_edits [of side] fold_edits_after [of L levels _ "map_of side"]
  by (auto simp: apply_side_ok)

text \<open>When levels are accepted.\<close>

lemma apply_side_accepts:
  "(\<exists>side'. apply_side L side levels = (Inr (), side')) \<longleftrightarrow> (\<exists>es. collect_res (level_edit L) levels = Inr es)"
  by (auto simp: apply_side_ok)

lemma side_from_snapshot_accepts:
  "(\<exists>side. side_from_snapshot L levels = Inr side) \<longleftrightarrow> list_all (\<lambda>l. \<exists>p. level_at L p l) levels"
proof
  assume a: "list_all (\<lambda>l. \<exists>p. level_at L p l) levels"
  have "\<exists>es. collect_res (level_edit L) levels = Inr es"
    using a by (induction levels) (auto simp: level_at_def)
  then obtain side where "apply_side L [] levels = (Inr (), side)" using apply_side_accepts by blast
  with a show "\<exists>side. side_from_snapshot L levels = Inr side"
    by (auto simp: side_from_snapshot_def side_from_levels_ok list_all_iff)
qed (auto simp: side_from_snapshot_def side_from_levels_ok list_all_iff)

lemma from_snapshot_Inr:
  "from_snapshot L bs as = Inr book \<longleftrightarrow>
     side_from_snapshot L bs = Inr (book_bids book) \<and> side_from_snapshot L as = Inr (book_asks book)"
  for book :: "'d::linorder book"
  by (cases book) (auto simp: from_snapshot_def)

lemma apply_delta_accepts:
  "(\<exists>book'. apply_delta L book bs as = (Inr (), book')) \<longleftrightarrow>
     (\<exists>es. collect_res (level_edit L) bs = Inr es) \<and> (\<exists>es. collect_res (level_edit L) as = Inr es)"
proof -
  have "(\<exists>book'. apply_delta L book bs as = (Inr (), book')) \<longleftrightarrow>
    (\<exists>b a. apply_side L (book_bids book) bs = (Inr (), b) \<and> apply_side L (book_asks book) as = (Inr (), a))"
    by (auto simp: apply_delta_def Let_def split: prod.splits sum.splits)
  then show ?thesis using apply_side_accepts by metis
qed

end
