(* ===== verification/Feed.thy ===== *)
theory Feed
  imports Book Models
begin

text \<open>
  \<^verbatim>\<open>src/ws.rs\<close>, the handlers of one WebSocket connection: order-book messages with the nonce chain,
  trade messages, periodic snapshots. \<open>conn\<close> is what a connection keeps: the books, the rows it has
  handed to the writer channel (in order), the frames it has written to the socket (in order), how
  many more writes the socket takes before it breaks (\<open>None\<close>: it does not), and whether the writer
  still receives. A handler returns its result beside the state it leaves.
\<close>

section \<open>State\<close>

datatype ws_error =
    WsConnect
  | SubscribeFailed string
  | StreamEnded
  | WsRead
  | WsClosed
  | FrameJson string
  | SendPong
  | SendKeepalive
  | ResubscribeFailed string string
  | BookForUnknownMarket int
  | ChannelClosed
  | DecodeOrderbook
  | OrderbookMarketId
  | BadMicros int
  | BuildingBook int book_error
  | DeltaBeforeSnapshot int
  | NonceGap int int int
  | TimeBackwards int
  | ApplyingDelta int book_error
  | DecodeTrade
  | TradeMarketId
  | BadMillis int
  | TradePrice string
  | TradeSize string

record ('d, 't) market_book =
  mb_nonce :: int
  mb_source_time :: 't
  mb_book :: "'d book"

type_synonym ('d, 't) markets = "int \<rightharpoonup> ('d, 't) market_book"

datatype out_frame =
    OutText json     \<comment> \<open>\<^verbatim>\<open>Message::Text\<close> of a JSON value\<close>
  | OutPing          \<comment> \<open>\<^verbatim>\<open>Message::Ping(Vec::new())\<close>\<close>

record ('d, 't, 'f) conn =
  cn_markets :: "('d, 't) markets"
  cn_rows :: "('t, 'f) write_msg list"
  cn_tx_open :: bool
  cn_frames :: "out_frame list"
  cn_sink :: "nat option"

text \<open>A handler: the connection before to its result and the connection after.\<close>

type_synonym ('d, 't, 'f) handler =
  "('d, 't, 'f) conn \<Rightarrow> (ws_error + unit) \<times> ('d, 't, 'f) conn"

definition tx_send :: "('t, 'f) write_msg \<Rightarrow> ('d, 't, 'f) handler" where
  "tx_send m c = (if cn_tx_open c then (Inr (), c\<lparr>cn_rows := cn_rows c @ [m]\<rparr>)
                  else (Inl ChannelClosed, c))"

section \<open>Order-book messages\<close>

definition micros_to_datetime :: "('d, 't, 'f) libs \<Rightarrow> int \<Rightarrow> ws_error + 't" where
  "micros_to_datetime L micros = ok_or (BadMicros micros) (from_micros L micros)"

definition millis_to_datetime :: "('d, 't, 'f) libs \<Rightarrow> int \<Rightarrow> ws_error + 't" where
  "millis_to_datetime L millis = ok_or (BadMillis millis) (from_millis L millis)"

definition orderbook_row ::
  "('d, 't, 'f) libs \<Rightarrow> int \<Rightarrow> string \<Rightarrow> int option \<Rightarrow> int \<Rightarrow> order_book_side_levels
   \<Rightarrow> ws_error + 't ob_row" where
  "orderbook_row L symbol message_type begin_nonce last_updated_at order_book =
     and_then (micros_to_datetime L last_updated_at) (\<lambda>time.
       Inr \<lparr>obr_time = time, obr_symbol = symbol, obr_type = message_type,
            obr_sequence = Some (ob_nonce order_book),
            obr_bids = ser_levels (ob_bids order_book),
            obr_asks = ser_levels (ob_asks order_book),
            obr_begin_nonce = begin_nonce\<rparr>)"

definition book_snapshot_row :: "int \<Rightarrow> ('d, 't) market_book \<Rightarrow> 't ob_row" where
  "book_snapshot_row symbol market =
     \<lparr>obr_time = mb_source_time market, obr_symbol = symbol, obr_type = ''snapshot'',
      obr_sequence = Some (mb_nonce market),
      obr_bids = ser_levels (bids (mb_book market)),
      obr_asks = ser_levels (asks (mb_book market)),
      obr_begin_nonce = None\<rparr>"

text \<open>A snapshot replaces the book; a delta must continue the nonce chain.\<close>

fun apply_orderbook_message ::
  "('d::linorder, 't::linorder, 'f) libs \<Rightarrow> int \<Rightarrow> int \<Rightarrow> order_book_ws_message
   \<Rightarrow> ('d, 't) markets \<Rightarrow> (ws_error + 't ob_row) \<times> ('d, 't) markets" where
  "apply_orderbook_message L symbol market_id (ObSubscribed _ last_updated_at order_book) markets =
     (case micros_to_datetime L last_updated_at of
        Inl e \<Rightarrow> (Inl e, markets)
      | Inr source_time \<Rightarrow>
          (case from_snapshot L (ob_bids order_book) (ob_asks order_book) of
             Inl e \<Rightarrow> (Inl (BuildingBook market_id e), markets)
           | Inr book \<Rightarrow>
               (orderbook_row L symbol ''snapshot'' None last_updated_at order_book,
                markets(market_id \<mapsto> \<lparr>mb_nonce = ob_nonce order_book,
                                     mb_source_time = source_time, mb_book = book\<rparr>))))"
| "apply_orderbook_message L symbol market_id (ObUpdate _ last_updated_at order_book) markets =
     (case markets market_id of
        None \<Rightarrow> (Inl (DeltaBeforeSnapshot market_id), markets)
      | Some market \<Rightarrow>
          if ob_begin_nonce order_book \<noteq> mb_nonce market then
            (Inl (NonceGap market_id (ob_begin_nonce order_book) (mb_nonce market)), markets)
          else (case micros_to_datetime L last_updated_at of
            Inl e \<Rightarrow> (Inl e, markets)
          | Inr source_time \<Rightarrow>
              if source_time < mb_source_time market then (Inl (TimeBackwards market_id), markets)
              else (case apply_delta L (mb_book market) (ob_bids order_book) (ob_asks order_book) of
                (Inl e, book) \<Rightarrow>
                  (Inl (ApplyingDelta market_id e), markets(market_id \<mapsto> market\<lparr>mb_book := book\<rparr>))
              | (Inr _, book) \<Rightarrow>
                  (orderbook_row L symbol ''delta'' (Some (ob_begin_nonce order_book))
                     last_updated_at order_book,
                   markets(market_id \<mapsto> market\<lparr>mb_book := book, mb_nonce := ob_nonce order_book,
                                               mb_source_time := source_time\<rparr>)))))"

definition handle_orderbook_frame ::
  "('d::linorder, 't::linorder, 'f) libs \<Rightarrow> (int \<rightharpoonup> int) \<Rightarrow> json \<Rightarrow> ('d, 't, 'f) handler" where
  "handle_orderbook_frame L symbol_cache value c =
     (case de_order_book_ws_message value of
        None \<Rightarrow> (Inl DecodeOrderbook, c)
      | Some parsed \<Rightarrow>
          (case ob_market_id parsed of
             None \<Rightarrow> (Inl OrderbookMarketId, c)
           | Some market_id \<Rightarrow>
               (case symbol_cache market_id of
                  None \<Rightarrow> (Inr (), c)
                | Some symbol \<Rightarrow>
                    (case apply_orderbook_message L symbol market_id parsed (cn_markets c) of
                       (Inl e, ms) \<Rightarrow> (Inl e, c\<lparr>cn_markets := ms\<rparr>)
                     | (Inr row, ms) \<Rightarrow> tx_send (WOrderbook row) (c\<lparr>cn_markets := ms\<rparr>)))))"

section \<open>Periodic snapshots\<close>

text \<open>\<^verbatim>\<open>for (market_id, market) in markets\<close>: a \<^verbatim>\<open>HashMap\<close> lists its entries in an order of its own,
  so the order is an argument.\<close>

fun write_periodic_snapshots ::
  "(int \<rightharpoonup> int) \<Rightarrow> int list \<Rightarrow> ('d, 't, 'f) handler" where
  "write_periodic_snapshots symbol_cache [] c = (Inr (), c)"
| "write_periodic_snapshots symbol_cache (market_id # ids) c =
     (case cn_markets c market_id of
        None \<Rightarrow> write_periodic_snapshots symbol_cache ids c
      | Some market \<Rightarrow>
          (case symbol_cache market_id of
             None \<Rightarrow> (Inl (BookForUnknownMarket market_id), c)
           | Some symbol \<Rightarrow>
               (case tx_send (WOrderbook (book_snapshot_row symbol market)) c of
                  (Inl e, c') \<Rightarrow> (Inl e, c')
                | (Inr _, c') \<Rightarrow> write_periodic_snapshots symbol_cache ids c')))"

definition iteration_order :: "int list \<Rightarrow> ('d, 't) markets \<Rightarrow> bool" where
  "iteration_order ids markets \<longleftrightarrow> distinct ids \<and> set ids = dom markets"

definition missing_books :: "int list \<Rightarrow> ('d, 't) markets \<Rightarrow> int list" where
  "missing_books market_ids markets = filter (\<lambda>m. markets m = None) market_ids"

section \<open>Trade messages\<close>

definition trade_row :: "('d, 't, 'f) libs \<Rightarrow> trade \<Rightarrow> int \<Rightarrow> ws_error + ('t, 'f) trade_row" where
  "trade_row L trade symbol =
     and_then (millis_to_datetime L (tr_timestamp trade)) (\<lambda>time.
     and_then (ok_or (TradePrice (tr_price trade)) (parse_f64 L (tr_price trade))) (\<lambda>price.
     and_then (ok_or (TradeSize (tr_size trade)) (parse_f64 L (tr_size trade))) (\<lambda>sz.
       Inr \<lparr>tw_time = time, tw_symbol = symbol, tw_trade_id = trade_id trade, tw_price = price,
            tw_size = sz, tw_is_maker_ask = tr_is_maker_ask trade, tw_type = tr_type trade\<rparr>)))"

fun send_trades :: "('d, 't, 'f) libs \<Rightarrow> int \<Rightarrow> trade list \<Rightarrow> ('d, 't, 'f) handler" where
  "send_trades L symbol [] c = (Inr (), c)"
| "send_trades L symbol (trade # ts) c =
     (case trade_row L trade symbol of
        Inl e \<Rightarrow> (Inl e, c)
      | Inr row \<Rightarrow>
          (case tx_send (WTrade row) c of
             (Inl e, c') \<Rightarrow> (Inl e, c')
           | (Inr _, c') \<Rightarrow> send_trades L symbol ts c'))"

definition handle_trade_frame ::
  "('d, 't, 'f) libs \<Rightarrow> (int \<rightharpoonup> int) \<Rightarrow> json \<Rightarrow> ('d, 't, 'f) handler" where
  "handle_trade_frame L symbol_cache value c =
     (case de_trade_ws_message value of
        None \<Rightarrow> (Inl DecodeTrade, c)
      | Some parsed \<Rightarrow>
          (case tr_ws_market_id parsed of
             None \<Rightarrow> (Inl TradeMarketId, c)
           | Some market_id \<Rightarrow>
               (case symbol_cache market_id of
                  None \<Rightarrow> (Inr (), c)
                | Some symbol \<Rightarrow>
                    (let (trades, liquidation_trades) = tr_trades parsed
                     in send_trades L symbol (trades @ liquidation_trades) c))))"

end
