(* ===== verification/Feed_Log.thy ===== *)
theory Feed_Log
  imports Feed
begin

text \<open>
  The rows one connection hands to the writer, as the log of each symbol: they form one chain, and a
  reader that replays them holds the book that the connection holds. The invariant \<open>feed_inv\<close> says so of
  a connection; each handler keeps it.
\<close>

section \<open>Rows as a log\<close>

definition rows_of :: "int \<Rightarrow> ('t, 'f) write_msg list \<Rightarrow> 't ob_row list" where
  "rows_of symbol ms = filter (\<lambda>r. obr_symbol r = symbol) (orderbooks_of ms)"

definition to_log :: "'t ob_row \<Rightarrow> price_level log_row option" where
  "to_log row =
     (case (obr_sequence row, de_levels (obr_bids row), de_levels (obr_asks row)) of
        (Some n, Some bs, Some as) \<Rightarrow>
          (if obr_type row = ''snapshot'' then Some (SnapRow n bs as)
           else if obr_type row = ''delta'' then
             map_option (\<lambda>k. DeltaRow k n bs as) (obr_begin_nonce row)
           else None)
      | _ \<Rightarrow> None)"

text \<open>What a reader of rows arrives at: \<open>None\<close> when it meets a row it cannot follow.\<close>

definition read_rows ::
  "('d::linorder, 't, 'f) libs \<Rightarrow> 't ob_row list \<Rightarrow> (int \<times> 'd book) option option" where
  "read_rows L rows =
     (case seq_opt to_log rows of
        None \<Rightarrow> None
      | Some log \<Rightarrow> (case replay (from_snapshot L) (apply_delta L) None log of
          Inl _ \<Rightarrow> None
        | Inr st \<Rightarrow> Some st))"

definition market_state :: "('d, 't) market_book \<Rightarrow> int \<times> 'd book" where
  "market_state m = (mb_nonce m, mb_book m)"

text \<open>Two neighbouring rows of a symbol: a snapshot follows anything and has no begin nonce; a delta
  continues from the sequence of the row before it and is not older.\<close>

definition row_link :: "'t::linorder ob_row \<Rightarrow> 't ob_row \<Rightarrow> bool" where
  "row_link a b \<longleftrightarrow>
     obr_type b = ''snapshot'' \<and> obr_begin_nonce b = None
   \<or> obr_type b = ''delta'' \<and> obr_begin_nonce b \<noteq> None \<and> obr_begin_nonce b = obr_sequence a
     \<and> obr_time a \<le> obr_time b"

definition chained :: "'t::linorder ob_row list \<Rightarrow> bool" where
  "chained rows \<longleftrightarrow> successively row_link rows
     \<and> (rows \<noteq> [] \<longrightarrow> obr_type (hd rows) = ''snapshot'' \<and> obr_begin_nonce (hd rows) = None)"

lemma rows_of_simps [simp]:
  "rows_of s [] = []"
  "rows_of s (ms @ ns) = rows_of s ms @ rows_of s ns"
  "rows_of s (WTrade t # ms) = rows_of s ms"
  "rows_of s (WOrderbook r # ms) = (if obr_symbol r = s then [r] else []) @ rows_of s ms"
  by (simp_all add: rows_of_def)

lemma chained_snoc:
  "chained (rows @ [r]) \<longleftrightarrow> chained rows
     \<and> (if rows = [] then obr_type r = ''snapshot'' \<and> obr_begin_nonce r = None
        else row_link (last rows) r)"
  by (auto simp: chained_def successively_append_iff)

lemma seq_opt_append:
  "seq_opt f (xs @ ys) =
     (case seq_opt f xs of None \<Rightarrow> None | Some us \<Rightarrow> map_option ((@) us) (seq_opt f ys))"
  by (cases "seq_opt f ys"; induction xs) (auto split: option.splits)

lemma read_rows_snoc:
  assumes "read_rows L rows = Some st" and "to_log row = Some r"
    and "advance (from_snapshot L) (apply_delta L) st r = Inr s"
  shows "read_rows L (rows @ [row]) = Some (Some s)"
proof -
  obtain log where "seq_opt to_log rows = Some log"
    and "replay (from_snapshot L) (apply_delta L) None log = Inr st"
    using assms(1) by (auto simp: read_rows_def split: option.splits sum.splits)
  with assms(2,3) show ?thesis by (simp add: read_rows_def seq_opt_append replay_append)
qed

section \<open>The invariant\<close>

definition market_ok ::
  "('d::linorder, 't::linorder, 'f) libs \<Rightarrow> 't ob_row list \<Rightarrow> ('d, 't) market_book option \<Rightarrow> bool" where
  "market_ok L rows m \<longleftrightarrow>
     read_rows L rows = Some (map_option market_state m)
   \<and> chained rows
   \<and> (case m of
        None \<Rightarrow> rows = []
      | Some mk \<Rightarrow> rows \<noteq> [] \<and> obr_time (last rows) = mb_source_time mk
          \<and> obr_sequence (last rows) = Some (mb_nonce mk) \<and> book_inv L (mb_book mk))"

definition feed_inv ::
  "('d::linorder, 't::linorder, 'f) libs \<Rightarrow> (int \<rightharpoonup> int) \<Rightarrow> ('d, 't, 'f) conn \<Rightarrow> bool" where
  "feed_inv L symbol_cache c \<longleftrightarrow>
     dom (cn_markets c) \<subseteq> dom symbol_cache
   \<and> (\<forall>market_id symbol. symbol_cache market_id = Some symbol \<longrightarrow>
        market_ok L (rows_of symbol (cn_rows c)) (cn_markets c market_id))"

lemma feed_inv_market:
  "feed_inv L cache c \<Longrightarrow> cache k = Some s \<Longrightarrow>
   market_ok L (rows_of s (cn_rows c)) (cn_markets c k)"
  by (simp add: feed_inv_def)

lemma market_ok_init [simp]: "market_ok L [] None"
  by (simp add: market_ok_def read_rows_def chained_def)

text \<open>A row that takes the market from \<open>m\<close> to \<open>m'\<close>.\<close>

definition emits ::
  "('d::linorder, 't::linorder, 'f) libs \<Rightarrow> ('d, 't) market_book option \<Rightarrow> 't ob_row
   \<Rightarrow> ('d, 't) market_book \<Rightarrow> bool" where
  "emits L m row m' \<longleftrightarrow>
     (\<exists>r. to_log row = Some r \<and>
        advance (from_snapshot L) (apply_delta L) (map_option market_state m) r
          = Inr (market_state m'))
   \<and> obr_time row = mb_source_time m' \<and> obr_sequence row = Some (mb_nonce m')
   \<and> (obr_type row = ''snapshot'' \<and> obr_begin_nonce row = None
      \<or> obr_type row = ''delta'' \<and> (\<exists>mk. m = Some mk \<and> obr_begin_nonce row = Some (mb_nonce mk)
            \<and> mb_source_time mk \<le> obr_time row))"

lemma market_ok_emit:
  assumes ok: "market_ok L rows m" and em: "emits L m row m'"
  shows "market_ok L (rows @ [row]) (Some m')"
proof -
  obtain r where r: "to_log row = Some r"
    and adv: "advance (from_snapshot L) (apply_delta L) (map_option market_state m) r = Inr (market_state m')"
    using em by (auto simp: emits_def)
  have "read_rows L (rows @ [row]) = Some (Some (market_state m'))"
    using ok r adv by (intro read_rows_snoc) (auto simp: market_ok_def)
  moreover have "book_inv L (mb_book m')"
  proof (rule bk.advance_inv)
    show "advance (from_snapshot L) (apply_delta L) (map_option market_state m) r = Inr (mb_nonce m', mb_book m')"
      using adv by (simp add: market_state_def)
  qed (use ok in \<open>auto simp: market_ok_def market_state_def split: option.splits\<close>)
  moreover have "chained (rows @ [row])"
    using ok em by (auto simp: market_ok_def emits_def chained_snoc row_link_def split: option.splits)
  ultimately show ?thesis
    using em by (simp add: market_ok_def emits_def)
qed

lemma feed_inv_emit:
  assumes inv: "feed_inv L cache c" and inj: "inj_on cache (dom cache)"
    and s: "cache k = Some (obr_symbol row)" and em: "emits L (cn_markets c k) row m'"
  shows "feed_inv L cache (c\<lparr>cn_markets := (cn_markets c)(k \<mapsto> m'), cn_rows := cn_rows c @ [WOrderbook row]\<rparr>)"
proof -
  have "market_ok L (rows_of s' (cn_rows c) @ (if obr_symbol row = s' then [row] else []))
          (((cn_markets c)(k \<mapsto> m')) k')" if "cache k' = Some s'" for k' s'
  proof (cases "k' = k")
    case True
    with market_ok_emit [OF feed_inv_market [OF inv s] em] that s show ?thesis by simp
  next
    case False
    with that s inj have "obr_symbol row \<noteq> s'" by (auto simp: inj_on_def dom_def)
    with False that inv show ?thesis by (simp add: feed_inv_def)
  qed
  with inv s show ?thesis by (auto simp: feed_inv_def)
qed

lemma feed_inv_cong:
  "cn_markets c' = cn_markets c \<Longrightarrow> orderbooks_of (cn_rows c') = orderbooks_of (cn_rows c) \<Longrightarrow>
   feed_inv L cache c' = feed_inv L cache c"
  by (simp add: feed_inv_def rows_of_def)

section \<open>The handlers\<close>

lemma apply_emits:
  assumes "apply_orderbook_message L symbol k msg ms = (Inr row, ms')"
  shows "\<exists>m'. ms' = ms(k \<mapsto> m') \<and> emits L (ms k) row m' \<and> obr_symbol row = symbol"
proof (cases msg)
  case (ObSubscribed ch at ob)
  with assms show ?thesis
    by (auto simp: orderbook_row_def emits_def to_log_def market_state_def split: sum.splits)
next
  case (ObUpdate ch at ob)
  with assms show ?thesis
    by (auto simp: orderbook_row_def emits_def to_log_def market_state_def
        split: option.splits sum.splits if_splits prod.splits)
qed

lemma tx_send_ok: "tx_send m c = (Inr (), c') \<longleftrightarrow> cn_tx_open c \<and> c' = c\<lparr>cn_rows := cn_rows c @ [m]\<rparr>"
  by (auto simp: tx_send_def)

lemma handle_orderbook_ok:
  assumes "handle_orderbook_frame L cache value c = (Inr (), c')"
  shows "c' = c \<or> (\<exists>k row m'. cache k = Some (obr_symbol row) \<and> emits L (cn_markets c k) row m'
     \<and> c' = c\<lparr>cn_markets := (cn_markets c)(k \<mapsto> m'), cn_rows := cn_rows c @ [WOrderbook row]\<rparr>)"
  using assms
  by (fastforce simp: handle_orderbook_frame_def tx_send_ok
      split: option.splits prod.splits sum.splits dest: apply_emits)

lemma handle_orderbook_inv:
  "feed_inv L cache c \<Longrightarrow> inj_on cache (dom cache) \<Longrightarrow>
   handle_orderbook_frame L cache value c = (Inr (), c') \<Longrightarrow> feed_inv L cache c'"
  by (auto dest!: handle_orderbook_ok intro: feed_inv_emit)

lemma book_snapshot_emits:
  assumes "book_inv L (mb_book m)"
  shows "emits L (Some m) (book_snapshot_row symbol m) m"
  using bk.advance_relist [OF assms, of "Some (market_state m)" "mb_nonce m"]
  by (simp add: emits_def book_snapshot_row_def to_log_def market_state_def del: advance.simps)

lemma periodic_inv:
  assumes "feed_inv L cache c" and "inj_on cache (dom cache)"
  shows "feed_inv L cache (snd (write_periodic_snapshots cache ids c))"
  using assms(1)
proof (induction ids arbitrary: c)
  case (Cons k ids)
  show ?case
  proof (cases "cn_markets c k")
    case (Some m)
    then obtain s where s: "cache k = Some s" using Cons.prems by (auto simp: feed_inv_def)
    then have "book_inv L (mb_book m)"
      using feed_inv_market [OF Cons.prems s] Some by (simp add: market_ok_def)
    then have "emits L (cn_markets c k) (book_snapshot_row s m) m"
      using Some by (simp add: book_snapshot_emits)
    moreover have "(cn_markets c)(k \<mapsto> m) = cn_markets c" using Some by auto
    ultimately have "feed_inv L cache (c\<lparr>cn_rows := cn_rows c @ [WOrderbook (book_snapshot_row s m)]\<rparr>)"
      using feed_inv_emit [OF Cons.prems assms(2), of k "book_snapshot_row s m" m] s
      by (simp add: book_snapshot_row_def)
    with Cons Some s show ?thesis by (simp add: tx_send_def)
  qed (use Cons in simp)
qed simp

lemma send_trades_frame:
  "send_trades L symbol ts c = (r, c') \<Longrightarrow>
   \<exists>rows. c' = c\<lparr>cn_rows := cn_rows c @ map WTrade rows\<rparr> \<and> (\<forall>row \<in> set rows. tw_symbol row = symbol)"
proof (induction ts arbitrary: c)
  case Nil
  then show ?case by (auto intro: exI [of _ "[]"])
next
  case (Cons t ts)
  show ?case
  proof (cases "trade_row L t symbol")
    case (Inl e)
    with Cons.prems show ?thesis by (auto intro: exI [of _ "[]"])
  next
    case (Inr row)
    then have sym: "tw_symbol row = symbol" by (auto simp: trade_row_def)
    show ?thesis
    proof (cases "cn_tx_open c")
      case True
      with Cons.prems Inr have "send_trades L symbol ts (c\<lparr>cn_rows := cn_rows c @ [WTrade row]\<rparr>) = (r, c')"
        by (simp add: tx_send_def)
      from Cons.IH [OF this] obtain rows where
        "c' = c\<lparr>cn_rows := (cn_rows c @ [WTrade row]) @ map WTrade rows\<rparr>"
        and "\<forall>row \<in> set rows. tw_symbol row = symbol" by auto
      with sym show ?thesis by (intro exI [of _ "row # rows"]) simp
    qed (use Cons.prems Inr in \<open>auto simp: tx_send_def intro: exI [of _ "[]"]\<close>)
  qed
qed

lemma orderbooks_of_trades [simp]: "orderbooks_of (map WTrade rows) = []"
  by (induction rows) simp_all

lemma trades_of_trades [simp]: "trades_of (map WTrade rows) = rows"
  by (induction rows) simp_all

lemma handle_trade_frame_rows:
  assumes "handle_trade_frame L cache value c = (r, c')"
  shows "\<exists>rows. c' = c\<lparr>cn_rows := cn_rows c @ map WTrade rows\<rparr>
     \<and> (\<forall>row \<in> set rows. tw_symbol row \<in> ran cache)"
proof -
  consider "c' = c" | k s ts where "cache k = Some s" "send_trades L s ts c = (r, c')"
    using assms by (auto simp: handle_trade_frame_def split: option.splits prod.splits)
  then show ?thesis
  proof cases
    case 1
    then show ?thesis by (auto intro: exI [of _ "[]"])
  next
    case 2
    from 2(1) have "s \<in> ran cache" by (rule ranI)
    with send_trades_frame [OF 2(2)] show ?thesis by metis
  qed
qed

lemma handle_trade_inv:
  "feed_inv L cache c \<Longrightarrow> handle_trade_frame L cache value c = (r, c') \<Longrightarrow> feed_inv L cache c'"
  using feed_inv_cong [of c' c L cache] by (auto dest!: handle_trade_frame_rows)

text \<open>With the channel open, a snapshot tick writes a row for each book and changes nothing else.\<close>

lemma periodic_ok:
  assumes "dom (cn_markets c) \<subseteq> dom cache" and "cn_tx_open c" and "set ids \<subseteq> dom (cn_markets c)"
  shows "write_periodic_snapshots cache ids c = (Inr (), c\<lparr>cn_rows := cn_rows c
      @ map (\<lambda>k. WOrderbook (book_snapshot_row (the (cache k)) (the (cn_markets c k)))) ids\<rparr>)"
  using assms
proof (induction ids arbitrary: c)
  case (Cons k ids)
  then obtain m where m: "cn_markets c k = Some m" by auto
  with Cons.prems obtain s where s: "cache k = Some s" by blast
  let ?c1 = "c\<lparr>cn_rows := cn_rows c @ [WOrderbook (book_snapshot_row s m)]\<rparr>"
  have "write_periodic_snapshots cache ids ?c1 = (Inr (), ?c1\<lparr>cn_rows := cn_rows ?c1
      @ map (\<lambda>k. WOrderbook (book_snapshot_row (the (cache k)) (the (cn_markets ?c1 k)))) ids\<rparr>)"
    using Cons.prems by (intro Cons.IH) simp_all
  with m s Cons.prems(2) show ?case by (simp add: tx_send_def)
qed simp

lemma periodic_frame:
  "write_periodic_snapshots cache ids c = (r, c') \<Longrightarrow>
   cn_markets c' = cn_markets c \<and> cn_frames c' = cn_frames c \<and> cn_tx_open c' = cn_tx_open c"
proof (induction ids arbitrary: c)
  case (Cons k ids)
  from Cons.prems show ?case
    by (auto simp: tx_send_def split: option.splits if_splits dest: Cons.IH)
qed simp

section \<open>Trades\<close>

text \<open>The trades of a list up to the first that is no row, as rows.\<close>

fun row_prefix :: "('d, 't, 'f) libs \<Rightarrow> int \<Rightarrow> trade list \<Rightarrow> ('t, 'f) trade_row list" where
  "row_prefix L symbol [] = []"
| "row_prefix L symbol (t # ts) =
     (case trade_row L t symbol of Inl e \<Rightarrow> [] | Inr row \<Rightarrow> row # row_prefix L symbol ts)"

lemma send_trades_rows:
  "cn_tx_open c \<Longrightarrow> send_trades L symbol ts c =
     (and_then (collect_res (\<lambda>t. trade_row L t symbol) ts) (\<lambda>rows. Inr ()),
      c\<lparr>cn_rows := cn_rows c @ map WTrade (row_prefix L symbol ts)\<rparr>)"
proof (induction ts arbitrary: c)
  case (Cons t ts)
  show ?case
  proof (cases "trade_row L t symbol")
    case (Inr row)
    have "send_trades L symbol ts (c\<lparr>cn_rows := cn_rows c @ [WTrade row]\<rparr>)
      = (and_then (collect_res (\<lambda>t. trade_row L t symbol) ts) (\<lambda>rows. Inr ()),
         c\<lparr>cn_rows := cn_rows c @ [WTrade row] @ map WTrade (row_prefix L symbol ts)\<rparr>)"
      using Cons by simp
    with Inr Cons.prems show ?thesis
      by (cases "collect_res (\<lambda>t. trade_row L t symbol) ts") (simp_all add: tx_send_def)
  qed simp
qed simp

lemma row_prefix_all: "collect_res (\<lambda>t. trade_row L t symbol) ts = Inr rows \<Longrightarrow> row_prefix L symbol ts = rows"
  by (induction ts arbitrary: rows) auto

end
