(* ===== verification/Session.thy ===== *)
theory Session
  imports Feed_Log
begin

text \<open>
  \<^verbatim>\<open>run_ws_ingestion\<close> of \<^verbatim>\<open>src/ws.rs\<close>: one WebSocket connection from its subscriptions to the error
  that ends it. The \<^verbatim>\<open>tokio::select!\<close> loop is a step on one event, the branch that fires: a frame from
  the socket or a tick of one of the three timers. Which branch fires when is the environment's
  choice, so a run is a list of events.
\<close>

section \<open>Events and frames\<close>

datatype ws_message =
    MsgText string
  | MsgClose
  | MsgOther           \<comment> \<open>binary, ping, pong, raw frame\<close>

text \<open>\<^verbatim>\<open>read.next().await\<close>: nothing more, an error, or a message.\<close>

datatype ws_item = StreamEnd | ReadError | Item ws_message

datatype event =
    Frame ws_item
  | SnapshotTick "int list"    \<comment> \<open>the order in which the map of books lists its markets\<close>
  | KeepaliveTick
  | BookCheckTick

definition ws_write :: "ws_error \<Rightarrow> out_frame \<Rightarrow> ('d, 't, 'f) handler" where
  "ws_write err f c =
     (case cn_sink c of
        Some 0 \<Rightarrow> (Inl err, c)
      | n \<Rightarrow> (Inr (), c\<lparr>cn_frames := cn_frames c @ [f], cn_sink := map_option (\<lambda>k. k - 1) n\<rparr>))"

fun ws_write_all :: "(ws_error \<times> out_frame) list \<Rightarrow> ('d, 't, 'f) handler" where
  "ws_write_all [] c = (Inr (), c)"
| "ws_write_all ((err, f) # fs) c =
     (case ws_write err f c of
        (Inl e, c') \<Rightarrow> (Inl e, c')
      | (Inr _, c') \<Rightarrow> ws_write_all fs c')"

text \<open>\<^verbatim>\<open>json!({"type": ty, "channel": channel})\<close>: the members of the object in key order.\<close>

definition sub_frame :: "string \<Rightarrow> string \<Rightarrow> out_frame" where
  "sub_frame ty channel = OutText (JObj [(''channel'', JStr channel), (''type'', JStr ty)])"

definition pong_frame :: out_frame where
  "pong_frame = OutText (JObj [(''type'', JStr ''pong'')])"

definition orderbook_channel :: "int \<Rightarrow> string" where
  "orderbook_channel market_id = ''order_book/'' @ show_int market_id"

definition trade_channel :: "int \<Rightarrow> string" where
  "trade_channel market_id = ''trade/'' @ show_int market_id"

definition subscriptions :: "int list \<Rightarrow> (ws_error \<times> out_frame) list" where
  "subscriptions market_ids = concat (map (\<lambda>market_id.
     map (\<lambda>channel. (SubscribeFailed channel, sub_frame ''subscribe'' channel))
       [orderbook_channel market_id, trade_channel market_id]) market_ids)"

definition resubscriptions :: "int list \<Rightarrow> (ws_error \<times> out_frame) list" where
  "resubscriptions missing = concat (map (\<lambda>market_id.
     let channel = orderbook_channel market_id
     in map (\<lambda>ty. (ResubscribeFailed ty channel, sub_frame ty channel))
          [''unsubscribe'', ''subscribe'']) missing)"

section \<open>The loop\<close>

definition frame_type :: "json \<Rightarrow> string" where
  "frame_type value = (case json_get ''type'' value of Some (JStr ty) \<Rightarrow> ty | _ \<Rightarrow> '''')"

definition handle_value ::
  "('d::linorder, 't::linorder, 'f) libs \<Rightarrow> (int \<rightharpoonup> int) \<Rightarrow> json \<Rightarrow> ('d, 't, 'f) handler" where
  "handle_value L symbol_cache value c =
     (let ty = frame_type value in
      if json_get ''error'' value \<noteq> None then (Inr (), c)
      else if ends_with ty ''order_book'' then handle_orderbook_frame L symbol_cache value c
      else if ends_with ty ''trade'' then handle_trade_frame L symbol_cache value c
      else if ty = ''ping'' then ws_write SendPong pong_frame c
      else (Inr (), c))"

fun on_event ::
  "('d::linorder, 't::linorder, 'f) libs \<Rightarrow> int list \<Rightarrow> (int \<rightharpoonup> int) \<Rightarrow> event
   \<Rightarrow> ('d, 't, 'f) handler" where
  "on_event L market_ids symbol_cache (Frame StreamEnd) c = (Inl StreamEnded, c)"
| "on_event L market_ids symbol_cache (Frame ReadError) c = (Inl WsRead, c)"
| "on_event L market_ids symbol_cache (Frame (Item MsgClose)) c = (Inl WsClosed, c)"
| "on_event L market_ids symbol_cache (Frame (Item MsgOther)) c = (Inr (), c)"
| "on_event L market_ids symbol_cache (Frame (Item (MsgText text))) c =
     (case json_from_str L text of
        None \<Rightarrow> (Inl (FrameJson text), c)
      | Some value \<Rightarrow> handle_value L symbol_cache value c)"
| "on_event L market_ids symbol_cache (SnapshotTick ids) c = write_periodic_snapshots symbol_cache ids c"
| "on_event L market_ids symbol_cache KeepaliveTick c = ws_write SendKeepalive OutPing c"
| "on_event L market_ids symbol_cache BookCheckTick c =
     ws_write_all (resubscriptions (missing_books market_ids (cn_markets c))) c"

text \<open>The loop over a list of events: it stops at the first error. A result \<open>Inr ()\<close> says that the
  loop still runs after these events.\<close>

fun run_events ::
  "('d::linorder, 't::linorder, 'f) libs \<Rightarrow> int list \<Rightarrow> (int \<rightharpoonup> int) \<Rightarrow> event list
   \<Rightarrow> ('d, 't, 'f) handler" where
  "run_events L market_ids symbol_cache [] c = (Inr (), c)"
| "run_events L market_ids symbol_cache (ev # evs) c =
     (case on_event L market_ids symbol_cache ev c of
        (Inl e, c') \<Rightarrow> (Inl e, c')
      | (Inr _, c') \<Rightarrow> run_events L market_ids symbol_cache evs c')"

text \<open>A connection after \<^verbatim>\<open>connect_async\<close>: no books, nothing sent or written.\<close>

definition fresh_conn :: "bool \<Rightarrow> nat option \<Rightarrow> ('d, 't, 'f) conn" where
  "fresh_conn tx_open sink =
     \<lparr>cn_markets = Map.empty, cn_rows = [], cn_tx_open = tx_open, cn_frames = [], cn_sink = sink\<rparr>"

definition run_ws_ingestion ::
  "('d::linorder, 't::linorder, 'f) libs \<Rightarrow> int list \<Rightarrow> (int \<rightharpoonup> int) \<Rightarrow> bool \<Rightarrow> event list
   \<Rightarrow> ('d, 't, 'f) handler" where
  "run_ws_ingestion L market_ids symbol_cache connected evs c =
     (if \<not> connected then (Inl WsConnect, c)
      else (case ws_write_all (subscriptions market_ids) c of
        (Inl e, c') \<Rightarrow> (Inl e, c')
      | (Inr _, c') \<Rightarrow> run_events L market_ids symbol_cache evs c'))"

section \<open>Reachable connections\<close>

text \<open>The connections that the loop holds at its head, after any events it handled.\<close>

inductive reach ::
  "('d::linorder, 't::linorder, 'f) libs \<Rightarrow> int list \<Rightarrow> (int \<rightharpoonup> int) \<Rightarrow> ('d, 't, 'f) conn \<Rightarrow> bool"
  for L market_ids symbol_cache where
  subscribed: "ws_write_all (subscriptions market_ids) (fresh_conn tx_open sink) = (Inr (), c) \<Longrightarrow>
     reach L market_ids symbol_cache c"
| handled: "reach L market_ids symbol_cache c \<Longrightarrow>
     on_event L market_ids symbol_cache ev c = (Inr (), c') \<Longrightarrow> reach L market_ids symbol_cache c'"

inductive_cases reachE: "reach L market_ids symbol_cache c"

lemma ws_write_frame:
  "ws_write err f c = (r, c') \<Longrightarrow>
   cn_markets c' = cn_markets c \<and> cn_rows c' = cn_rows c \<and> cn_tx_open c' = cn_tx_open c"
  by (auto simp: ws_write_def split: option.splits nat.splits)

lemma ws_write_all_frame:
  "ws_write_all fs c = (r, c') \<Longrightarrow>
   cn_markets c' = cn_markets c \<and> cn_rows c' = cn_rows c \<and> cn_tx_open c' = cn_tx_open c"
proof (induction fs arbitrary: c)
  case (Cons p fs)
  obtain err f where p: "p = (err, f)" by fastforce
  obtain r1 c1 where w: "ws_write err f c = (r1, c1)" by fastforce
  from ws_write_frame [OF w] Cons w p show ?case by (cases r1) (auto dest: Cons.IH)
qed simp

lemma ws_write_all_ok:
  "ws_write_all fs c = (Inr (), c') \<Longrightarrow> cn_frames c' = cn_frames c @ map snd fs"
proof (induction fs arbitrary: c)
  case (Cons p fs)
  obtain err f where p: "p = (err, f)" by fastforce
  from Cons.prems p obtain c1 where "ws_write err f c = (Inr (), c1)" "ws_write_all fs c1 = (Inr (), c')"
    by (auto split: prod.splits sum.splits)
  with Cons.IH [of c1] p show ?case by (auto simp: ws_write_def split: option.splits nat.splits)
qed simp

lemma ws_write_inv: "feed_inv L cache c \<Longrightarrow> ws_write err f c = (r, c') \<Longrightarrow> feed_inv L cache c'"
  using feed_inv_cong [of c' c L cache] by (auto dest!: ws_write_frame)

lemma ws_write_all_inv: "feed_inv L cache c \<Longrightarrow> ws_write_all fs c = (r, c') \<Longrightarrow> feed_inv L cache c'"
  using feed_inv_cong [of c' c L cache] by (auto dest!: ws_write_all_frame)

lemma handle_value_inv:
  assumes "feed_inv L cache c" and "inj_on cache (dom cache)"
    and "handle_value L cache value c = (Inr (), c')"
  shows "feed_inv L cache c'"
  using assms
  by (auto simp: handle_value_def Let_def split: if_splits
      intro: handle_orderbook_inv handle_trade_inv ws_write_inv)

lemma on_event_inv:
  assumes "feed_inv L cache c" and "inj_on cache (dom cache)"
    and "on_event L ids cache ev c = (Inr (), c')"
  shows "feed_inv L cache c'"
proof (cases ev)
  case (Frame item)
  then show ?thesis
  proof (cases item)
    case (Item m)
    with Frame assms show ?thesis
      by (cases m) (auto split: option.splits intro: handle_value_inv)
  qed (use Frame assms in simp_all)
next
  case (SnapshotTick order)
  with assms periodic_inv [OF assms(1,2), of order] show ?thesis by simp
next
  case KeepaliveTick
  with assms show ?thesis by (auto intro: ws_write_inv)
next
  case BookCheckTick
  with assms show ?thesis by (auto intro: ws_write_all_inv)
qed

lemma feed_inv_fresh: "feed_inv L cache (fresh_conn b n)"
  by (simp add: feed_inv_def fresh_conn_def)

lemma reach_inv:
  assumes "reach L ids cache c" and "inj_on cache (dom cache)"
  shows "feed_inv L cache c"
  using assms(1)
proof (induction rule: reach.induct)
  case (subscribed tx_open sink c)
  have "cn_markets c = Map.empty" "cn_rows c = []"
    using ws_write_all_frame [OF subscribed] by (simp_all add: fresh_conn_def)
  then show ?case by (simp add: feed_inv_def)
next
  case (handled c ev c')
  from handled.IH assms(2) handled.hyps(2) show ?case by (rule on_event_inv)
qed

lemma run_events_reach:
  "reach L ids cache c \<Longrightarrow> run_events L ids cache evs c = (Inr (), c') \<Longrightarrow> reach L ids cache c'"
proof (induction evs arbitrary: c)
  case (Cons ev evs)
  then obtain c1 where "on_event L ids cache ev c = (Inr (), c1)" "run_events L ids cache evs c1 = (Inr (), c')"
    by (auto split: prod.splits sum.splits)
  with Cons show ?case by (blast intro: reach.handled)
qed simp

lemma run_ws_reach:
  assumes "run_ws_ingestion L ids cache connected evs (fresh_conn b n) = (Inr (), c)"
  shows "reach L ids cache c"
proof -
  obtain c1 where "ws_write_all (subscriptions ids) (fresh_conn b n) = (Inr (), c1)"
    and "run_events L ids cache evs c1 = (Inr (), c)"
    using assms by (auto simp: run_ws_ingestion_def split: prod.splits sum.splits if_splits)
  then show ?thesis by (blast intro: run_events_reach reach.subscribed)
qed

section \<open>Rows of a connection, whatever ends it\<close>

text \<open>The log of every symbol is one chain that a reader can follow.\<close>

definition log_ok :: "('d::linorder, 't::linorder, 'f) libs \<Rightarrow> 't ob_row list \<Rightarrow> bool" where
  "log_ok L rows \<longleftrightarrow> chained rows \<and> read_rows L rows \<noteq> None"

definition logs_ok ::
  "('d::linorder, 't::linorder, 'f) libs \<Rightarrow> (int \<rightharpoonup> int) \<Rightarrow> ('t, 'f) write_msg list \<Rightarrow> bool" where
  "logs_ok L cache ms \<longleftrightarrow> (\<forall>s \<in> ran cache. log_ok L (rows_of s ms))"

lemma feed_inv_logs: "feed_inv L cache c \<Longrightarrow> logs_ok L cache (cn_rows c)"
  by (auto simp: logs_ok_def log_ok_def ran_def market_ok_def dest!: feed_inv_market)

lemma logs_ok_cong: "orderbooks_of ms = orderbooks_of ns \<Longrightarrow> logs_ok L cache ms = logs_ok L cache ns"
  by (simp add: logs_ok_def rows_of_def)

lemma handle_orderbook_failed:
  "handle_orderbook_frame L cache value c = (Inl e, c') \<Longrightarrow> cn_rows c' = cn_rows c"
  by (auto simp: handle_orderbook_frame_def tx_send_def split: option.splits prod.splits sum.splits if_splits)

lemma handle_value_failed:
  assumes "handle_value L cache value c = (Inl e, c')"
  shows "orderbooks_of (cn_rows c') = orderbooks_of (cn_rows c)"
  using assms
  by (auto simp: handle_value_def Let_def split: if_splits
      dest!: handle_orderbook_failed handle_trade_frame_rows ws_write_frame)

lemma on_event_logs:
  assumes inv: "feed_inv L cache c" and inj: "inj_on cache (dom cache)"
    and ev: "on_event L ids cache ev c = (r, c')"
  shows "logs_ok L cache (cn_rows c')"
proof (cases r)
  case (Inr u)
  with on_event_inv [OF inv inj] ev show ?thesis by (auto intro: feed_inv_logs)
next
  case (Inl e)
  have same: ?thesis if "orderbooks_of (cn_rows c') = orderbooks_of (cn_rows c)"
    using feed_inv_logs [OF inv] logs_ok_cong [OF that, of L cache] by simp
  show ?thesis
  proof (cases ev)
    case (Frame item)
    then show ?thesis
    proof (cases item)
      case (Item m)
      with Frame Inl ev show ?thesis
        by (cases m) (auto split: option.splits intro!: same dest!: handle_value_failed)
    qed (use Frame ev same in auto)
  next
    case (SnapshotTick order)
    with ev periodic_inv [OF inv inj, of order] show ?thesis by (auto intro: feed_inv_logs)
  next
    case KeepaliveTick
    with ev show ?thesis by (auto intro!: same dest!: ws_write_frame)
  next
    case BookCheckTick
    with ev show ?thesis by (auto intro!: same dest!: ws_write_all_frame)
  qed
qed

lemma run_events_logs:
  "feed_inv L cache c \<Longrightarrow> inj_on cache (dom cache) \<Longrightarrow> run_events L ids cache evs c = (r, c') \<Longrightarrow>
   logs_ok L cache (cn_rows c')"
proof (induction evs arbitrary: c)
  case (Cons ev evs)
  obtain r1 c1 where one: "on_event L ids cache ev c = (r1, c1)" by fastforce
  show ?case
  proof (cases r1)
    case (Inl e)
    with Cons.prems one on_event_logs [OF Cons.prems(1,2) one] show ?thesis by auto
  next
    case (Inr u)
    with Cons.prems one on_event_inv [OF Cons.prems(1,2)] show ?thesis by (auto intro: Cons.IH)
  qed
qed (auto intro: feed_inv_logs)

lemma run_ws_logs:
  assumes "run_ws_ingestion L ids cache connected evs (fresh_conn b n) = (r, c)"
    and "inj_on cache (dom cache)"
  shows "logs_ok L cache (cn_rows c)"
proof -
  note fresh = feed_inv_fresh [of L cache b n]
  obtain r1 c1 where w: "ws_write_all (subscriptions ids) (fresh_conn b n :: ('a, 'b, 'c) conn) = (r1, c1)"
    by fastforce
  from ws_write_all_inv [OF fresh w] have c1: "feed_inv L cache c1" .
  show ?thesis
  proof (cases "connected \<and> r1 = Inr ()")
    case True
    with assms w run_events_logs [OF c1 assms(2)] show ?thesis by (simp add: run_ws_ingestion_def)
  next
    case False
    with assms(1) w feed_inv_logs [OF fresh] feed_inv_logs [OF c1] show ?thesis
      by (auto simp: run_ws_ingestion_def split: if_splits sum.splits)
  qed
qed

text \<open>Logs of two connections, one after the other, are again a log: the second starts with a snapshot.\<close>

lemma read_rows_append:
  "read_rows L rows = Some st \<Longrightarrow> read_rows L rows' \<noteq> None \<Longrightarrow>
   rows' \<noteq> [] \<Longrightarrow> obr_type (hd rows') = ''snapshot'' \<Longrightarrow> read_rows L (rows @ rows') = read_rows L rows'"
proof -
  assume a: "read_rows L rows = Some st" "read_rows L rows' \<noteq> None" "rows' \<noteq> []"
    "obr_type (hd rows') = ''snapshot''"
  obtain log where log: "seq_opt to_log rows = Some log"
    "replay (from_snapshot L) (apply_delta L) None log = Inr st"
    using a(1) by (auto simp: read_rows_def split: option.splits sum.splits)
  obtain log' where log': "seq_opt to_log rows' = Some log'"
    using a(2) by (auto simp: read_rows_def split: option.splits)
  obtain r rs where r: "rows' = r # rs" using a(3) by (cases rows') auto
  with log' obtain lr ls where ls: "to_log r = Some lr" "log' = lr # ls" by (auto split: option.splits)
  have "is_snap lr" using ls(1) a(4) r by (auto simp: to_log_def split: option.splits if_splits)
  then have "advance (from_snapshot L) (apply_delta L) st lr = advance (from_snapshot L) (apply_delta L) None lr"
    by (rule advance_snap_any)
  with log log' ls show ?thesis by (simp add: read_rows_def seq_opt_append replay_append)
qed

text \<open>A reader may start at any snapshot row of a log.\<close>

lemma read_rows_restart:
  assumes "read_rows L (rows @ r # rows') = Some st" and "obr_type r = ''snapshot''"
  shows "read_rows L (r # rows') = Some st"
proof -
  obtain lr xs ys where x: "seq_opt to_log rows = Some xs" "to_log r = Some lr" "seq_opt to_log rows' = Some ys"
    using assms(1) by (auto simp: read_rows_def seq_opt_append split: option.splits)
  have "is_snap lr" using x(2) assms(2) by (auto simp: to_log_def split: option.splits if_splits)
  moreover have "replay (from_snapshot L) (apply_delta L) None (xs @ lr # ys) = Inr st"
    using assms(1) x by (auto simp: read_rows_def seq_opt_append simp del: replay.simps split: sum.splits)
  ultimately have "replay (from_snapshot L) (apply_delta L) None (lr # ys) = Inr st" by (intro replay_restart)
  with x show ?thesis by (simp add: read_rows_def del: replay.simps)
qed

lemma log_ok_append: "log_ok L rows \<Longrightarrow> log_ok L rows' \<Longrightarrow> log_ok L (rows @ rows')"
proof (cases "rows = [] \<or> rows' = []")
  case False
  assume a: "log_ok L rows" "log_ok L rows'"
  then have h: "obr_type (hd rows') = ''snapshot''" "obr_begin_nonce (hd rows') = None"
    using False by (simp_all add: log_ok_def chained_def)
  then have "chained (rows @ rows')"
    using a False by (auto simp: log_ok_def chained_def successively_append_iff row_link_def)
  with a False h read_rows_append [of L rows _ rows'] show ?thesis by (auto simp: log_ok_def)
qed auto

lemma logs_ok_append: "logs_ok L cache ms \<Longrightarrow> logs_ok L cache ns \<Longrightarrow> logs_ok L cache (ms @ ns)"
  by (simp add: logs_ok_def log_ok_append)

text \<open>A prefix of a log is a log.\<close>

lemma log_ok_prefix: "log_ok L (rows @ rows') \<Longrightarrow> log_ok L rows"
proof -
  assume a: "log_ok L (rows @ rows')"
  then have "read_rows L rows \<noteq> None"
    by (auto simp: log_ok_def read_rows_def seq_opt_append replay_append and_then_def split: option.splits sum.splits)
  moreover have "chained rows"
    using a successively_append_iff [of row_link rows rows'] by (cases rows) (auto simp: log_ok_def chained_def)
  ultimately show ?thesis by (simp add: log_ok_def)
qed

lemma logs_ok_prefix: "logs_ok L cache (ms @ ns) \<Longrightarrow> logs_ok L cache ms"
  by (auto simp: logs_ok_def intro: log_ok_prefix)

section \<open>Frames\<close>

lemma ws_write_appends: "ws_write err f c = (r, c') \<Longrightarrow> \<exists>fs. cn_frames c' = cn_frames c @ fs"
  by (auto simp: ws_write_def split: option.splits nat.splits)

lemma handle_value_frames:
  "handle_value L cache value c = (Inr (), c') \<Longrightarrow> \<exists>fs. cn_frames c' = cn_frames c @ fs"
  by (auto simp: handle_value_def Let_def split: if_splits
      dest!: handle_orderbook_ok handle_trade_frame_rows ws_write_appends)

lemma on_event_frames:
  assumes "on_event L ids cache ev c = (Inr (), c')"
  shows "\<exists>fs. cn_frames c' = cn_frames c @ fs"
proof (cases ev)
  case (Frame item)
  then show ?thesis
  proof (cases item)
    case (Item m)
    with Frame assms show ?thesis by (cases m) (auto split: option.splits intro: handle_value_frames)
  qed (use Frame assms in simp_all)
next
  case (SnapshotTick order)
  with assms show ?thesis by (auto dest!: periodic_frame)
next
  case KeepaliveTick
  with assms show ?thesis by (auto dest: ws_write_appends)
next
  case BookCheckTick
  with assms show ?thesis by (auto dest: ws_write_all_ok)
qed

lemma reach_frames: "reach L ids cache c \<Longrightarrow> \<exists>fs. cn_frames c = map snd (subscriptions ids) @ fs"
proof (induction rule: reach.induct)
  case (subscribed b n c)
  from ws_write_all_ok [OF subscribed] show ?case by (simp add: fresh_conn_def)
next
  case (handled c ev c')
  from handled.IH on_event_frames [OF handled.hyps(2)] show ?case by auto
qed

lemma ws_write_all_healthy:
  "cn_sink c = None \<Longrightarrow> ws_write_all fs c = (Inr (), c\<lparr>cn_frames := cn_frames c @ map snd fs\<rparr>)"
proof (induction fs arbitrary: c)
  case (Cons p fs)
  obtain err f where p: "p = (err, f)" by fastforce
  have w: "ws_write err f c = (Inr (), c\<lparr>cn_frames := cn_frames c @ [f]\<rparr>)"
    using Cons.prems by (cases c) (simp add: ws_write_def)
  have "ws_write_all fs (c\<lparr>cn_frames := cn_frames c @ [f]\<rparr>)
     = (Inr (), c\<lparr>cn_frames := cn_frames c @ [f] @ map snd fs\<rparr>)"
    using Cons by simp
  with p w show ?case by simp
qed simp

section \<open>Rows are only added\<close>

lemma periodic_appends:
  "write_periodic_snapshots cache ids c = (r, c') \<Longrightarrow> \<exists>new. cn_rows c' = cn_rows c @ new"
proof (induction ids arbitrary: c)
  case (Cons k ids)
  from Cons.prems show ?case
    by (auto simp: tx_send_def split: option.splits if_splits dest!: Cons.IH)
qed simp

lemma handle_orderbook_appends:
  "handle_orderbook_frame L cache value c = (r, c') \<Longrightarrow> \<exists>new. cn_rows c' = cn_rows c @ new"
  by (cases r) (auto dest: handle_orderbook_failed handle_orderbook_ok)

lemma handle_value_appends:
  "handle_value L cache value c = (r, c') \<Longrightarrow> \<exists>new. cn_rows c' = cn_rows c @ new"
  by (auto simp: handle_value_def Let_def split: if_splits
      dest!: handle_orderbook_appends handle_trade_frame_rows ws_write_frame)

lemma on_event_appends:
  assumes "on_event L ids cache ev c = (r, c')"
  shows "\<exists>new. cn_rows c' = cn_rows c @ new"
proof (cases ev)
  case (Frame item)
  then show ?thesis
  proof (cases item)
    case (Item m)
    with Frame assms show ?thesis by (cases m) (auto split: option.splits dest: handle_value_appends)
  qed (use Frame assms in auto)
next
  case (SnapshotTick order)
  with assms show ?thesis by (auto dest: periodic_appends)
next
  case KeepaliveTick
  with assms show ?thesis by (auto dest!: ws_write_frame)
next
  case BookCheckTick
  with assms show ?thesis by (auto dest!: ws_write_all_frame)
qed

section \<open>Symbols of the rows\<close>

fun known_row :: "(int \<rightharpoonup> int) \<Rightarrow> ('t, 'f) write_msg \<Rightarrow> bool" where
  "known_row cache (WTrade r) \<longleftrightarrow> tw_symbol r \<in> ran cache"
| "known_row cache (WOrderbook r) \<longleftrightarrow> obr_symbol r \<in> ran cache \<and> obr_type r \<in> {''snapshot'', ''delta''}"

definition known_rows :: "(int \<rightharpoonup> int) \<Rightarrow> ('d, 't, 'f) conn \<Rightarrow> bool" where
  "known_rows cache c \<longleftrightarrow> (\<forall>m \<in> set (cn_rows c). known_row cache m)"

lemma known_periodic:
  "known_rows cache c \<Longrightarrow> write_periodic_snapshots cache ids c = (r, c') \<Longrightarrow> known_rows cache c'"
proof (induction ids arbitrary: c)
  case (Cons k ids)
  show ?case
  proof (cases "\<exists>m s. cn_markets c k = Some m \<and> cache k = Some s \<and> cn_tx_open c")
    case True
    then obtain m s where ms: "cn_markets c k = Some m" "cache k = Some s" "cn_tx_open c" by blast
    let ?c1 = "c\<lparr>cn_rows := cn_rows c @ [WOrderbook (book_snapshot_row s m)]\<rparr>"
    have "known_rows cache ?c1"
      using Cons.prems(1) ms(2) by (auto simp: known_rows_def book_snapshot_row_def intro: ranI)
    moreover have "write_periodic_snapshots cache ids ?c1 = (r, c')"
      using Cons.prems(2) ms by (simp add: tx_send_def)
    ultimately show ?thesis by (rule Cons.IH)
  qed (use Cons in \<open>auto simp: tx_send_def split: option.splits\<close>)
qed simp

lemma known_orderbook:
  assumes "known_rows cache c" and "handle_orderbook_frame L cache value c = (r, c')"
  shows "known_rows cache c'"
proof (cases r)
  case (Inl e)
  with assms have "cn_rows c' = cn_rows c" by (auto intro: handle_orderbook_failed)
  with assms(1) show ?thesis by (simp add: known_rows_def)
next
  case (Inr u)
  with assms have "handle_orderbook_frame L cache value c = (Inr (), c')" by simp
  from handle_orderbook_ok [OF this] show ?thesis
  proof (elim disjE exE conjE)
    fix k row m'
    assume row: "cache k = Some (obr_symbol row)" "emits L (cn_markets c k) row m'"
      and c': "c' = c\<lparr>cn_markets := (cn_markets c)(k \<mapsto> m'), cn_rows := cn_rows c @ [WOrderbook row]\<rparr>"
    from row(1) have "obr_symbol row \<in> ran cache" by (rule ranI)
    with row(2) c' assms(1) show ?thesis by (auto simp: known_rows_def emits_def)
  qed (use assms(1) in simp)
qed

lemma known_value:
  "known_rows cache c \<Longrightarrow> handle_value L cache value c = (r, c') \<Longrightarrow> known_rows cache c'"
  by (auto simp: handle_value_def Let_def known_rows_def split: if_splits
      dest!: handle_trade_frame_rows ws_write_frame)
    (use known_orderbook in \<open>force simp: known_rows_def\<close>)+

lemma known_event:
  assumes "known_rows cache c" and "on_event L ids cache ev c = (r, c')"
  shows "known_rows cache c'"
proof (cases ev)
  case (Frame item)
  then show ?thesis
  proof (cases item)
    case (Item m)
    with Frame assms show ?thesis by (cases m) (auto split: option.splits intro: known_value)
  qed (use Frame assms in auto)
next
  case (SnapshotTick order)
  with assms show ?thesis by (auto intro: known_periodic)
next
  case KeepaliveTick
  with assms show ?thesis by (auto simp: known_rows_def dest!: ws_write_frame)
next
  case BookCheckTick
  with assms show ?thesis by (auto simp: known_rows_def dest!: ws_write_all_frame)
qed

lemma known_run_events:
  "known_rows cache c \<Longrightarrow> run_events L ids cache evs c = (r, c') \<Longrightarrow> known_rows cache c'"
proof (induction evs arbitrary: c)
  case (Cons ev evs)
  obtain r1 c1 where "on_event L ids cache ev c = (r1, c1)" by fastforce
  with known_event [OF Cons.prems(1) this] Cons show ?case by (auto split: sum.splits)
qed simp

lemma known_run_ws:
  assumes "run_ws_ingestion L ids cache connected evs (fresh_conn b n) = (r, c)"
  shows "known_rows cache c"
proof -
  obtain r1 c1 where w: "ws_write_all (subscriptions ids) (fresh_conn b n :: ('a, 'b, 'c) conn) = (r1, c1)"
    by fastforce
  then have "known_rows cache c1" by (auto simp: known_rows_def fresh_conn_def dest!: ws_write_all_frame)
  with assms w show ?thesis
    by (auto simp: run_ws_ingestion_def known_rows_def fresh_conn_def split: if_splits sum.splits
        dest: known_run_events [unfolded known_rows_def])
qed

end
