(* ===== verification/Writer.thy ===== *)
theory Writer
  imports Store
begin

text \<open>
  \<^verbatim>\<open>writer_task\<close> and \<^verbatim>\<open>flush\<close> of \<^verbatim>\<open>src/ws.rs\<close>, and the channel of \<^verbatim>\<open>src/main.rs\<close> between the
  WebSocket connections and the writer. The writer's state is its batch, the database and whether
  it still runs; a step is the branch of its \<^verbatim>\<open>tokio::select!\<close> that fires. What can fail outside
  the tables (the pool, the connection, the blocking task) is the \<open>fault\<close> of a flush, which the
  environment picks. \<open>pipe_step\<close> interleaves senders and writer over the bounded channel.
\<close>

section \<open>The writer\<close>

definition BATCH_CAPACITY :: nat where "BATCH_CAPACITY = 128"

definition WRITE_CHANNEL_CAPACITY :: nat where "WRITE_CHANNEL_CAPACITY = 1024"

datatype fault =
    NoFault
  | PoolFault          \<comment> \<open>no pooled connection\<close>
  | TradesFault        \<comment> \<open>the insert of the trade rows fails on the connection\<close>
  | OrderbooksFault    \<comment> \<open>the insert of the order-book rows fails on the connection\<close>
  | TaskPanic          \<comment> \<open>the blocking task panics before it starts\<close>

datatype writer_status =
    Running
  | Returned           \<comment> \<open>the channel is closed, the task has returned\<close>
  | ProcessExit        \<comment> \<open>\<^verbatim>\<open>std::process::exit(1)\<close>\<close>

record ('t, 'f, 'd) writer =
  wr_batch :: "('t, 'f) write_msg list"
  wr_db :: "('t, 'f, 'd) db"
  wr_status :: writer_status

text \<open>The blocking closure of \<^verbatim>\<open>flush\<close>: trades first, then order-book rows, each statement on its own;
  an empty kind is not inserted. The result says whether it returned \<^verbatim>\<open>Ok\<close>.\<close>

definition flush_rows ::
  "fault \<Rightarrow> ('t, 'f) trade_row list \<Rightarrow> 't ob_row list \<Rightarrow> ('t, 'f, 'd) db
   \<Rightarrow> bool \<times> ('t, 'f, 'd) db" where
  "flush_rows f trade_rows orderbook_rows db =
     (if f = PoolFault \<or> f = TaskPanic then (False, db)
      else case (if trade_rows = [] then Inr (0, db)
                 else if f = TradesFault then Inl None
                 else map_err Some (insert_trades trade_rows db)) of
        Inl _ \<Rightarrow> (False, db)
      | Inr (_, db1) \<Rightarrow>
          (case (if orderbook_rows = [] then Inr (0, db1)
                 else if f = OrderbooksFault then Inl None
                 else map_err Some (insert_orderbook_messages orderbook_rows db1)) of
             Inl _ \<Rightarrow> (False, db1)
           | Inr (_, db2) \<Rightarrow> (True, db2)))"

definition flush :: "fault \<Rightarrow> ('t, 'f, 'd) writer \<Rightarrow> ('t, 'f, 'd) writer" where
  "flush f w =
     (if wr_batch w = [] then w
      else let drained = wr_batch w;
               (ok, db) = flush_rows f (trades_of drained) (orderbooks_of drained) (wr_db w)
           in w\<lparr>wr_batch := [], wr_db := db,
                wr_status := (if ok then wr_status w else ProcessExit)\<rparr>)"

datatype ('t, 'f) writer_event =
    Received "('t, 'f) write_msg"    \<comment> \<open>\<^verbatim>\<open>rx.recv()\<close> gives a message\<close>
  | Closed                           \<comment> \<open>\<^verbatim>\<open>rx.recv()\<close> gives \<^verbatim>\<open>None\<close>\<close>
  | Tick                             \<comment> \<open>\<^verbatim>\<open>ticker.tick()\<close>\<close>

fun writer_step ::
  "fault \<Rightarrow> ('t, 'f) writer_event \<Rightarrow> ('t, 'f, 'd) writer \<Rightarrow> ('t, 'f, 'd) writer" where
  "writer_step f (Received msg) w =
     (let w1 = w\<lparr>wr_batch := wr_batch w @ [msg]\<rparr>
      in if BATCH_CAPACITY \<le> length (wr_batch w1) then flush f w1 else w1)"
| "writer_step f Closed w =
     (let w1 = flush f w
      in if wr_status w1 = Running then w1\<lparr>wr_status := Returned\<rparr> else w1)"
| "writer_step f Tick w = flush f w"

definition writer_start :: "('t, 'f, 'd) db \<Rightarrow> ('t, 'f, 'd) writer" where
  "writer_start db = \<lparr>wr_batch = [], wr_db = db, wr_status = Running\<rparr>"

section \<open>Flushing\<close>

text \<open>The table of a database after the rows of some messages, in order.\<close>

definition stored :: "('t, 'f, 'd) db \<Rightarrow> ('t, 'f) write_msg list \<Rightarrow> ('t, 'f, 'd) db" where
  "stored db ms = db\<lparr>db_trades := insert_skip trade_key (trades_of ms) (db_trades db),
                     db_orderbooks := db_orderbooks db @ orderbooks_of ms\<rparr>"

lemma insert_skip_append:
  "insert_skip key (xs @ ys) table = insert_skip key ys (insert_skip key xs table)"
  by (induction xs arbitrary: table) auto

lemma stored_Nil [simp]: "stored db [] = db"
  by (simp add: stored_def)

lemma stored_append: "stored db (ms @ ns) = stored (stored db ms) ns"
  by (simp add: stored_def insert_skip_append)

text \<open>A message the tables accept: a known symbol and, for a trade, a known trade type.\<close>

fun acceptable :: "('t, 'f, 'd) db \<Rightarrow> ('t, 'f) write_msg \<Rightarrow> bool" where
  "acceptable db (WTrade r) \<longleftrightarrow> tw_symbol r \<in> symbol_ids db \<and> tw_type r \<in> set trade_types"
| "acceptable db (WOrderbook r) \<longleftrightarrow>
     obr_symbol r \<in> symbol_ids db \<and> obr_type r \<in> {''snapshot'', ''delta''}"

lemma trades_of_set: "r \<in> set (trades_of ms) \<longleftrightarrow> WTrade r \<in> set ms"
proof (induction ms)
  case (Cons m ms)
  then show ?case by (cases m) auto
qed simp

lemma orderbooks_of_set: "r \<in> set (orderbooks_of ms) \<longleftrightarrow> WOrderbook r \<in> set ms"
proof (induction ms)
  case (Cons m ms)
  then show ?case by (cases m) auto
qed simp

lemma stored_symbols [simp]: "symbol_ids (stored db ms) = symbol_ids db"
  by (simp add: stored_def symbol_ids_def)

lemma acceptable_stored [simp]: "acceptable (stored db ms) m = acceptable db m"
  by (cases m) simp_all

lemma insert_trades_ok:
  "\<forall>r \<in> set rows. tw_symbol r \<in> symbol_ids db \<and> tw_type r \<in> set trade_types \<Longrightarrow>
   \<exists>n. insert_trades rows db = Inr (n, db\<lparr>db_trades := insert_skip trade_key rows (db_trades db)\<rparr>)"
  by (auto simp: insert_trades_def Let_def)

lemma insert_orderbooks_ok:
  "\<forall>r \<in> set rows. obr_symbol r \<in> symbol_ids db \<and> obr_type r \<in> {''snapshot'', ''delta''} \<Longrightarrow>
   insert_orderbook_messages rows db = Inr (length rows, db\<lparr>db_orderbooks := db_orderbooks db @ rows\<rparr>)"
  by (auto simp: insert_orderbook_messages_def)

text \<open>A flush that returns \<^verbatim>\<open>Ok\<close> has stored the batch; when the tables accept it, only a fault stops it.\<close>

lemma flush_rows_True:
  fixes db db' :: "('t, 'f, 'd) db"
  assumes "flush_rows f (trades_of ms) (orderbooks_of ms) db = (True, db')"
  shows "db' = stored db ms"
proof -
  have t: "db1 = db\<lparr>db_trades := insert_skip trade_key (trades_of ms) (db_trades db)\<rparr>"
    if "insert_trades (trades_of ms) db = Inr (n, db1)" for n db1
    using that by (auto simp: insert_trades_def Let_def split: if_splits)
  have o: "db2 = db1\<lparr>db_orderbooks := db_orderbooks db1 @ orderbooks_of ms\<rparr>"
    if "insert_orderbook_messages (orderbooks_of ms) db1 = Inr (n, db2)" for n and db1 db2 :: "('t, 'f, 'd) db"
    using that by (auto simp: insert_orderbook_messages_def split: if_splits)
  show ?thesis
    using assms by (auto simp: flush_rows_def stored_def split: if_splits sum.splits dest!: t o)
qed

lemma flush_rows_accepts:
  assumes "\<forall>m \<in> set ms. acceptable db m" and "f = NoFault"
  shows "flush_rows f (trades_of ms) (orderbooks_of ms) db = (True, stored db ms)"
proof -
  have t: "\<forall>r \<in> set (trades_of ms). tw_symbol r \<in> symbol_ids db \<and> tw_type r \<in> set trade_types"
    using assms(1) by (fastforce simp: trades_of_set)
  have o: "\<forall>r \<in> set (orderbooks_of ms). obr_symbol r \<in> symbol_ids db \<and> obr_type r \<in> {''snapshot'', ''delta''}"
    using assms(1) by (fastforce simp: orderbooks_of_set)
  obtain n where "insert_trades (trades_of ms) db
      = Inr (n, db\<lparr>db_trades := insert_skip trade_key (trades_of ms) (db_trades db)\<rparr>)"
    using insert_trades_ok [OF t] by blast
  moreover have "insert_orderbook_messages (orderbooks_of ms) (db\<lparr>db_trades := x\<rparr>)
      = Inr (length (orderbooks_of ms), db\<lparr>db_trades := x, db_orderbooks := db_orderbooks db @ orderbooks_of ms\<rparr>)" for x
    using insert_orderbooks_ok [of "orderbooks_of ms" "db\<lparr>db_trades := x\<rparr>"] o by (simp add: symbol_ids_def)
  moreover have "insert_orderbook_messages (orderbooks_of ms) db
      = Inr (length (orderbooks_of ms), db\<lparr>db_orderbooks := db_orderbooks db @ orderbooks_of ms\<rparr>)"
    using insert_orderbooks_ok [OF o] .
  ultimately show ?thesis
    using assms(2) by (auto simp: flush_rows_def stored_def)
qed

lemma flush_cases:
  obtains (empty) "wr_batch w = []" and "flush f w = w"
    | (ok) "flush f w = w\<lparr>wr_batch := [], wr_db := stored (wr_db w) (wr_batch w)\<rparr>"
    | (failed) db where "wr_batch w \<noteq> []"
        "flush_rows f (trades_of (wr_batch w)) (orderbooks_of (wr_batch w)) (wr_db w) = (False, db)"
        "flush f w = w\<lparr>wr_batch := [], wr_db := db, wr_status := ProcessExit\<rparr>"
proof (cases "wr_batch w = []")
  case True
  with empty show ?thesis by (simp add: flush_def)
next
  case False
  obtain b db where fr: "flush_rows f (trades_of (wr_batch w)) (orderbooks_of (wr_batch w)) (wr_db w) = (b, db)"
    by fastforce
  show ?thesis
  proof (cases b)
    case True
    with fr False flush_rows_True [of f "wr_batch w" "wr_db w" db] show ?thesis
      by (intro ok) (simp add: flush_def)
  next
    case b: False
    with fr False show ?thesis by (intro failed [of db]) (simp_all add: flush_def)
  qed
qed

section \<open>The pipeline\<close>

text \<open>The channel between the senders and the writer; \<open>pp_sent\<close> records what was sent, in order.\<close>

record ('t, 'f, 'd) pipe =
  pp_queue :: "('t, 'f) write_msg list"
  pp_writer :: "('t, 'f, 'd) writer"
  pp_open :: bool                          \<comment> \<open>a sender is alive\<close>
  pp_sent :: "('t, 'f) write_msg list"

inductive pipe_step :: "('t, 'f, 'd) pipe \<Rightarrow> ('t, 'f, 'd) pipe \<Rightarrow> bool" where
  send: "pp_open p \<Longrightarrow> wr_status (pp_writer p) = Running \<Longrightarrow>
     length (pp_queue p) < WRITE_CHANNEL_CAPACITY \<Longrightarrow>
     pipe_step p (p\<lparr>pp_queue := pp_queue p @ [m], pp_sent := pp_sent p @ [m]\<rparr>)"
| recv: "wr_status (pp_writer p) = Running \<Longrightarrow> pp_queue p = m # q \<Longrightarrow>
     pipe_step p (p\<lparr>pp_queue := q, pp_writer := writer_step f (Received m) (pp_writer p)\<rparr>)"
| tick: "wr_status (pp_writer p) = Running \<Longrightarrow>
     pipe_step p (p\<lparr>pp_writer := writer_step f Tick (pp_writer p)\<rparr>)"
| drop: "pipe_step p (p\<lparr>pp_open := False\<rparr>)"
| finish: "wr_status (pp_writer p) = Running \<Longrightarrow> \<not> pp_open p \<Longrightarrow> pp_queue p = [] \<Longrightarrow>
     pipe_step p (p\<lparr>pp_writer := writer_step f Closed (pp_writer p)\<rparr>)"

definition pipe_start :: "('t, 'f, 'd) db \<Rightarrow> ('t, 'f, 'd) pipe" where
  "pipe_start db = \<lparr>pp_queue = [], pp_writer = writer_start db, pp_open = True, pp_sent = []\<rparr>"

inductive pipe_reach :: "('t, 'f, 'd) db \<Rightarrow> ('t, 'f, 'd) pipe \<Rightarrow> bool" for db where
  start: "pipe_reach db (pipe_start db)"
| step: "pipe_reach db p \<Longrightarrow> pipe_step p q \<Longrightarrow> pipe_reach db q"

inductive_cases pipe_stepE: "pipe_step p q"

text \<open>
  What holds of every reachable pipeline: the messages sent are those stored, then those in the
  batch, then those in the channel. While the process lives the database is exactly the stored
  messages; an exit loses what was in the batch that failed.
\<close>

definition pipe_inv :: "('t, 'f, 'd) db \<Rightarrow> ('t, 'f, 'd) pipe \<Rightarrow> bool" where
  "pipe_inv db p \<longleftrightarrow>
     length (pp_queue p) \<le> WRITE_CHANNEL_CAPACITY
   \<and> length (wr_batch (pp_writer p)) < BATCH_CAPACITY
   \<and> (wr_status (pp_writer p) \<noteq> ProcessExit \<longrightarrow>
        (\<exists>past. pp_sent p = past @ wr_batch (pp_writer p) @ pp_queue p
           \<and> wr_db (pp_writer p) = stored db past))
   \<and> (wr_status (pp_writer p) = Returned \<longrightarrow> wr_batch (pp_writer p) = [] \<and> pp_queue p = [] \<and> \<not> pp_open p)"

lemma pipe_inv_start: "pipe_inv db (pipe_start db)"
  by (simp add: pipe_inv_def pipe_start_def writer_start_def WRITE_CHANNEL_CAPACITY_def BATCH_CAPACITY_def)

lemma stored_eq_append: "wr_db w = stored db past \<Longrightarrow> stored (wr_db w) ms = stored db (past @ ms)"
  by (simp add: stored_append)

lemma flush_inv:
  assumes "wr_status w = Running" and "sent = past @ wr_batch w @ q" and "wr_db w = stored db past"
  shows "wr_batch (flush f w) = []
     \<and> (wr_status (flush f w) = Running \<and> (\<exists>past'. sent = past' @ q \<and> wr_db (flush f w) = stored db past')
        \<or> wr_status (flush f w) = ProcessExit)"
proof (cases rule: flush_cases [of w f])
  case empty
  with assms show ?thesis by auto
next
  case ok
  with assms stored_eq_append [OF assms(3), of "wr_batch w"] show ?thesis
    by (auto intro: exI [of _ "past @ wr_batch w"])
next
  case (failed db')
  then show ?thesis by simp
qed

lemma received_inv:
  fixes f :: fault
  assumes w: "wr_status w = Running" "sent = past @ wr_batch w @ m # q" "wr_db w = stored db past"
    and len: "length (wr_batch w) < BATCH_CAPACITY"
  defines "w' \<equiv> writer_step f (Received m) w"
  shows "length (wr_batch w') < BATCH_CAPACITY
     \<and> (wr_status w' = Running \<and> (\<exists>past'. sent = past' @ wr_batch w' @ q \<and> wr_db w' = stored db past')
        \<or> wr_status w' = ProcessExit)"
proof -
  let ?w1 = "w\<lparr>wr_batch := wr_batch w @ [m]\<rparr>"
  have "wr_batch (flush f ?w1) = []
     \<and> (wr_status (flush f ?w1) = Running \<and> (\<exists>past'. sent = past' @ q \<and> wr_db (flush f ?w1) = stored db past')
        \<or> wr_status (flush f ?w1) = ProcessExit)"
    using w by (intro flush_inv [where past = "past"]) simp_all
  with w len show ?thesis by (auto simp: w'_def Let_def BATCH_CAPACITY_def)
qed

lemma pipe_step_inv:
  assumes "pipe_step p q" and "pipe_inv db p"
  shows "pipe_inv db q"
  using assms
proof (induction rule: pipe_step.induct)
  case (send p m)
  then show ?case by (auto simp: pipe_inv_def)
next
  case (recv p m q f)
  then obtain past where "pp_sent p = past @ wr_batch (pp_writer p) @ m # q"
    and "wr_db (pp_writer p) = stored db past" and "length (wr_batch (pp_writer p)) < BATCH_CAPACITY"
    by (auto simp: pipe_inv_def)
  from received_inv [OF recv.hyps(1) this, of f] recv show ?case
    by (auto simp: pipe_inv_def simp del: writer_step.simps)
next
  case (tick p f)
  then obtain past where "pp_sent p = past @ wr_batch (pp_writer p) @ pp_queue p"
    and "wr_db (pp_writer p) = stored db past"
    by (auto simp: pipe_inv_def)
  from flush_inv [OF tick.hyps(1) this, of f] tick show ?case
    by (auto simp: pipe_inv_def BATCH_CAPACITY_def)
next
  case (drop p)
  then show ?case by (auto simp: pipe_inv_def)
next
  case (finish p f)
  then obtain past where "pp_sent p = past @ wr_batch (pp_writer p) @ []"
    and "wr_db (pp_writer p) = stored db past"
    by (auto simp: pipe_inv_def)
  from flush_inv [OF finish.hyps(1) this, of f] finish show ?case
    by (auto simp: pipe_inv_def BATCH_CAPACITY_def Let_def)
qed

lemma pipe_reach_inv: "pipe_reach db p \<Longrightarrow> pipe_inv db p"
  by (induction rule: pipe_reach.induct) (auto intro: pipe_inv_start pipe_step_inv)

section \<open>The tables at any moment\<close>

text \<open>
  Also after an exit: the order-book table holds the rows of a prefix of what was sent, the trade
  table those of a prefix that is at least as long.
\<close>

definition tables_prefix :: "('t, 'f, 'd) db \<Rightarrow> ('t, 'f) write_msg list \<Rightarrow> ('t, 'f, 'd) db \<Rightarrow> bool" where
  "tables_prefix db sent db' \<longleftrightarrow>
     (\<exists>past more rest. sent = past @ more @ rest
        \<and> db_orderbooks db' = db_orderbooks db @ orderbooks_of past
        \<and> db_trades db' = insert_skip trade_key (trades_of (past @ more)) (db_trades db)
        \<and> db_symbols db' = db_symbols db \<and> db_fundings db' = db_fundings db)"

lemma flush_rows_tables:
  assumes "flush_rows f (trades_of ms) (orderbooks_of ms) db = (False, db')"
  shows "db' = db \<or> db' = db\<lparr>db_trades := insert_skip trade_key (trades_of ms) (db_trades db)\<rparr>"
  using assms
  by (auto simp: flush_rows_def insert_trades_def Let_def split: if_splits sum.splits)

lemma tables_prefix_stored: "tables_prefix db (past @ rest) (stored db past)"
  unfolding tables_prefix_def
  by (intro exI [of _ past] exI [of _ "[]"] exI [of _ rest]) (simp add: stored_def)

lemma tables_prefix_more: "tables_prefix db sent db' \<Longrightarrow> tables_prefix db (sent @ ms) db'"
  by (force simp: tables_prefix_def)

lemma flush_tables:
  assumes "sent = past @ wr_batch w @ q" and "wr_db w = stored db past"
  shows "tables_prefix db sent (wr_db (flush f w))"
proof (cases rule: flush_cases [of w f])
  case empty
  with assms tables_prefix_stored show ?thesis by simp
next
  case ok
  have "tables_prefix db ((past @ wr_batch w) @ q) (stored db (past @ wr_batch w))"
    by (rule tables_prefix_stored)
  with ok assms show ?thesis by (simp add: stored_append)
next
  case (failed db')
  consider "db' = stored db past"
    | "db' = (stored db past)\<lparr>db_trades := insert_skip trade_key (trades_of (wr_batch w)) (db_trades (stored db past))\<rparr>"
    using flush_rows_tables [OF failed(2)] assms(2) by auto
  then show ?thesis
  proof cases
    case 1
    with failed assms tables_prefix_stored [of db past "wr_batch w @ q"] show ?thesis by simp
  next
    case 2
    with failed assms(1) show ?thesis
      unfolding tables_prefix_def
      by (intro exI [of _ past] exI [of _ "wr_batch w"] exI [of _ q])
        (simp add: stored_def insert_skip_append)
  qed
qed

lemma pipe_inv_past:
  assumes "pipe_inv db p" and "wr_status (pp_writer p) \<noteq> ProcessExit"
  obtains past where "pp_sent p = past @ wr_batch (pp_writer p) @ pp_queue p"
    and "wr_db (pp_writer p) = stored db past"
  using assms by (auto simp: pipe_inv_def)

lemma pipe_step_tables:
  assumes "pipe_step p q" and inv: "pipe_inv db p" and t: "tables_prefix db (pp_sent p) (wr_db (pp_writer p))"
  shows "tables_prefix db (pp_sent q) (wr_db (pp_writer q))"
  using assms
proof (induction rule: pipe_step.induct)
  case (send p m)
  then show ?case by (simp add: tables_prefix_more)
next
  case (recv p m q f)
  then obtain past where past: "pp_sent p = past @ wr_batch (pp_writer p) @ m # q"
    "wr_db (pp_writer p) = stored db past"
    by (metis pipe_inv_past writer_status.distinct(3))
  let ?w1 = "(pp_writer p)\<lparr>wr_batch := wr_batch (pp_writer p) @ [m]\<rparr>"
  have "tables_prefix db (pp_sent p) (wr_db (flush f ?w1))"
    using past by (intro flush_tables [where past = past and q = q]) simp_all
  with recv show ?case by (simp add: Let_def)
next
  case (tick p f)
  then obtain past where "pp_sent p = past @ wr_batch (pp_writer p) @ pp_queue p"
    "wr_db (pp_writer p) = stored db past"
    by (metis pipe_inv_past writer_status.distinct(3))
  then show ?case by (simp add: flush_tables)
next
  case (drop p)
  then show ?case by simp
next
  case (finish p f)
  then obtain past where "pp_sent p = past @ wr_batch (pp_writer p) @ pp_queue p"
    "wr_db (pp_writer p) = stored db past"
    by (metis pipe_inv_past writer_status.distinct(3))
  then show ?case by (simp add: flush_tables Let_def)
qed

lemma pipe_reach_tables: "pipe_reach db p \<Longrightarrow> tables_prefix db (pp_sent p) (wr_db (pp_writer p))"
proof (induction rule: pipe_reach.induct)
  case start
  show ?case using tables_prefix_stored [of db "[]" "[]"] by (simp add: pipe_start_def writer_start_def)
next
  case (step p q)
  then show ?case by (blast intro: pipe_step_tables pipe_reach_inv)
qed

section \<open>Draining\<close>

text \<open>
  The task once every sender is gone, under a schedule of its \<^verbatim>\<open>tokio::select!\<close>: \<open>True\<close> where the branch of
  \<^verbatim>\<open>rx.recv()\<close> fires, \<open>False\<close> where the ticker does. No fault strikes.
\<close>

fun drain :: "bool list \<Rightarrow> ('t, 'f, 'd) pipe \<Rightarrow> ('t, 'f, 'd) pipe" where
  "drain [] p = p"
| "drain (rx # turns) p =
     (if wr_status (pp_writer p) \<noteq> Running then p
      else drain turns
        (if \<not> rx then p\<lparr>pp_writer := writer_step NoFault Tick (pp_writer p)\<rparr>
         else case pp_queue p of
           m # q \<Rightarrow> p\<lparr>pp_queue := q, pp_writer := writer_step NoFault (Received m) (pp_writer p)\<rparr>
         | [] \<Rightarrow> p\<lparr>pp_writer := writer_step NoFault Closed (pp_writer p)\<rparr>))"

lemma drain_steps: "\<not> pp_open p \<Longrightarrow> pipe_step\<^sup>*\<^sup>* p (drain turns p)"
proof (induction turns arbitrary: p)
  case (Cons rx turns)
  show ?case
  proof (cases "wr_status (pp_writer p) = Running")
    case True
    let ?q = "if \<not> rx then p\<lparr>pp_writer := writer_step NoFault Tick (pp_writer p)\<rparr>
         else case pp_queue p of
           m # q \<Rightarrow> p\<lparr>pp_queue := q, pp_writer := writer_step NoFault (Received m) (pp_writer p)\<rparr>
         | [] \<Rightarrow> p\<lparr>pp_writer := writer_step NoFault Closed (pp_writer p)\<rparr>"
    have "pipe_step p ?q"
      using True Cons.prems by (auto split: list.split intro: pipe_step.intros simp del: writer_step.simps)
    moreover have "\<not> pp_open ?q" using Cons.prems by (simp split: list.split)
    ultimately show ?thesis
      using Cons.IH [of ?q] True by (auto intro: converse_rtranclp_into_rtranclp simp del: writer_step.simps)
  qed simp
qed simp

text \<open>What the task still has to store, and that it accepts all of it.\<close>

definition left_over :: "('t, 'f, 'd) pipe \<Rightarrow> ('t, 'f) write_msg list" where
  "left_over p = wr_batch (pp_writer p) @ pp_queue p"

definition draining :: "('t, 'f, 'd) db \<Rightarrow> ('t, 'f, 'd) pipe \<Rightarrow> bool" where
  "draining target p \<longleftrightarrow> wr_status (pp_writer p) = Running
     \<and> (\<forall>m \<in> set (left_over p). acceptable (wr_db (pp_writer p)) m)
     \<and> stored (wr_db (pp_writer p)) (left_over p) = target"

lemma flush_NoFault:
  "\<forall>m \<in> set (wr_batch w). acceptable (wr_db w) m \<Longrightarrow>
   flush NoFault w = w\<lparr>wr_batch := [], wr_db := stored (wr_db w) (wr_batch w)\<rparr>"
  by (simp add: flush_def flush_rows_accepts)

lemma drain_tick: "draining target p \<Longrightarrow> draining target (p\<lparr>pp_writer := writer_step NoFault Tick (pp_writer p)\<rparr>)"
  by (simp add: draining_def left_over_def flush_NoFault stored_append)

lemma drain_recv:
  assumes "draining target p" and "pp_queue p = m # q"
  shows "draining target (p\<lparr>pp_queue := q, pp_writer := writer_step NoFault (Received m) (pp_writer p)\<rparr>)"
proof -
  let ?w = "(pp_writer p)\<lparr>wr_batch := wr_batch (pp_writer p) @ [m]\<rparr>"
  have "flush NoFault ?w = ?w\<lparr>wr_batch := [], wr_db := stored (wr_db ?w) (wr_batch ?w)\<rparr>"
    using assms by (intro flush_NoFault) (simp add: draining_def left_over_def)
  with assms show ?thesis by (auto simp: draining_def left_over_def Let_def stored_append [symmetric])
qed

lemma drain_closed:
  "draining target p \<Longrightarrow> pp_queue p = [] \<Longrightarrow>
   writer_step NoFault Closed (pp_writer p) = \<lparr>wr_batch = [], wr_db = target, wr_status = Returned\<rparr>"
  by (cases "pp_writer p") (simp add: draining_def left_over_def flush_NoFault Let_def)

lemma drain_returns:
  "draining target p \<Longrightarrow> length (pp_queue p) < length (filter id turns) \<Longrightarrow>
   pp_writer (drain turns p) = \<lparr>wr_batch = [], wr_db = target, wr_status = Returned\<rparr>"
proof (induction turns arbitrary: p)
  case (Cons rx turns)
  have run: "wr_status (pp_writer p) = Running" using Cons.prems(1) by (simp add: draining_def)
  show ?case
  proof (cases "rx \<and> pp_queue p = []")
    case True
    have stop: "drain turns p' = p'" if "wr_status (pp_writer p') = Returned" for turns and p' :: "('a, 'b, 'c) pipe"
      using that by (cases turns) simp_all
    from True drain_closed [OF Cons.prems(1)] run stop show ?thesis by (simp del: writer_step.simps)
  next
    case False
    with run Cons drain_tick [OF Cons.prems(1)] drain_recv [OF Cons.prems(1)] show ?thesis
      by (cases rx; cases "pp_queue p") (simp_all del: writer_step.simps)
  qed
qed simp

text \<open>Some messages sent and received one by one, before the first flush.\<close>

definition batched :: "('t, 'f, 'd) db \<Rightarrow> ('t, 'f) write_msg list \<Rightarrow> ('t, 'f, 'd) pipe" where
  "batched db ms = \<lparr>pp_queue = [], pp_writer = \<lparr>wr_batch = ms, wr_db = db, wr_status = Running\<rparr>,
     pp_open = True, pp_sent = ms\<rparr>"

lemma pipe_reach_batched: "length ms < BATCH_CAPACITY \<Longrightarrow> pipe_reach db (batched db ms)"
proof (induction ms rule: rev_induct)
  case Nil
  show ?case using pipe_reach.start [of db] by (simp add: pipe_start_def writer_start_def batched_def)
next
  case (snoc m ms)
  let ?p = "batched db ms" let ?q = "?p\<lparr>pp_queue := [m], pp_sent := ms @ [m]\<rparr>"
  have "pipe_reach db ?p" using snoc by simp
  moreover have "pipe_step ?p ?q"
    using pipe_step.send [of ?p m] by (simp add: batched_def WRITE_CHANNEL_CAPACITY_def)
  ultimately have "pipe_reach db ?q" by (rule pipe_reach.step)
  moreover have "pipe_step ?q (batched db (ms @ [m]))"
    using pipe_step.recv [of ?q m "[]" NoFault] snoc.prems by (simp add: batched_def)
  ultimately show ?case by (rule pipe_reach.step)
qed

end
