(* ===== verification/Funding.thy ===== *)
theory Funding
  imports Libs Wire Store
begin

text \<open>
  \<^verbatim>\<open>src/funding.rs\<close>: settled funding. The pure parts are the check of a response, the check of a
  page and the hourly grid of request starts. \<open>poll_market\<close> is the paging loop of one market over a
  list of rounds; a round holds what the environment answers in one turn of the loop: the three
  readings of the clock, the server's reply to the request and whether the database connection
  works. A panic of chrono is the error \<open>Panicked\<close>.
\<close>

section \<open>Responses and pages\<close>

datatype funding_error =
    FundingsJson
  | FundingsCode int
  | FundingsResolution string
  | FundingTimestamp int
  | FundingRate string
  | FundingDirection
  | BeforeStart
  | NotIncreasing
  | AfterNow
  | NoPerpMarkets
  | FundingsHttp
  | FundingsDb
  | Panicked

definition FUNDING_RESOLUTION :: string where "FUNDING_RESOLUTION = ''1h''"

definition MAX_FUNDINGS_PER_CALL :: nat where "MAX_FUNDINGS_PER_CALL = 750"

record ('t, 'd) settled_funding =
  sf_time :: 't
  sf_rate :: 'd
  sf_direction :: string

definition settle_funding ::
  "('d, 't, 'f) libs \<Rightarrow> funding \<Rightarrow> funding_error + ('t, 'd) settled_funding" where
  "settle_funding L f =
     and_then (ok_or (FundingTimestamp (fd_timestamp f)) (from_secs L (fd_timestamp f))) (\<lambda>time.
     and_then (ok_or (FundingRate (fd_rate f)) (dec_from_str L (fd_rate f))) (\<lambda>rate.
       if fd_direction f = [] then Inl FundingDirection
       else Inr \<lparr>sf_time = time, sf_rate = rate, sf_direction = fd_direction f\<rparr>))"

definition parse_fundings_response ::
  "('d, 't, 'f) libs \<Rightarrow> string \<Rightarrow> funding_error + ('t, 'd) settled_funding list" where
  "parse_fundings_response L body =
     (case Option.bind (json_document L body) de_fundings_response of
        None \<Rightarrow> Inl FundingsJson
      | Some resp \<Rightarrow>
          if fr_code resp \<noteq> 200 then Inl (FundingsCode (fr_code resp))
          else if fr_resolution resp \<noteq> FUNDING_RESOLUTION
          then Inl (FundingsResolution (fr_resolution resp))
          else collect_res (settle_funding L) (fr_fundings resp))"

fun validate_rows ::
  "'t::linorder \<Rightarrow> 't \<Rightarrow> 't option \<Rightarrow> ('t, 'd) settled_funding list \<Rightarrow> funding_error + unit" where
  "validate_rows start now previous [] = Inr ()"
| "validate_rows start now previous (row # rows) =
     (if sf_time row < start then Inl BeforeStart
      else if (case previous of None \<Rightarrow> False | Some p \<Rightarrow> sf_time row \<le> p) then Inl NotIncreasing
      else if now < sf_time row then Inl AfterNow
      else validate_rows start now (Some (sf_time row)) rows)"

definition validate_page ::
  "'t::linorder \<Rightarrow> 't \<Rightarrow> ('t, 'd) settled_funding list \<Rightarrow> funding_error + unit" where
  "validate_page start now rows = validate_rows start now None rows"

section \<open>The hourly grid\<close>

definition floor_hour :: "('d, 't, 'f) libs \<Rightarrow> 't \<Rightarrow> funding_error + 't" where
  "floor_hour L time =
     (let secs = to_secs L time in ok_or Panicked (from_secs L (secs - secs mod 3600)))"

definition ceil_hour :: "('d, 't, 'f) libs \<Rightarrow> 't \<Rightarrow> funding_error + 't" where
  "ceil_hour L time =
     and_then (floor_hour L time) (\<lambda>floor.
       if floor = time then Inr floor else ok_or Panicked (plus_secs L floor 3600))"

definition next_request_start :: "('d, 't, 'f) libs \<Rightarrow> 't option \<Rightarrow> 't \<Rightarrow> funding_error + 't" where
  "next_request_start L newest_stored backfill_start =
     (case newest_stored of
        Some time \<Rightarrow> and_then (ok_or Panicked (plus_secs L time 1)) (ceil_hour L)
      | None \<Rightarrow> ceil_hour L backfill_start)"

definition hour_closed :: "('d, 't::linorder, 'f) libs \<Rightarrow> 't \<Rightarrow> 't \<Rightarrow> funding_error + bool" where
  "hour_closed L start now = and_then (floor_hour L now) (\<lambda>floor. Inr (start \<le> floor))"

section \<open>Polling\<close>

text \<open>The query of a request; the server answers it with a body, or the request fails.\<close>

record funding_request =
  rq_market_id :: int
  rq_resolution :: string
  rq_start :: int
  rq_end :: int
  rq_count_back :: int

type_synonym server = "funding_request \<Rightarrow> string option"

definition funding_request_of :: "('d, 't, 'f) libs \<Rightarrow> int \<Rightarrow> 't \<Rightarrow> 't \<Rightarrow> funding_request" where
  "funding_request_of L market_id start end =
     \<lparr>rq_market_id = market_id, rq_resolution = FUNDING_RESOLUTION, rq_start = to_secs L start,
      rq_end = to_secs L end, rq_count_back = 0\<rparr>"

definition fetch_page ::
  "('d, 't, 'f) libs \<Rightarrow> server \<Rightarrow> int \<Rightarrow> 't \<Rightarrow> 't \<Rightarrow> funding_error + ('t, 'd) settled_funding list" where
  "fetch_page L server market_id start end =
     and_then (ok_or FundingsHttp (server (funding_request_of L market_id start end)))
       (parse_fundings_response L)"

record 't round =
  rd_check :: 't        \<comment> \<open>the clock when \<open>hour_closed\<close> is asked\<close>
  rd_end :: 't          \<comment> \<open>the clock when the request is made\<close>
  rd_validate :: 't     \<comment> \<open>the clock when the page is checked\<close>
  rd_server :: server
  rd_db_ok :: bool

datatype poll_outcome =
    Polled                     \<comment> \<open>\<^verbatim>\<open>return Ok(())\<close>\<close>
  | PollFailed funding_error
  | Polling                    \<comment> \<open>still in the loop when the rounds are used up\<close>

definition funding_rows :: "int \<Rightarrow> ('t, 'd) settled_funding list \<Rightarrow> ('t, 'd) funding_row list" where
  "funding_rows symbol_id rows =
     map (\<lambda>r. \<lparr>fw_time = sf_time r, fw_symbol = symbol_id, fw_rate = sf_rate r,
               fw_direction = sf_direction r\<rparr>) rows"

text \<open>A closure on a pooled connection; the environment says whether there is one and it works.\<close>

definition with_conn ::
  "bool \<Rightarrow> ('db \<Rightarrow> db_error + 'a \<times> 'db) \<Rightarrow> 'db \<Rightarrow> funding_error + 'a \<times> 'db" where
  "with_conn pool_ok f db =
     (if pool_ok then map_err (\<lambda>_. FundingsDb) (f db) else Inl FundingsDb)"

text \<open>One turn of the loop of \<^verbatim>\<open>poll_market\<close>: it ends the poll or gives the start of the next page.\<close>

definition poll_round ::
  "('d, 't::linorder, 'f) libs \<Rightarrow> perp_market \<Rightarrow> 't \<Rightarrow> 't \<Rightarrow> 't round \<Rightarrow> ('t, 'f, 'd) db
   \<Rightarrow> (poll_outcome + 't) \<times> ('t, 'f, 'd) db" where
  "poll_round L market backfill_start start rd db =
     (case hour_closed L start (rd_check rd) of
        Inl e \<Rightarrow> (Inl (PollFailed e), db)
      | Inr closed \<Rightarrow>
          if \<not> closed then (Inl Polled, db)
          else (case fetch_page L (rd_server rd) (pm_market_id market) start (rd_end rd) of
            Inl e \<Rightarrow> (Inl (PollFailed e), db)
          | Inr rows \<Rightarrow>
              (case validate_page start (rd_validate rd) rows of
                 Inl e \<Rightarrow> (Inl (PollFailed e), db)
               | Inr _ \<Rightarrow>
                   if rows = [] then (Inl Polled, db)
                   else (case with_conn (rd_db_ok rd)
                            (insert_funding_rates (funding_rows (pm_symbol_id market) rows)) db of
                     Inl e \<Rightarrow> (Inl (PollFailed e), db)
                   | Inr (inserted, db') \<Rightarrow>
                       if length rows < MAX_FUNDINGS_PER_CALL then (Inl Polled, db')
                       else (case next_request_start L (Some (sf_time (last rows))) backfill_start of
                         Inl e \<Rightarrow> (Inl (PollFailed e), db')
                       | Inr start' \<Rightarrow> (Inr start', db'))))))"

fun poll_pages ::
  "('d, 't::linorder, 'f) libs \<Rightarrow> perp_market \<Rightarrow> 't \<Rightarrow> 't \<Rightarrow> 't round list \<Rightarrow> ('t, 'f, 'd) db
   \<Rightarrow> poll_outcome \<times> ('t, 'f, 'd) db" where
  "poll_pages L market backfill_start start [] db = (Polling, db)"
| "poll_pages L market backfill_start start (rd # rds) db =
     (case poll_round L market backfill_start start rd db of
        (Inl r, db') \<Rightarrow> (r, db')
      | (Inr start', db') \<Rightarrow> poll_pages L market backfill_start start' rds db')"

text \<open>Where a poll of a market starts.\<close>

definition poll_start ::
  "('d, 't::linorder, 'f) libs \<Rightarrow> perp_market \<Rightarrow> 't \<Rightarrow> bool \<Rightarrow> ('t, 'f, 'd) db \<Rightarrow> funding_error + 't" where
  "poll_start L market backfill_start newest_ok db =
     and_then (with_conn newest_ok (\<lambda>db. Inr (newest_funding_time (pm_symbol_id market) db, db)) db)
       (\<lambda>(newest, _). next_request_start L newest backfill_start)"

definition poll_market ::
  "('d, 't::linorder, 'f) libs \<Rightarrow> perp_market \<Rightarrow> 't \<Rightarrow> bool \<Rightarrow> 't round list \<Rightarrow> ('t, 'f, 'd) db
   \<Rightarrow> poll_outcome \<times> ('t, 'f, 'd) db" where
  "poll_market L market backfill_start newest_ok rds db =
     (case poll_start L market backfill_start newest_ok db of
        Inl e \<Rightarrow> (PollFailed e, db)
      | Inr start \<Rightarrow> poll_pages L market backfill_start start rds db)"

text \<open>One sweep of \<^verbatim>\<open>run_funding_poller\<close> over the markets, each with the environment's answers to it.\<close>

fun poll_sweep ::
  "('d, 't::linorder, 'f) libs \<Rightarrow> 't \<Rightarrow> (perp_market \<times> bool \<times> 't round list) list
   \<Rightarrow> ('t, 'f, 'd) db \<Rightarrow> poll_outcome \<times> ('t, 'f, 'd) db" where
  "poll_sweep L backfill_start [] db = (Polled, db)"
| "poll_sweep L backfill_start ((market, newest_ok, rds) # ms) db =
     (case poll_market L market backfill_start newest_ok rds db of
        (Polled, db') \<Rightarrow> poll_sweep L backfill_start ms db'
      | (r, db') \<Rightarrow> (r, db'))"

text \<open>The poller over a list of sweeps, each followed by a sleep; it ends with an error or not at all.\<close>

fun poll_sweeps ::
  "('d, 't::linorder, 'f) libs \<Rightarrow> 't \<Rightarrow> (perp_market \<times> bool \<times> 't round list) list list
   \<Rightarrow> ('t, 'f, 'd) db \<Rightarrow> poll_outcome \<times> ('t, 'f, 'd) db" where
  "poll_sweeps L backfill_start [] db = (Polling, db)"
| "poll_sweeps L backfill_start (sweep # sweeps) db =
     (case poll_sweep L backfill_start sweep db of
        (Polled, db') \<Rightarrow> poll_sweeps L backfill_start sweeps db'
      | (r, db') \<Rightarrow> (r, db'))"

definition run_funding_poller ::
  "('d, 't::linorder, 'f) libs \<Rightarrow> perp_market list \<Rightarrow> 't \<Rightarrow> (perp_market \<Rightarrow> bool \<times> 't round list) list
   \<Rightarrow> ('t, 'f, 'd) db \<Rightarrow> poll_outcome \<times> ('t, 'f, 'd) db" where
  "run_funding_poller L markets backfill_start sweeps db =
     (if markets = [] then (PollFailed NoPerpMarkets, db)
      else poll_sweeps L backfill_start (map (\<lambda>answer. map (\<lambda>m. (m, answer m)) markets) sweeps) db)"

end
