(* ===== verification/Funding_Grid.thy ===== *)
theory Funding_Grid
  imports Funding
begin

text \<open>
  The checks of \<^verbatim>\<open>src/funding.rs\<close> and its hourly grid, under the documented behaviour of chrono
  (\<open>chrono_ok\<close>). An hour is \<open>hour\<close> nanoseconds; an instant is on the grid when its nanoseconds are a
  multiple of it.
\<close>

section \<open>Pages\<close>

lemma validate_rows_ok:
  "validate_rows start now previous rows = Inr () \<longleftrightarrow>
     (\<forall>r \<in> set rows. start \<le> sf_time r \<and> sf_time r \<le> now)
   \<and> sorted_wrt (<) (map sf_time rows)
   \<and> (\<forall>p r. previous = Some p \<longrightarrow> r \<in> set rows \<longrightarrow> p < sf_time r)"
proof (induction rows arbitrary: previous)
  case (Cons r rows)
  show ?case
    by (cases previous) (auto simp: Cons.IH not_less dest: less_trans)
qed simp

lemma validate_page_ok:
  "validate_page start now rows = Inr () \<longleftrightarrow>
     (\<forall>r \<in> set rows. start \<le> sf_time r \<and> sf_time r \<le> now) \<and> sorted_wrt (<) (map sf_time rows)"
  by (simp add: validate_page_def validate_rows_ok)

section \<open>Hours\<close>

definition hour :: int where "hour = 3600000000000"

definition on_hour :: "('t \<Rightarrow> int) \<Rightarrow> 't \<Rightarrow> bool" where
  "on_hour nanos t \<longleftrightarrow> nanos t mod hour = 0"

lemma floor_secs: "(s div 1000000000 - (s div 1000000000) mod 3600) * 1000000000 = s - s mod hour"
  for s :: int
proof -
  have "s div hour = s div 1000000000 div 3600"
    using zdiv_zmult2_eq [of 3600 s 1000000000] by (simp add: hour_def)
  moreover have "s div 1000000000 - (s div 1000000000) mod 3600 = 3600 * (s div 1000000000 div 3600)"
    by (simp add: minus_mod_eq_mult_div)
  moreover have "s - s mod hour = hour * (s div hour)"
    by (simp add: minus_mod_eq_mult_div)
  ultimately show ?thesis by (simp add: hour_def)
qed

lemma floor_hour_nanos:
  "chrono_ok L nanos \<Longrightarrow> floor_hour L t = Inr f \<Longrightarrow> nanos f = nanos t - nanos t mod hour"
  using chrono_from_secs [of L nanos _ f] floor_secs [of "nanos t"]
  by (auto simp: floor_hour_def Let_def chrono_to_secs)

lemma multiples_apart:
  fixes a b m :: int
  assumes "0 < m" and "a mod m = 0" and "b mod m = 0" and "a < b"
  shows "a + m \<le> b"
proof -
  obtain i j where ij: "a = m * i" "b = m * j"
    using assms(2,3) by (auto simp: mod_eq_0_iff_dvd dvd_def)
  with assms(1,4) have "i < j" by simp
  then have "m * (i + 1) \<le> m * j" using assms(1) by (intro mult_left_mono) simp_all
  then show ?thesis by (simp add: ij algebra_simps)
qed

lemma mod_up: "0 < h \<Longrightarrow> (x - x mod h + h) mod h = 0" for x h :: int
  by (metis minus_mod_eq_mult_div mod_add_self2 mod_mult_self1_is_0)

lemma ceil_hour_nanos:
  assumes L: "chrono_ok L nanos" and c: "ceil_hour L t = Inr c"
  shows "on_hour nanos c" and "nanos t \<le> nanos c" and "nanos c < nanos t + hour"
proof -
  obtain f where f: "floor_hour L t = Inr f"
    and cs: "if f = t then c = f else plus_secs L f 3600 = Some c"
    using c by (auto simp: ceil_hour_def split: if_splits)
  note nf = floor_hour_nanos [OF L f]
  have h: "0 < hour" "hour = 3600 * 1000000000" by (simp_all add: hour_def)
  have m: "0 \<le> nanos t mod hour" "nanos t mod hour < hour" using h(1) by simp_all
  have "on_hour nanos c \<and> nanos t \<le> nanos c \<and> nanos c < nanos t + hour"
  proof (cases "f = t")
    case True
    with nf cs h(1) show ?thesis by (simp add: on_hour_def)
  next
    case False
    with cs have "nanos c = nanos f + 3600 * 1000000000" by (simp add: chrono_plus_secs [OF L])
    then have nc: "nanos c = nanos t - nanos t mod hour + hour" by (simp add: nf hour_def)
    have "nanos t mod hour \<noteq> 0" using False nf chrono_eq [OF L, of f t] by simp
    with nc m have "nanos t \<le> nanos c" "nanos c < nanos t + hour" by linarith+
    with nc h(1) show ?thesis by (simp add: on_hour_def mod_up)
  qed
  then show "on_hour nanos c" and "nanos t \<le> nanos c" and "nanos c < nanos t + hour" by simp_all
qed

text \<open>Two grid instants less than an hour apart are the same.\<close>

lemma on_hour_le:
  assumes "on_hour nanos a" and "on_hour nanos b" and "nanos a < nanos b + hour"
  shows "nanos a \<le> nanos b"
proof (rule ccontr)
  assume "\<not> nanos a \<le> nanos b"
  then have "nanos b + hour \<le> nanos a"
    using assms(1,2) by (intro multiples_apart) (simp_all add: on_hour_def hour_def)
  with assms(3) show False by simp
qed

lemma ceil_hour_least:
  assumes L: "chrono_ok L nanos" and c: "ceil_hour L t = Inr c" and "on_hour nanos h" and "t \<le> h"
  shows "c \<le> h"
  using on_hour_le [OF ceil_hour_nanos(1) [OF L c] assms(3)] ceil_hour_nanos(3) [OF L c] assms(4)
  by (simp add: chrono_le [OF L])

lemma floor_hour_total:
  assumes L: "chrono_ok L nanos" and lo: "nanos a \<le> nanos t - hour"
  shows "\<exists>f. floor_hour L t = Inr f"
proof -
  let ?s = "nanos t div 1000000000" let ?n = "?s - ?s mod 3600"
  have n: "?n * 1000000000 = nanos t - nanos t mod hour" by (rule floor_secs)
  have "0 \<le> nanos t mod hour" "nanos t mod hour < hour" by (simp_all add: hour_def)
  with n lo have "nanos a \<le> ?n * 1000000000" "?n * 1000000000 \<le> nanos t" by simp_all
  then have "from_secs L ?n \<noteq> None" by (rule chrono_from_secs_between [OF L])
  then show ?thesis by (auto simp: floor_hour_def Let_def chrono_to_secs [OF L])
qed

lemma ceil_hour_total:
  assumes L: "chrono_ok L nanos" and lo: "nanos a \<le> nanos t - hour" and hi: "nanos t + hour \<le> nanos b"
  shows "\<exists>c. ceil_hour L t = Inr c"
proof -
  obtain f where f: "floor_hour L t = Inr f" using floor_hour_total [OF L lo] by blast
  have "nanos f \<le> nanos t" using floor_hour_nanos [OF L f] by (simp add: hour_def)
  with hi have "nanos f + 3600 * 1000000000 \<le> nanos b" by (simp add: hour_def)
  then have "plus_secs L f 3600 \<noteq> None" by (intro chrono_plus_secs_below [OF L]) simp_all
  with f show ?thesis by (auto simp: ceil_hour_def)
qed

lemma next_request_start_total:
  assumes L: "chrono_ok L nanos" and lo: "nanos a \<le> nanos t - hour"
    and hi: "nanos t + 1000000000 + hour \<le> nanos b"
  shows "\<exists>s. next_request_start L (Some t) backfill = Inr s"
proof -
  have "plus_secs L t 1 \<noteq> None"
    using hi by (intro chrono_plus_secs_below [OF L, of 1 t b]) (simp_all add: hour_def)
  then obtain u where u: "plus_secs L t 1 = Some u" by blast
  then have "nanos u = nanos t + 1000000000" by (simp add: chrono_plus_secs [OF L])
  then have "\<exists>c. ceil_hour L u = Inr c" using lo hi by (intro ceil_hour_total [OF L, of a _ b]) simp_all
  with u show ?thesis by (auto simp: next_request_start_def)
qed

lemma next_request_start_nanos:
  assumes L: "chrono_ok L nanos" and s: "next_request_start L (Some t) backfill = Inr s"
  shows "on_hour nanos s" and "nanos t + 1000000000 \<le> nanos s" and "nanos s < nanos t + 1000000000 + hour"
proof -
  obtain u where u: "plus_secs L t 1 = Some u" and c: "ceil_hour L u = Inr s"
    using s by (auto simp: next_request_start_def)
  have "nanos u = nanos t + 1000000000" using u by (simp add: chrono_plus_secs [OF L])
  with ceil_hour_nanos [OF L c] show "on_hour nanos s" and "nanos t + 1000000000 \<le> nanos s"
    and "nanos s < nanos t + 1000000000 + hour" by simp_all
qed

text \<open>After a settlement, which lies on a whole second, comes the first grid instant later than it.\<close>

lemma next_request_start_least:
  assumes L: "chrono_ok L nanos" and s: "next_request_start L (Some t) backfill = Inr s"
    and t: "from_secs L k = Some t" and h: "on_hour nanos h" "t < h"
  shows "s \<le> h"
proof -
  have "nanos t mod 1000000000 = 0" using chrono_from_secs [OF L t] by simp
  moreover have "nanos h mod 1000000000 = 0"
    using h(1) mod_mod_cancel [of 1000000000 hour "nanos h"] by (simp add: on_hour_def hour_def)
  ultimately have "nanos t + 1000000000 \<le> nanos h"
    using h(2) by (intro multiples_apart) (simp_all add: chrono_less [OF L])
  with next_request_start_nanos [OF L s] have "nanos s < nanos h + hour" by simp
  with on_hour_le [OF next_request_start_nanos(1) [OF L s] h(1)] show ?thesis
    by (simp add: chrono_le [OF L])
qed

lemma hour_closed_grid:
  assumes L: "chrono_ok L nanos" and s: "on_hour nanos start" and c: "hour_closed L start now = Inr b"
  shows "b \<longleftrightarrow> start \<le> now"
proof -
  obtain f where f: "floor_hour L now = Inr f" and b: "b \<longleftrightarrow> start \<le> f"
    using c by (auto simp: hour_closed_def)
  have nf: "nanos f = nanos now - nanos now mod hour" by (rule floor_hour_nanos [OF L f])
  have m: "0 \<le> nanos now mod hour" "nanos now mod hour < hour" by (simp_all add: hour_def)
  have "on_hour nanos f" unfolding on_hour_def nf by (simp add: minus_mod_eq_mult_div)
  with nf m s on_hour_le [of nanos start f] have "nanos start \<le> nanos now \<longleftrightarrow> nanos start \<le> nanos f"
    by auto
  with b show ?thesis by (simp add: chrono_le [OF L])
qed

end
