(* ===== verification/Funding_Poll.thy ===== *)
theory Funding_Poll
  imports Funding_Grid
begin

text \<open>
  The paging loop of \<^verbatim>\<open>src/funding.rs\<close>: what it keeps of the database, that it returns, and that a
  market polled against a server that pages its settlements in order has stored every settlement up
  to the time of the poll.
\<close>

section \<open>The database through a poll\<close>

lemma insert_fundings_times:
  assumes "insert_funding_rates (funding_rows s rows) db = Inr (n, db')"
  shows "set (funding_times s db') = set (funding_times s db) \<union> sf_time ` set rows"
    and "s' \<noteq> s \<Longrightarrow> set (funding_times s' db') = set (funding_times s' db)"
proof -
  have times: "set (funding_times k d) = {t. (k, t) \<in> funding_key ` set (db_fundings d)}"
    for k and d :: "('a, 'b, 'c) db"
    by (auto simp: funding_times_def funding_key_def image_iff)
  have "funding_key ` set (funding_rows s rows) = (\<lambda>r. (s, sf_time r)) ` set rows"
    by (simp add: funding_rows_def funding_key_def image_image)
  with fundings_tbl.keys_after [OF assms]
  have keys: "funding_key ` set (db_fundings db')
      = funding_key ` set (db_fundings db) \<union> (\<lambda>r. (s, sf_time r)) ` set rows"
    by simp
  show "set (funding_times s db') = set (funding_times s db) \<union> sf_time ` set rows"
    by (auto simp: times keys)
  show "s' \<noteq> s \<Longrightarrow> set (funding_times s' db') = set (funding_times s' db)"
    by (auto simp: times keys)
qed

text \<open>One turn of the loop, when it goes on to the next page.\<close>

lemma poll_pages_cases:
  assumes "poll_pages L market backfill start (rd # rds) db = (r, db')"
  obtains (failed) e where "r = PollFailed e" and "db' = db \<or> (\<exists>rows n.
        fetch_page L (rd_server rd) (pm_market_id market) start (rd_end rd) = Inr rows \<and> rows \<noteq> [] \<and>
        insert_funding_rates (funding_rows (pm_symbol_id market) rows) db = Inr (n, db'))"
    | (closed) "hour_closed L start (rd_check rd) = Inr False" and "r = Polled" and "db' = db"
    | (page) rows where "hour_closed L start (rd_check rd) = Inr True"
      and "fetch_page L (rd_server rd) (pm_market_id market) start (rd_end rd) = Inr rows"
      and "validate_page start (rd_validate rd) rows = Inr ()"
      and "rows = [] \<and> r = Polled \<and> db' = db
         \<or> (\<exists>n. insert_funding_rates (funding_rows (pm_symbol_id market) rows) db = Inr (n, db'))
             \<and> rows \<noteq> [] \<and> length rows < MAX_FUNDINGS_PER_CALL \<and> r = Polled
         \<or> (\<exists>n db1 start'. insert_funding_rates (funding_rows (pm_symbol_id market) rows) db = Inr (n, db1)
             \<and> rows \<noteq> [] \<and> MAX_FUNDINGS_PER_CALL \<le> length rows
             \<and> next_request_start L (Some (sf_time (last rows))) backfill = Inr start'
             \<and> poll_pages L market backfill start' rds db1 = (r, db'))"
  using assms
  by (simp add: poll_round_def with_conn_def split: sum.splits if_splits prod.splits) (blast | fastforce)+

lemma poll_pages_inv:
  "poll_pages L market backfill start rds db = (r, db') \<Longrightarrow> db_inv db \<Longrightarrow>
   db_inv db' \<and> symbol_ids db' = symbol_ids db \<and> db_symbols db' = db_symbols db
   \<and> db_trades db' = db_trades db \<and> db_orderbooks db' = db_orderbooks db
   \<and> set (db_fundings db) \<subseteq> set (db_fundings db')"
proof (induction rds arbitrary: start db)
  case (Cons rd rds)
  have one: "db_inv d \<and> symbol_ids d = symbol_ids db \<and> db_symbols d = db_symbols db
      \<and> db_trades d = db_trades db \<and> db_orderbooks d = db_orderbooks db
      \<and> set (db_fundings db) \<subseteq> set (db_fundings d)"
    if ins: "insert_funding_rates rows db = Inr (n, d)" for rows n d
  proof -
    obtain new where new: "db_fundings d = db_fundings db @ new"
      using fundings_tbl.appends [OF ins] by blast
    have "d = db\<lparr>db_fundings := db_fundings db @ new\<rparr>"
      using insert_fundings_rest [OF ins] new by simp
    with insert_fundings_inv [OF Cons.prems(2) ins] show ?thesis by (simp add: symbol_ids_def)
  qed
  from Cons.prems(1) show ?case
  proof (cases rule: poll_pages_cases)
    case (failed e)
    with one Cons.prems(2) show ?thesis by blast
  next
    case closed
    with Cons.prems(2) show ?thesis by simp
  next
    case (page rows)
    from page(4) consider "db' = db"
      | n where "insert_funding_rates (funding_rows (pm_symbol_id market) rows) db = Inr (n, db')"
      | n db1 start' where "insert_funding_rates (funding_rows (pm_symbol_id market) rows) db = Inr (n, db1)"
          "poll_pages L market backfill start' rds db1 = (r, db')"
      by blast
    then show ?thesis
    proof cases
      case 1
      with Cons.prems(2) show ?thesis by simp
    next
      case 2
      then show ?thesis by (rule one)
    next
      case 3
      from one [OF 3(1)] Cons.IH [OF 3(2)] show ?thesis by auto
    qed
  qed
qed simp

section \<open>The loop returns\<close>

text \<open>A page that is accepted and full moves the start at least one hour.\<close>

lemma next_page_start:
  assumes L: "chrono_ok L nanos" and s: "on_hour nanos start"
    and ok: "validate_page start now rows = Inr ()" "rows \<noteq> []"
    and n: "next_request_start L (Some (sf_time (last rows))) backfill = Inr start'"
  shows "on_hour nanos start'" and "nanos start + hour \<le> nanos start'"
proof -
  show g: "on_hour nanos start'" by (rule next_request_start_nanos [OF L n])
  have "start \<le> sf_time (last rows)" using ok by (simp add: validate_page_ok)
  then have "nanos start \<le> nanos (sf_time (last rows))" by (simp add: chrono_le [OF L])
  with next_request_start_nanos(2) [OF L n] have "nanos start < nanos start'" by simp
  then show "nanos start + hour \<le> nanos start'"
    using s g by (intro multiples_apart) (simp_all add: on_hour_def hour_def)
qed

lemma poll_pages_returns:
  assumes L: "chrono_ok L nanos"
  shows "on_hour nanos start \<Longrightarrow> \<forall>rd \<in> set rds. nanos (rd_check rd) \<le> B \<Longrightarrow> rds \<noteq> [] \<Longrightarrow>
    B < nanos start + hour * (int (length rds) - 1) \<Longrightarrow>
    fst (poll_pages L market backfill start rds db) \<noteq> Polling"
proof (induction rds arbitrary: start db)
  case (Cons rd rds)
  obtain r db' where run: "poll_pages L market backfill start (rd # rds) db = (r, db')" by fastforce
  then have "r \<noteq> Polling"
  proof (cases rule: poll_pages_cases)
    case (page rows)
    have "start \<le> rd_check rd" using hour_closed_grid [OF L Cons.prems(1) page(1)] by simp
    then have "nanos start \<le> B" using Cons.prems(2) by (simp add: chrono_le [OF L])
    with Cons.prems(4) have rds: "rds \<noteq> []" by auto
    show ?thesis
    proof (cases "r = Polled")
      case False
      with page(4) obtain db1 start' where "rows \<noteq> []"
        and n: "next_request_start L (Some (sf_time (last rows))) backfill = Inr start'"
        and rest: "poll_pages L market backfill start' rds db1 = (r, db')" by blast
      note m = next_page_start [OF L Cons.prems(1) page(3) this(1) n]
      have "hour * (int (length (rd # rds)) - 1) = hour * (int (length rds) - 1) + hour"
        by (simp add: algebra_simps)
      with Cons.prems(4) m(2) have "B < nanos start' + hour * (int (length rds) - 1)" by simp
      with Cons.IH [OF m(1) _ rds, of db1] Cons.prems(2) rest show ?thesis by simp
    qed simp
  qed simp_all
  with run show ?case by simp
qed simp

section \<open>Every settlement is stored\<close>

text \<open>
  A server whose accepted replies are pages of the settlements \<open>S\<close> of the market (Unix seconds, in
  order): the first settlements of the requested window, at most one page of them.
\<close>

definition settlement_page :: "int list \<Rightarrow> funding_request \<Rightarrow> int list" where
  "settlement_page S rq =
     take MAX_FUNDINGS_PER_CALL (filter (\<lambda>s. rq_start rq \<le> s \<and> s \<le> rq_end rq) S)"

definition serves ::
  "('d, 't, 'f) libs \<Rightarrow> ('t \<Rightarrow> int) \<Rightarrow> int \<Rightarrow> int list \<Rightarrow> server \<Rightarrow> bool" where
  "serves L nanos market_id S server \<longleftrightarrow>
     (\<forall>rq body rows. rq_market_id rq = market_id \<longrightarrow> rq_resolution rq = FUNDING_RESOLUTION \<longrightarrow>
        server rq = Some body \<longrightarrow> parse_fundings_response L body = Inr rows \<longrightarrow>
        map (\<lambda>r. nanos (sf_time r)) rows = map (\<lambda>s. s * 1000000000) (settlement_page S rq))"

definition has_settlement ::
  "('t \<Rightarrow> int) \<Rightarrow> int \<Rightarrow> ('t, 'f, 'd) db \<Rightarrow> int \<Rightarrow> bool" where
  "has_settlement nanos symbol_id db s \<longleftrightarrow>
     (\<exists>t \<in> set (funding_times symbol_id db). nanos t = s * 1000000000)"

lemma has_settlement_mono:
  "has_settlement nanos k db s \<Longrightarrow> set (db_fundings db) \<subseteq> set (db_fundings db') \<Longrightarrow>
   has_settlement nanos k db' s"
  by (fastforce simp: has_settlement_def funding_times_def)

lemma fetch_page_serves:
  assumes L: "chrono_ok L nanos" and sv: "serves L nanos market_id S server"
    and f: "fetch_page L server market_id start end = Inr rows" and g: "on_hour nanos start"
    and "T \<le> nanos end"
  defines "F \<equiv> filter (\<lambda>s. to_secs L start \<le> s \<and> s \<le> to_secs L end) S"
  shows "map (\<lambda>r. nanos (sf_time r)) rows = map (\<lambda>s. s * 1000000000) (take MAX_FUNDINGS_PER_CALL F)"
    and "\<And>s. s \<in> set S \<Longrightarrow> nanos start \<le> s * 1000000000 \<Longrightarrow> s * 1000000000 \<le> T \<Longrightarrow> s \<in> set F"
proof -
  show "map (\<lambda>r. nanos (sf_time r)) rows = map (\<lambda>s. s * 1000000000) (take MAX_FUNDINGS_PER_CALL F)"
  proof -
    let ?rq = "funding_request_of L market_id start end"
    obtain body where "server ?rq = Some body" "parse_fundings_response L body = Inr rows"
      using f by (auto simp: fetch_page_def)
    with sv [unfolded serves_def, rule_format, of ?rq body rows] show ?thesis
      by (simp add: funding_request_of_def settlement_page_def F_def)
  qed
  fix s assume "s \<in> set S" "nanos start \<le> s * 1000000000" "s * 1000000000 \<le> T"
  moreover have "nanos start div 1000000000 \<le> s" if "nanos start \<le> s * 1000000000"
    using zdiv_mono1 [OF that, of 1000000000] by simp
  moreover have "s \<le> nanos end div 1000000000" if "s * 1000000000 \<le> T"
    using zdiv_mono1 [of "s * 1000000000" "nanos end" 1000000000] that assms(5) by simp
  ultimately show "s \<in> set F" by (simp add: F_def chrono_to_secs [OF L])
qed

lemma rows_stored:
  assumes "map (\<lambda>r. nanos (sf_time r)) rows = map (\<lambda>s. s * 1000000000) P" and "s \<in> set P"
    and "insert_funding_rates (funding_rows k rows) db = Inr (n, db')"
  shows "has_settlement nanos k db' s"
proof -
  have "s * 1000000000 \<in> set (map (\<lambda>r. nanos (sf_time r)) rows)"
    unfolding assms(1) using assms(2) by simp
  then obtain r where "r \<in> set rows" "nanos (sf_time r) = s * 1000000000" by auto
  with insert_fundings_times(1) [OF assms(3)] show ?thesis by (auto simp: has_settlement_def)
qed

lemma sorted_take_last:
  fixes F :: "int list"
  assumes "sorted_wrt (<) F" and "s \<in> set F" and "s \<notin> set (take n F)" and "take n F \<noteq> []"
  shows "last (take n F) < s"
proof -
  have "s \<in> set (drop n F)" using assms(2,3) by (metis Un_iff append_take_drop_id set_append)
  moreover have "sorted_wrt (<) (take n F @ drop n F)" using assms(1) by simp
  moreover have "last (take n F) \<in> set (take n F)" using assms(4) by (rule last_in_set)
  ultimately show ?thesis by (simp only: sorted_wrt_append)
qed

lemma poll_pages_complete:
  assumes L: "chrono_ok L nanos" and S: "sorted_wrt (<) S" "\<forall>s \<in> set S. s mod 3600 = 0"
  shows "on_hour nanos start \<Longrightarrow>
    \<forall>rd \<in> set rds. serves L nanos (pm_market_id market) S (rd_server rd)
        \<and> T \<le> nanos (rd_check rd) \<and> T \<le> nanos (rd_end rd) \<Longrightarrow>
    db_inv db \<Longrightarrow> poll_pages L market backfill start rds db = (Polled, db') \<Longrightarrow>
    s \<in> set S \<Longrightarrow> nanos start \<le> s * 1000000000 \<Longrightarrow> s * 1000000000 \<le> T \<Longrightarrow>
    has_settlement nanos (pm_symbol_id market) db' s"
proof (induction rds arbitrary: start db)
  case (Cons rd rds)
  note s = Cons.prems(5-7)
  from Cons.prems(4) show ?case
  proof (cases rule: poll_pages_cases)
    case (failed e)
    then show ?thesis by simp
  next
    case closed
    have "\<not> start \<le> rd_check rd" using hour_closed_grid [OF L Cons.prems(1) closed(1)] by simp
    with Cons.prems(2) s have False by (simp add: chrono_le [OF L])
    then show ?thesis ..
  next
    case (page rows)
    define F where "F = filter (\<lambda>s. to_secs L start \<le> s \<and> s \<le> to_secs L (rd_end rd)) S"
    have sv: "serves L nanos (pm_market_id market) S (rd_server rd)" "T \<le> nanos (rd_end rd)"
      using Cons.prems(2) by simp_all
    note P = fetch_page_serves [OF L sv(1) page(2) Cons.prems(1) sv(2), folded F_def]
    have sF: "s \<in> set F" using P(2) s by blast
    have len: "length rows = length (take MAX_FUNDINGS_PER_CALL F)"
      using arg_cong [OF P(1), of length] by simp
    from page(4) consider (empty) "rows = []"
      | (short) n where "insert_funding_rates (funding_rows (pm_symbol_id market) rows) db = Inr (n, db')"
          "length rows < MAX_FUNDINGS_PER_CALL"
      | (full) n db1 start' where
          "insert_funding_rates (funding_rows (pm_symbol_id market) rows) db = Inr (n, db1)" "rows \<noteq> []"
          "next_request_start L (Some (sf_time (last rows))) backfill = Inr start'"
          "poll_pages L market backfill start' rds db1 = (Polled, db')"
      by blast
    then show ?thesis
    proof cases
      case empty
      with len have "F = []" by (auto simp: MAX_FUNDINGS_PER_CALL_def min_def split: if_splits)
      with sF show ?thesis by simp
    next
      case short
      then have "take MAX_FUNDINGS_PER_CALL F = F" using len by simp
      with rows_stored [OF P(1) _ short(1)] sF show ?thesis by simp
    next
      case full
      have inv1: "db_inv db1" by (rule insert_fundings_inv [OF Cons.prems(3) full(1)])
      have keep: "set (db_fundings db1) \<subseteq> set (db_fundings db')"
        using poll_pages_inv [OF full(4) inv1] by simp
      show ?thesis
      proof (cases "s \<in> set (take MAX_FUNDINGS_PER_CALL F)")
        case True
        with rows_stored [OF P(1) _ full(1)] keep show ?thesis by (blast intro: has_settlement_mono)
      next
        case False
        let ?P = "take MAX_FUNDINGS_PER_CALL F"
        have ne: "?P \<noteq> []" using full(2) len by (auto simp: MAX_FUNDINGS_PER_CALL_def)
        have "sorted_wrt (<) F" using S(1) by (simp add: F_def sorted_wrt_filter)
        then have less: "last ?P < s" using sF False ne by (rule sorted_take_last)
        have "last ?P \<in> set S" using last_in_set [OF ne] by (auto simp: F_def dest: in_set_takeD)
        then have grid: "last ?P mod 3600 = 0" "s mod 3600 = 0" using S(2) s(1) by simp_all
        then have "last ?P + 3600 \<le> s" using less by (intro multiples_apart) simp_all
        moreover have "nanos (sf_time (last rows)) = last ?P * 1000000000"
          using arg_cong [OF P(1), of last] full(2) ne by (simp add: last_map)
        moreover note next_request_start_nanos [OF L full(3)]
        moreover have "s * 1000000000 mod hour = 0"
          using grid(2) by (simp add: hour_def mod_mult_mult2 [of s 1000000000 3600, simplified])
        ultimately have "nanos start' \<le> s * 1000000000"
          using multiples_apart [of hour "s * 1000000000" "nanos start'"]
          by (cases "nanos start' \<le> s * 1000000000") (simp_all add: on_hour_def hour_def)
        moreover have "on_hour nanos start'" by (rule next_request_start_nanos [OF L full(3)])
        ultimately show ?thesis using Cons.IH [OF _ _ inv1 full(4)] Cons.prems(2) s by simp
      qed
    qed
  qed
qed simp

section \<open>Restarts leave no gap\<close>

lemma newest_funding_time_None: "newest_funding_time k db = None \<longleftrightarrow> funding_times k db = []"
  by (simp add: newest_funding_time_def split: list.splits)

lemma fold_max: "t \<le> fold max ts (t :: 't::linorder) \<and> (\<forall>u \<in> set ts. u \<le> fold max ts t)
    \<and> fold max ts t \<in> insert t (set ts)"
proof (induction ts arbitrary: t)
  case (Cons u ts)
  show ?case using Cons.IH [of "max u t"] by (auto simp: max_def split: if_splits)
qed simp

lemma newest_funding_time_Some:
  "newest_funding_time k db = Some t \<Longrightarrow>
   t \<in> set (funding_times k db) \<and> (\<forall>u \<in> set (funding_times k db). u \<le> t)"
  using fold_max by (auto simp: newest_funding_time_def split: list.splits)

text \<open>
  \<open>no_gap\<close>: the stored settlements of a symbol lie on whole seconds, and between the backfill instant
  and the newest of them none of the market's settlements is missing.
\<close>

definition no_gap ::
  "('t \<Rightarrow> int) \<Rightarrow> 't \<Rightarrow> int list \<Rightarrow> int \<Rightarrow> ('t, 'f, 'd) db \<Rightarrow> bool" where
  "no_gap nanos backfill S k db \<longleftrightarrow>
     (\<forall>t \<in> set (funding_times k db). nanos t mod 1000000000 = 0)
   \<and> (\<forall>s \<in> set S. \<forall>t \<in> set (funding_times k db).
        nanos backfill \<le> s * 1000000000 \<longrightarrow> s * 1000000000 \<le> nanos t \<longrightarrow> has_settlement nanos k db s)"

text \<open>The state between two pages: everything before the next start is stored, nothing after it.\<close>

definition stored_below ::
  "('t \<Rightarrow> int) \<Rightarrow> 't \<Rightarrow> int list \<Rightarrow> int \<Rightarrow> 't \<Rightarrow> ('t, 'f, 'd) db \<Rightarrow> bool" where
  "stored_below nanos backfill S k start db \<longleftrightarrow>
     (\<forall>t \<in> set (funding_times k db). nanos t mod 1000000000 = 0 \<and> nanos t < nanos start)
   \<and> (\<forall>s \<in> set S. nanos backfill \<le> s * 1000000000 \<longrightarrow> s * 1000000000 < nanos start \<longrightarrow>
        has_settlement nanos k db s)"

lemma stored_below_no_gap: "stored_below nanos backfill S k start db \<Longrightarrow> no_gap nanos backfill S k db"
  by (fastforce simp: stored_below_def no_gap_def)

lemma grid_secs: "s mod 3600 = 0 \<Longrightarrow> s * 1000000000 mod hour = 0" for s :: int
  using mod_mult_mult2 [of s 1000000000 3600] by (simp add: hour_def)

lemma first_start_below:
  assumes L: "chrono_ok L nanos" and S: "\<forall>s \<in> set S. s mod 3600 = 0"
    and ng: "no_gap nanos backfill S k db"
    and n: "next_request_start L (newest_funding_time k db) backfill = Inr start"
  shows "on_hour nanos start" and "stored_below nanos backfill S k start db"
proof -
  have grid: "nanos start \<le> x" if "x mod hour = 0" "on_hour nanos start" "nanos start < x + hour" for x
    using that multiples_apart [of hour x "nanos start"] by (force simp: on_hour_def hour_def)
  have "on_hour nanos start \<and> stored_below nanos backfill S k start db"
  proof (cases "newest_funding_time k db")
    case None
    with n have c: "ceil_hour L backfill = Inr start" by (simp add: next_request_start_def)
    note cn = ceil_hour_nanos [OF L c]
    have "False" if "s \<in> set S" "nanos backfill \<le> s * 1000000000" "s * 1000000000 < nanos start" for s
      using grid [OF grid_secs cn(1), of s] S that cn(3) by simp
    with cn(1) None show ?thesis
      by (auto simp: stored_below_def newest_funding_time_None)
  next
    case (Some t)
    note nt = newest_funding_time_Some [OF Some]
    note sn = next_request_start_nanos [OF L n [unfolded Some]]
    have le: "nanos u \<le> nanos t" if "u \<in> set (funding_times k db)" for u
      using nt that by (simp add: chrono_le [OF L, symmetric])
    have "has_settlement nanos k db s"
      if s: "s \<in> set S" "nanos backfill \<le> s * 1000000000" "s * 1000000000 < nanos start" for s
    proof (cases "s * 1000000000 \<le> nanos t")
      case True
      with ng nt s show ?thesis by (auto simp: no_gap_def)
    next
      case False
      have "nanos t mod 1000000000 = 0" using ng nt by (simp add: no_gap_def)
      then have "nanos t + 1000000000 \<le> s * 1000000000" using False by (intro multiples_apart) simp_all
      with grid [OF grid_secs sn(1), of s] S s sn(3) show ?thesis by simp
    qed
    with sn ng le show ?thesis by (fastforce simp: stored_below_def no_gap_def)
  qed
  then show "on_hour nanos start" and "stored_below nanos backfill S k start db" by simp_all
qed

text \<open>Storing a page of settlements from \<open>start\<close> on.\<close>

lemma page_stored:
  assumes L: "chrono_ok L nanos" and S: "sorted_wrt (<) S" and g: "on_hour nanos start"
    and rows: "map (\<lambda>r. nanos (sf_time r)) rows
        = map (\<lambda>s. s * 1000000000) (take n (filter (\<lambda>s. to_secs L start \<le> s \<and> s \<le> e) S))"
    and ins: "insert_funding_rates (funding_rows k rows) db = Inr (m, db1)"
    and keep: "set (db_fundings db) \<subseteq> set (db_fundings db1)"
    and below: "stored_below nanos backfill S k start db" and ne: "rows \<noteq> []"
  shows "no_gap nanos backfill S k db1"
    and "nanos (sf_time (last rows)) mod 1000000000 = 0"
    and "\<forall>t \<in> set (funding_times k db1). nanos t \<le> nanos (sf_time (last rows))"
    and "\<forall>s \<in> set S. nanos backfill \<le> s * 1000000000 \<longrightarrow> s * 1000000000 \<le> nanos (sf_time (last rows))
        \<longrightarrow> has_settlement nanos k db1 s"
proof -
  define F where "F = filter (\<lambda>s. to_secs L start \<le> s \<and> s \<le> e) S"
  note rows = rows [folded F_def]
  have ne': "take n F \<noteq> []" using rows ne by (metis map_is_Nil_conv)
  have sF: "sorted_wrt (<) F" using S by (simp add: F_def sorted_wrt_filter)
  have last: "nanos (sf_time (last rows)) = last (take n F) * 1000000000"
    using arg_cong [OF rows, of last] ne ne' by (simp add: last_map)
  then show "nanos (sf_time (last rows)) mod 1000000000 = 0" by simp
  have "sorted_wrt (<) (take n F)" using sF by (rule sorted_wrt_take)
  then have upto: "x \<le> last (take n F)" if "x \<in> set (take n F)" for x
    using that ne' by (cases "take n F" rule: rev_cases) (auto simp: sorted_wrt_append)
  have new: "\<exists>x \<in> set (take n F). nanos (sf_time r) = x * 1000000000" if "r \<in> set rows" for r
  proof -
    have "nanos (sf_time r) \<in> set (map (\<lambda>s. s * 1000000000) (take n F))"
      using that unfolding rows [symmetric] by simp
    then show ?thesis by auto
  qed
  have inF: "last (take n F) \<in> set F" using last_in_set [OF ne'] by (rule in_set_takeD)
  then have l: "to_secs L start \<le> last (take n F)" "last (take n F) \<le> e" by (simp_all add: F_def)
  have st: "nanos start = to_secs L start * 1000000000"
  proof -
    have "nanos start mod 1000000000 = 0"
      using g mod_mod_cancel [of 1000000000 hour "nanos start"] by (simp add: on_hour_def hour_def)
    then show ?thesis by (auto simp: chrono_to_secs [OF L])
  qed
  show top: "\<forall>t \<in> set (funding_times k db1). nanos t \<le> nanos (sf_time (last rows))"
    using insert_fundings_times(1) [OF ins] below l st new upto
    by (fastforce simp: stored_below_def last)
  show cov: "\<forall>s \<in> set S. nanos backfill \<le> s * 1000000000 \<longrightarrow> s * 1000000000 \<le> nanos (sf_time (last rows))
        \<longrightarrow> has_settlement nanos k db1 s"
  proof (intro ballI impI)
    fix s assume s: "s \<in> set S" "nanos backfill \<le> s * 1000000000"
      "s * 1000000000 \<le> nanos (sf_time (last rows))"
    show "has_settlement nanos k db1 s"
    proof (cases "s * 1000000000 < nanos start")
      case True
      with below s keep show ?thesis by (blast intro: has_settlement_mono dest: stored_below_def [THEN iffD1])
    next
      case False
      with s l st have "s \<in> set F" by (simp add: F_def last)
      moreover have "s \<le> last (take n F)" using s(3) by (simp add: last)
      ultimately have "s \<in> set (take n F)"
        using sorted_take_last [OF sF _ _ ne', of s] by fastforce
      then show ?thesis by (rule rows_stored [OF rows _ ins])
    qed
  qed
  have "nanos t mod 1000000000 = 0" if "t \<in> set (funding_times k db1)" for t
    using that insert_fundings_times(1) [OF ins] below new by (fastforce simp: stored_below_def)
  with top cov show "no_gap nanos backfill S k db1" by (fastforce simp: no_gap_def)
qed

text \<open>Whatever ends the loop, and wherever it is interrupted, the database has no gap.\<close>

lemma next_start_below:
  assumes L: "chrono_ok L nanos" and S: "\<forall>s \<in> set S. s mod 3600 = 0"
    and n: "next_request_start L (Some t) backfill0 = Inr start'"
    and t: "nanos t mod 1000000000 = 0"
    and ng: "no_gap nanos backfill S k db"
    and top: "\<forall>u \<in> set (funding_times k db). nanos u \<le> nanos t"
    and cov: "\<forall>s \<in> set S. nanos backfill \<le> s * 1000000000 \<longrightarrow> s * 1000000000 \<le> nanos t
        \<longrightarrow> has_settlement nanos k db s"
  shows "stored_below nanos backfill S k start' db"
proof -
  note sn = next_request_start_nanos [OF L n]
  have "has_settlement nanos k db s"
    if s: "s \<in> set S" "nanos backfill \<le> s * 1000000000" "s * 1000000000 < nanos start'" for s
  proof (cases "s * 1000000000 \<le> nanos t")
    case True
    with cov s show ?thesis by simp
  next
    case False
    then have "nanos t + 1000000000 \<le> s * 1000000000" using t by (intro multiples_apart) simp_all
    with sn(3) have "nanos start' < s * 1000000000 + hour" by simp
    moreover have "s * 1000000000 + hour \<le> nanos start'"
      using s S sn(1) by (intro multiples_apart) (simp_all add: grid_secs on_hour_def, simp add: hour_def)
    ultimately show ?thesis by simp
  qed
  moreover have "nanos u < nanos start'" if "u \<in> set (funding_times k db)" for u
    using top that sn(2) by fastforce
  ultimately show ?thesis using ng by (auto simp: stored_below_def no_gap_def)
qed

lemma round_stored:
  assumes L: "chrono_ok L nanos" and S: "sorted_wrt (<) S" "\<forall>s \<in> set S. s mod 3600 = 0"
    and g: "on_hour nanos start" and sv: "serves L nanos market_id S server"
    and below: "stored_below nanos backfill S k start db"
    and f: "fetch_page L server market_id start e = Inr rows" and ne: "rows \<noteq> []"
    and ins: "insert_funding_rates (funding_rows k rows) db = Inr (n, db1)"
  shows "no_gap nanos backfill S k db1"
    and "next_request_start L (Some (sf_time (last rows))) backfill0 = Inr start' \<Longrightarrow>
      stored_below nanos backfill S k start' db1"
proof -
  have keep: "set (db_fundings db) \<subseteq> set (db_fundings db1)"
    using fundings_tbl.appends [OF ins] by auto
  note P = page_stored [OF L S(1) g fetch_page_serves(1) [OF L sv f g order_refl] ins keep below ne]
  show "no_gap nanos backfill S k db1" by (rule P(1))
  show "next_request_start L (Some (sf_time (last rows))) backfill0 = Inr start' \<Longrightarrow>
      stored_below nanos backfill S k start' db1"
    using next_start_below [OF L S(2) _ P(2) P(1) P(3) P(4)] by blast
qed

lemma poll_pages_no_gap:
  assumes L: "chrono_ok L nanos" and S: "sorted_wrt (<) S" "\<forall>s \<in> set S. s mod 3600 = 0"
  shows "on_hour nanos start \<Longrightarrow>
    \<forall>rd \<in> set rds. serves L nanos (pm_market_id market) S (rd_server rd) \<Longrightarrow> db_inv db \<Longrightarrow>
    stored_below nanos backfill S (pm_symbol_id market) start db \<Longrightarrow>
    poll_pages L market backfill0 start rds db = (r, db') \<Longrightarrow>
    no_gap nanos backfill S (pm_symbol_id market) db'"
proof (induction rds arbitrary: start db)
  case Nil
  then show ?case by (simp add: stored_below_no_gap)
next
  case (Cons rd rds)
  let ?k = "pm_symbol_id market"
  note below = Cons.prems(4)
  have sv: "serves L nanos (pm_market_id market) S (rd_server rd)" using Cons.prems(2) by simp
  note stored1 = round_stored [OF L S Cons.prems(1) sv below]
  from Cons.prems(5) show ?case
  proof (cases rule: poll_pages_cases)
    case (failed e)
    with stored1(1) stored_below_no_gap [OF below] show ?thesis by blast
  next
    case closed
    with stored_below_no_gap [OF below] show ?thesis by simp
  next
    case (page rows)
    note fetched = page(2)
    from page(4) consider "db' = db"
      | n where "insert_funding_rates (funding_rows ?k rows) db = Inr (n, db')" "rows \<noteq> []"
      | n db1 start' where "insert_funding_rates (funding_rows ?k rows) db = Inr (n, db1)" "rows \<noteq> []"
          "next_request_start L (Some (sf_time (last rows))) backfill0 = Inr start'"
          "poll_pages L market backfill0 start' rds db1 = (r, db')"
      by blast
    then show ?thesis
    proof cases
      case 1
      with stored_below_no_gap [OF below] show ?thesis by simp
    next
      case 2
      with stored1(1) [OF fetched] show ?thesis by blast
    next
      case 3
      have "stored_below nanos backfill S ?k start' db1" by (rule stored1(2) [OF fetched 3(2,1,3)])
      moreover have "on_hour nanos start'" by (rule next_request_start_nanos [OF L 3(3)])
      moreover have "db_inv db1" by (rule insert_fundings_inv [OF Cons.prems(3) 3(1)])
      ultimately show ?thesis using Cons.IH [OF _ _ _ _ 3(4)] Cons.prems(2) by simp
    qed
  qed
qed

text \<open>The turn alone, when it goes on to the next page.\<close>

lemma poll_round_below:
  assumes L: "chrono_ok L nanos" and S: "sorted_wrt (<) S" "\<forall>s \<in> set S. s mod 3600 = 0"
    and "on_hour nanos start" and "serves L nanos (pm_market_id market) S (rd_server rd)"
    and "stored_below nanos backfill S (pm_symbol_id market) start db"
    and run: "poll_round L market backfill0 start rd db = (Inr start', db')"
  shows "on_hour nanos start' \<and> stored_below nanos backfill S (pm_symbol_id market) start' db'"
proof -
  obtain rows n where f: "fetch_page L (rd_server rd) (pm_market_id market) start (rd_end rd) = Inr rows" "rows \<noteq> []"
    and i: "insert_funding_rates (funding_rows (pm_symbol_id market) rows) db = Inr (n, db')"
    and nx: "next_request_start L (Some (sf_time (last rows))) backfill0 = Inr start'"
    using run by (auto simp: poll_round_def with_conn_def split: sum.splits if_splits prod.splits)
  from round_stored(2) [OF assms(1-6) f i nx] next_request_start_nanos(1) [OF L nx] show ?thesis by simp
qed

section \<open>Markets and sweeps\<close>

lemma no_gap_cong:
  "set (funding_times k db) = set (funding_times k db') \<Longrightarrow>
   no_gap nanos backfill S k db = no_gap nanos backfill S k db'"
  by (simp add: no_gap_def has_settlement_def)

lemma poll_pages_others:
  "poll_pages L market backfill start rds db = (r, db') \<Longrightarrow> k \<noteq> pm_symbol_id market \<Longrightarrow>
   set (funding_times k db') = set (funding_times k db)"
proof (induction rds arbitrary: start db)
  case (Cons rd rds)
  from Cons.prems(1) show ?case
  proof (cases rule: poll_pages_cases)
    case (failed e)
    with insert_fundings_times(2) [OF _ Cons.prems(2)] show ?thesis by blast
  next
    case closed
    then show ?thesis by simp
  next
    case (page rows)
    note other = insert_fundings_times(2) [OF _ Cons.prems(2)]
    from page(4) consider "db' = db"
      | n where "insert_funding_rates (funding_rows (pm_symbol_id market) rows) db = Inr (n, db')"
      | n db1 start' where "insert_funding_rates (funding_rows (pm_symbol_id market) rows) db = Inr (n, db1)"
          "poll_pages L market backfill start' rds db1 = (r, db')"
      by blast
    then show ?thesis
    proof cases
      case 1
      then show ?thesis by simp
    next
      case 2
      then show ?thesis by (rule other)
    next
      case 3
      with other Cons.IH [OF 3(2) Cons.prems(2)] show ?thesis by simp
    qed
  qed
qed simp

lemma poll_market_cases:
  assumes "poll_market L market backfill newest_ok rds db = (r, db')"
  obtains (failed) e where "r = PollFailed e" and "db' = db"
    | (polled) start where "next_request_start L (newest_funding_time (pm_symbol_id market) db) backfill = Inr start"
        and "poll_pages L market backfill start rds db = (r, db')"
  using assms
  by (auto simp: poll_market_def poll_start_def with_conn_def and_then_def split: if_splits sum.splits)

text \<open>What a poll keeps: the tables, and that no market of a list has a gap.\<close>

definition grown :: "('t, 'f, 'd) db \<Rightarrow> ('t, 'f, 'd) db \<Rightarrow> bool" where
  "grown db db' \<longleftrightarrow> db_symbols db' = db_symbols db \<and> db_trades db' = db_trades db
     \<and> db_orderbooks db' = db_orderbooks db \<and> set (db_fundings db) \<subseteq> set (db_fundings db')"

lemma grown_refl [simp]: "grown db db"
  by (simp add: grown_def)

lemma grown_trans: "grown a b \<Longrightarrow> grown b c \<Longrightarrow> grown a c"
  by (auto simp: grown_def)

lemma poll_market_inv:
  "poll_market L market backfill ok rds db = (r, db') \<Longrightarrow> db_inv db \<Longrightarrow> db_inv db' \<and> grown db db'"
  by (erule poll_market_cases) (auto simp: grown_def dest: poll_pages_inv)

definition no_gaps ::
  "('t \<Rightarrow> int) \<Rightarrow> 't \<Rightarrow> (int \<Rightarrow> int list) \<Rightarrow> perp_market list \<Rightarrow> ('t, 'f, 'd) db \<Rightarrow> bool" where
  "no_gaps nanos backfill S markets db \<longleftrightarrow>
     (\<forall>m \<in> set markets. no_gap nanos backfill (S (pm_market_id m)) (pm_symbol_id m) db)"

text \<open>The answers of a server that pages the settlements \<open>S\<close> of each market.\<close>

definition served ::
  "('d, 't, 'f) libs \<Rightarrow> ('t \<Rightarrow> int) \<Rightarrow> (int \<Rightarrow> int list) \<Rightarrow> perp_market \<Rightarrow> 't round list \<Rightarrow> bool" where
  "served L nanos S market rds \<longleftrightarrow>
     (\<forall>rd \<in> set rds. serves L nanos (pm_market_id market) (S (pm_market_id market)) (rd_server rd))"

definition hourly :: "(int \<Rightarrow> int list) \<Rightarrow> bool" where
  "hourly S \<longleftrightarrow> (\<forall>m. sorted_wrt (<) (S m) \<and> (\<forall>s \<in> set (S m). s mod 3600 = 0))"

lemma poll_market_no_gaps:
  assumes L: "chrono_ok L nanos" and S: "hourly S" and m: "market \<in> set markets"
    and d: "distinct (map pm_symbol_id markets)" and sv: "served L nanos S market rds" and inv: "db_inv db"
    and ng: "no_gaps nanos backfill S markets db"
    and run: "poll_market L market backfill ok rds db = (r, db')"
  shows "no_gaps nanos backfill S markets db'"
  using run
proof (cases rule: poll_market_cases)
  case (failed e)
  with ng show ?thesis by simp
next
  case (polled start)
  let ?S = "S (pm_market_id market)"
  have h: "sorted_wrt (<) ?S" "\<forall>s \<in> set ?S. s mod 3600 = 0" using S by (simp_all add: hourly_def)
  have one: "no_gap nanos backfill ?S (pm_symbol_id market) db" using ng m by (simp add: no_gaps_def)
  note st = first_start_below [OF L h(2) one polled(1)]
  have new: "no_gap nanos backfill ?S (pm_symbol_id market) db'"
    using sv by (intro poll_pages_no_gap [OF L h st(1) _ inv st(2) polled(2)]) (simp add: served_def)
  have "no_gap nanos backfill (S (pm_market_id k)) (pm_symbol_id k) db'" if "k \<in> set markets" for k
  proof (cases "k = market")
    case False
    with d m that have "pm_symbol_id k \<noteq> pm_symbol_id market" by (auto simp: distinct_map inj_on_def)
    from no_gap_cong [OF poll_pages_others [OF polled(2) this]] ng that show ?thesis
      by (simp add: no_gaps_def)
  qed (use new in simp)
  then show ?thesis by (simp add: no_gaps_def)
qed

lemma poll_sweep_inv:
  "poll_sweep L backfill ms db = (r, db') \<Longrightarrow> db_inv db \<Longrightarrow> db_inv db' \<and> grown db db'"
proof (induction ms arbitrary: db)
  case (Cons p ms)
  obtain m ok rds where p: "p = (m, ok, rds)" by (cases p) auto
  obtain r1 db1 where one: "poll_market L m backfill ok rds db = (r1, db1)" by fastforce
  note inv1 = poll_market_inv [OF one Cons.prems(2)]
  from Cons p one inv1 show ?case
    by (cases r1) (auto intro: grown_trans)
qed simp

lemma poll_sweep_no_gaps:
  assumes L: "chrono_ok L nanos" and S: "hourly S" and d: "distinct (map pm_symbol_id markets)"
  shows "\<forall>(m, ok, rds) \<in> set ms. m \<in> set markets \<and> served L nanos S m rds \<Longrightarrow> db_inv db \<Longrightarrow>
    no_gaps nanos backfill S markets db \<Longrightarrow> poll_sweep L backfill ms db = (r, db') \<Longrightarrow>
    no_gaps nanos backfill S markets db'"
proof (induction ms arbitrary: db)
  case (Cons p ms)
  obtain m ok rds where p: "p = (m, ok, rds)" by (cases p) auto
  obtain r1 db1 where one: "poll_market L m backfill ok rds db = (r1, db1)" by fastforce
  have m: "m \<in> set markets" "served L nanos S m rds" using Cons.prems(1) p by simp_all
  have inv1: "db_inv db1" using poll_market_inv [OF one Cons.prems(2)] by simp
  have ng1: "no_gaps nanos backfill S markets db1"
    by (rule poll_market_no_gaps [OF L S m(1) d m(2) Cons.prems(2,3) one])
  from Cons p one inv1 ng1 show ?case by (cases r1) auto
qed simp

lemma poll_sweeps_inv:
  "poll_sweeps L backfill sweeps db = (r, db') \<Longrightarrow> db_inv db \<Longrightarrow> db_inv db' \<and> grown db db'"
proof (induction sweeps arbitrary: db)
  case (Cons ms sweeps)
  obtain r1 db1 where one: "poll_sweep L backfill ms db = (r1, db1)" by fastforce
  note inv1 = poll_sweep_inv [OF one Cons.prems(2)]
  from Cons one inv1 show ?case by (cases r1) (auto intro: grown_trans)
qed simp

lemma poll_sweeps_no_gaps:
  assumes L: "chrono_ok L nanos" and S: "hourly S" and d: "distinct (map pm_symbol_id markets)"
  shows "\<forall>ms \<in> set sweeps. \<forall>(m, ok, rds) \<in> set ms. m \<in> set markets \<and> served L nanos S m rds \<Longrightarrow>
    db_inv db \<Longrightarrow> no_gaps nanos backfill S markets db \<Longrightarrow> poll_sweeps L backfill sweeps db = (r, db') \<Longrightarrow>
    no_gaps nanos backfill S markets db'"
proof (induction sweeps arbitrary: db)
  case (Cons ms sweeps)
  obtain r1 db1 where one: "poll_sweep L backfill ms db = (r1, db1)" by fastforce
  have inv1: "db_inv db1" using poll_sweep_inv [OF one Cons.prems(2)] by simp
  have ng1: "no_gaps nanos backfill S markets db1"
    using Cons.prems(1) by (intro poll_sweep_no_gaps [OF L S d _ Cons.prems(2,3) one]) simp
  from Cons one inv1 ng1 show ?case by (cases r1) auto
qed simp

lemma run_poller_inv:
  "run_funding_poller L markets backfill sweeps db = (r, db') \<Longrightarrow> db_inv db \<Longrightarrow> db_inv db' \<and> grown db db'"
  by (auto simp: run_funding_poller_def split: if_splits dest: poll_sweeps_inv)

lemma run_poller_no_gaps:
  assumes "chrono_ok L nanos" and "hourly S" and "distinct (map pm_symbol_id markets)"
    and "\<forall>answer \<in> set sweeps. \<forall>m \<in> set markets. served L nanos S m (snd (answer m))" and "db_inv db"
    and "no_gaps nanos backfill S markets db"
    and "run_funding_poller L markets backfill sweeps db = (r, db')"
  shows "no_gaps nanos backfill S markets db'"
proof (cases "markets = []")
  case False
  with assms(7) have "poll_sweeps L backfill (map (\<lambda>answer. map (\<lambda>m. (m, answer m)) markets) sweeps) db = (r, db')"
    by (simp add: run_funding_poller_def)
  with assms(4) show ?thesis
    by (intro poll_sweeps_no_gaps [OF assms(1-3) _ assms(5,6)]) (auto simp: split_beta)
qed (simp add: no_gaps_def)

end
