(* ===== verification/Ingestor.thy ===== *)
theory Ingestor
  imports Session Writer Funding_Poll Export "HOL-Library.Multiset"
begin

text \<open>
  \<^verbatim>\<open>src/main.rs\<close>: the command line, the start of the service (settings, symbol sync in one
  transaction, the symbol cache and the perp markets) and the loop that reconnects the WebSocket
  session. A start runs against the answers of its environment (\<open>start_env\<close>) and a database.
\<close>

section \<open>Symbol sync\<close>

datatype sync_error =
    OrderBooksHttp
  | OrderBooksCode int
  | NoMarkets
  | UnsupportedMarketType string int
  | SyncUpsert db_error
  | SyncCommit

fun upsert_all ::
  "order_book_info list \<Rightarrow> ('t, 'f, 'd) db \<Rightarrow> (db_error + unit) \<times> ('t, 'f, 'd) db" where
  "upsert_all [] db = (Inr (), db)"
| "upsert_all (market # markets) db =
     (case upsert_symbol (mk_symbol market) (mk_market_type market) (mk_market_id market) db of
        Inl e \<Rightarrow> (Inl e, db\<lparr>db_next_symbol := db_next_symbol db + 1\<rparr>)
      | Inr (symbol_id, db') \<Rightarrow> upsert_all markets db')"

text \<open>A rolled-back transaction leaves the rows as they were; the ids it drew stay drawn.\<close>

definition rolled_back :: "('t, 'f, 'd) db \<Rightarrow> ('t, 'f, 'd) db \<Rightarrow> ('t, 'f, 'd) db" where
  "rolled_back before after = before\<lparr>db_next_symbol := db_next_symbol after\<rparr>"

definition sync_symbols ::
  "('d, 't, 'f) libs \<Rightarrow> string option \<Rightarrow> bool \<Rightarrow> ('t, 'f, 'd) db
   \<Rightarrow> (sync_error + unit) \<times> ('t, 'f, 'd) db" where
  "sync_symbols L reply commit_ok db =
     (case Option.bind (Option.bind reply (json_document L)) de_order_books_response of
        None \<Rightarrow> (Inl OrderBooksHttp, db)
      | Some resp \<Rightarrow>
          if obs_code resp \<noteq> 200 then (Inl (OrderBooksCode (obs_code resp)), db)
          else if obs_order_books resp = [] then (Inl NoMarkets, db)
          else (case find (\<lambda>m. mk_market_type m \<notin> {''perp'', ''spot''}) (obs_order_books resp) of
            Some m \<Rightarrow> (Inl (UnsupportedMarketType (mk_market_type m) (mk_market_id m)), db)
          | None \<Rightarrow>
              (case upsert_all (obs_order_books resp) db of
                 (Inl e, db') \<Rightarrow> (Inl (SyncUpsert e), rolled_back db db')
               | (Inr _, db') \<Rightarrow>
                   if commit_ok then (Inr (), db')
                   else (Inl SyncCommit, rolled_back db db'))))"

section \<open>Settings and start\<close>

datatype export_dataset = DsTrades | DsOrderbooks | DsBoth

record export_args =
  ea_output_dir :: string
  ea_symbols :: "string list"
  ea_dataset :: export_dataset
  ea_hours :: "nat option"
  ea_no_overwrite :: bool

record 't config =
  cf_database_url :: "string option"    \<comment> \<open>\<^verbatim>\<open>DATABASE_URL\<close>\<close>
  cf_command :: "export_args option"    \<comment> \<open>\<^verbatim>\<open>export\<close>, or no subcommand\<close>
  cf_poll_interval :: "nat option"
  cf_backfill_start :: "'t option"
  cf_snapshot_interval :: "nat option"

datatype main_error =
    DatabaseUrlUnset
  | SettingsMissing
  | ConnectPostgres
  | SymbolSync sync_error
  | LoadSymbolCache
  | LoadPerpMarkets
  | ConnectionPool
  | ExportError export_error

record start_env =
  st_connect :: bool
  st_order_books :: "string option"              \<comment> \<open>the body of \<^verbatim>\<open>/api/v1/orderBooks\<close>\<close>
  st_commit :: bool
  st_cache :: bool
  st_key_order :: "int \<Rightarrow> int"                  \<comment> \<open>the order in which a \<^verbatim>\<open>HashMap\<close> lists its keys\<close>
  st_markets :: bool
  st_pool :: bool

text \<open>\<^verbatim>\<open>symbol_cache.keys().copied().collect()\<close>: each key of the map that \<open>load_symbol_cache\<close> makes of the symbol
  table, once, in an order that the environment picks.\<close>

definition cache_keys :: "(int \<Rightarrow> int) \<Rightarrow> ('t, 'f, 'd) db \<Rightarrow> int list" where
  "cache_keys order db = sort_key order (remdups (map sym_market_id (db_symbols db)))"

text \<open>What the tasks of the running service get.\<close>

record 't services =
  sv_symbol_cache :: "int \<rightharpoonup> int"
  sv_market_ids :: "int list"
  sv_perp_markets :: "perp_market list"
  sv_backfill_start :: 't
  sv_poll_interval :: nat
  sv_snapshot_interval :: nat

definition start_ingestor ::
  "('d, 't, 'f) libs \<Rightarrow> 't config \<Rightarrow> start_env \<Rightarrow> ('t, 'f, 'd) db
   \<Rightarrow> (main_error + 't services) \<times> ('t, 'f, 'd) db" where
  "start_ingestor L cfg env db =
     (case (cf_poll_interval cfg, cf_backfill_start cfg, cf_snapshot_interval cfg) of
        (Some poll, Some backfill, Some snapshot) \<Rightarrow>
          if \<not> st_connect env then (Inl ConnectPostgres, db)
          else (case sync_symbols L (st_order_books env) (st_commit env) db of
            (Inl e, db') \<Rightarrow> (Inl (SymbolSync e), db')
          | (Inr _, db') \<Rightarrow>
              if \<not> st_cache env then (Inl LoadSymbolCache, db')
              else let cache = load_symbol_cache db'; market_ids = cache_keys (st_key_order env) db' in
              if \<not> st_markets env then (Inl LoadPerpMarkets, db')
              else if \<not> st_pool env then (Inl ConnectionPool, db')
              else (Inr \<lparr>sv_symbol_cache = cache, sv_market_ids = market_ids,
                         sv_perp_markets = load_perp_markets db', sv_backfill_start = backfill,
                         sv_poll_interval = poll, sv_snapshot_interval = snapshot\<rparr>, db'))
      | _ \<Rightarrow> (Inl SettingsMissing, db))"

datatype 't main_result =
    Failed main_error
  | ExportDone
  | Serving "'t services"

definition ingestor_main ::
  "('d, 't, 'f) libs \<Rightarrow> 't config \<Rightarrow> start_env \<Rightarrow> ('t, 'f) export_env \<Rightarrow> 'f files \<times> ('t, 'f, 'd) db
   \<Rightarrow> 't main_result \<times> 'f files \<times> ('t, 'f, 'd) db" where
  "ingestor_main L cfg env xenv world =
     (let (files, db) = world in
      case cf_database_url cfg of
        None \<Rightarrow> (Failed DatabaseUrlUnset, world)
      | Some url \<Rightarrow>
          (case cf_command cfg of
             Some args \<Rightarrow>
               (let (r, files') = export_parquet L xenv (ea_output_dir args) (ea_symbols args)
                      (ea_hours args) (ea_dataset args \<in> {DsTrades, DsBoth})
                      (ea_dataset args \<in> {DsOrderbooks, DsBoth}) (\<not> ea_no_overwrite args) files
                in (case r of Inl e \<Rightarrow> Failed (ExportError e) | Inr _ \<Rightarrow> ExportDone, files', db))
           | None \<Rightarrow>
               (let (r, db') = start_ingestor L cfg env db
                in (case r of Inl e \<Rightarrow> Failed e | Inr sv \<Rightarrow> Serving sv, files, db'))))"

section \<open>The reconnect loop\<close>

text \<open>One session: whether it connects, whether the writer receives, how many writes the socket takes
  and the events of its loop.\<close>

record session =
  ss_connect :: bool
  ss_tx_open :: bool
  ss_sink :: "nat option"
  ss_events :: "event list"

definition session_run ::
  "('d::linorder, 't::linorder, 'f) libs \<Rightarrow> int list \<Rightarrow> (int \<rightharpoonup> int) \<Rightarrow> session
   \<Rightarrow> (ws_error + unit) \<times> ('d, 't, 'f) conn" where
  "session_run L market_ids symbol_cache s =
     run_ws_ingestion L market_ids symbol_cache (ss_connect s) (ss_events s)
       (fresh_conn (ss_tx_open s) (ss_sink s))"

text \<open>The rows handed to the writer, over a list of sessions: each new one begins when the one before
  it has failed.\<close>

fun ws_sessions ::
  "('d::linorder, 't::linorder, 'f) libs \<Rightarrow> int list \<Rightarrow> (int \<rightharpoonup> int) \<Rightarrow> session list
   \<Rightarrow> ('t, 'f) write_msg list" where
  "ws_sessions L market_ids symbol_cache [] = []"
| "ws_sessions L market_ids symbol_cache (s # ss) =
     (case session_run L market_ids symbol_cache s of
        (Inl e, c) \<Rightarrow> cn_rows c @ ws_sessions L market_ids symbol_cache ss
      | (Inr _, c) \<Rightarrow> cn_rows c)"

section \<open>Facts\<close>

lemma cache_keys_dom: "distinct (cache_keys order db) \<and> set (cache_keys order db) = dom (load_symbol_cache db)"
  by (auto simp: cache_keys_def load_symbol_cache_def dom_map_of_conv_image_fst image_image)

text \<open>Every order of the keys is one that the environment can pick.\<close>

lemma cache_keys_any:
  assumes "distinct ks" and "set ks = dom (load_symbol_cache db)"
  shows "\<exists>order. cache_keys order db = ks"
proof (intro exI)
  let ?place = "\<lambda>k. int (length (takeWhile (\<lambda>j. j \<noteq> k) ks))"
  let ?keys = "remdups (map sym_market_id (db_symbols db))"
  have nth: "length (takeWhile (\<lambda>j. j \<noteq> ks ! i) ks) = i" if "i < length ks" for i
  proof -
    have "takeWhile (\<lambda>j. j \<noteq> ks ! i) ks = take i ks"
      using that assms(1) by (intro takeWhile_eq_take_P_nth) (auto simp: nth_eq_iff_index_eq)
    with that show ?thesis by simp
  qed
  have "sorted (map ?place ks)" by (auto simp: sorted_iff_nth_mono nth)
  moreover have "set ?keys = set ks"
    using assms(2) by (auto simp: load_symbol_cache_def dom_map_of_conv_image_fst image_image)
  then have "mset ?keys = mset ks" using assms(1) by (metis distinct_remdups set_eq_iff_mset_eq_distinct)
  moreover have "inj_on ?place (set ?keys)"
    unfolding \<open>set ?keys = set ks\<close> by (auto simp: inj_on_def in_set_conv_nth nth)
  ultimately show "cache_keys ?place db = ks"
    unfolding cache_keys_def by (intro sort_key_inj_key_eq)
qed

lemma upsert_all_inv:
  "db_inv db \<Longrightarrow> upsert_all ms db = (Inr (), db') \<Longrightarrow> db_inv db'"
  by (induction ms arbitrary: db) (auto split: sum.splits prod.splits intro: upsert_db_inv)

lemma upsert_all_keeps:
  "upsert_all ms db = (Inr (), db') \<Longrightarrow> symbol_ids db \<subseteq> symbol_ids db' \<and> db_trades db' = db_trades db
     \<and> db_orderbooks db' = db_orderbooks db \<and> db_fundings db' = db_fundings db"
proof (induction ms arbitrary: db)
  case (Cons m ms)
  from Cons.prems obtain i db1 where
    one: "upsert_symbol (mk_symbol m) (mk_market_type m) (mk_market_id m) db = Inr (i, db1)"
    and rest: "upsert_all ms db1 = (Inr (), db')"
    by (auto split: sum.splits prod.splits)
  from Cons.IH [OF rest] upsert_symbol_keeps [OF one] show ?case by auto
qed simp

lemma upsert_all_lookup:
  assumes "symbols_inv db" and "upsert_all ms db = (Inr (), db')"
  shows "symbols_inv db' \<and> (case find (\<lambda>m. mk_market_id m = k) (rev ms) of
      None \<Rightarrow> symbol_of db' k = symbol_of db k
    | Some m \<Rightarrow> \<exists>i. symbol_of db' k = Some \<lparr>sym_id = i, sym_name = mk_symbol m, sym_market_id = k,
          sym_market_type = mk_market_type m\<rparr>)"
  using assms
proof (induction ms arbitrary: db)
  case (Cons m ms)
  from Cons.prems(2) obtain i db1 where
    one: "upsert_symbol (mk_symbol m) (mk_market_type m) (mk_market_id m) db = Inr (i, db1)"
    and rest: "upsert_all ms db1 = (Inr (), db')"
    by (auto split: sum.splits prod.splits)
  have inv1: "symbols_inv db1" by (rule upsert_symbol_inv [OF Cons.prems(1) one])
  have "find P (xs @ [x]) = (case find P xs of None \<Rightarrow> if P x then Some x else None | Some y \<Rightarrow> Some y)"
    for P and xs and x :: order_book_info by (induction xs) auto
  with Cons.IH [OF inv1 rest] upsert_symbol_lookup [OF Cons.prems(1) one, of k] show ?case
    by (auto split: option.splits)
qed simp

text \<open>A symbol keeps its id.\<close>

lemma upsert_all_id:
  assumes "symbols_inv db" and "upsert_all ms db = (Inr (), db')" and "symbol_of db k = Some r"
  shows "\<exists>r'. symbol_of db' k = Some r' \<and> sym_id r' = sym_id r"
  using assms
proof (induction ms arbitrary: db r)
  case (Cons m ms)
  from Cons.prems(2) obtain i db1 where
    one: "upsert_symbol (mk_symbol m) (mk_market_type m) (mk_market_id m) db = Inr (i, db1)"
    and rest: "upsert_all ms db1 = (Inr (), db')"
    by (auto split: sum.splits prod.splits)
  have inv1: "symbols_inv db1" by (rule upsert_symbol_inv [OF Cons.prems(1) one])
  from one have i: "mk_market_id m = k \<Longrightarrow> i = sym_id r"
    using Cons.prems(3) by (cases rule: upsert_symbol_cases) auto
  have "\<exists>r1. symbol_of db1 k = Some r1 \<and> sym_id r1 = sym_id r"
    using upsert_symbol_lookup [OF Cons.prems(1) one, of k] Cons.prems(3) i by auto
  with Cons.IH [OF inv1 rest] show ?case by metis
qed auto

lemma rolled_back_inv:
  "db_inv db \<Longrightarrow> db_next_symbol db \<le> db_next_symbol db' \<Longrightarrow> db_inv (rolled_back db db')"
  by (fastforce simp: db_inv_def symbols_inv_def symbol_ids_def rolled_back_def)

lemma upsert_all_next: "db_next_symbol db \<le> db_next_symbol (snd (upsert_all ms db))"
proof (induction ms arbitrary: db)
  case (Cons m ms)
  show ?case
  proof (cases "upsert_symbol (mk_symbol m) (mk_market_type m) (mk_market_id m) db")
    case (Inr p)
    obtain i db1 where p: "p = (i, db1)" by fastforce
    with Inr have "upsert_symbol (mk_symbol m) (mk_market_type m) (mk_market_id m) db = Inr (i, db1)" by simp
    then have "db_next_symbol db \<le> db_next_symbol db1" by (cases rule: upsert_symbol_cases) auto
    with Inr p Cons.IH [of db1] show ?thesis by simp
  qed simp
qed simp

lemma sync_symbols_cases:
  assumes "sync_symbols L reply commit_ok db = (r, db')"
  obtains (failed) e where "r = Inl e" and "db' = db \<or> (\<exists>ms. db' = rolled_back db (snd (upsert_all ms db)))"
    | (synced) body doc resp where "r = Inr ()" and "reply = Some body" and "json_document L body = Some doc"
      and "de_order_books_response doc = Some resp" and "obs_code resp = 200" and "obs_order_books resp \<noteq> []"
      and "\<forall>m \<in> set (obs_order_books resp). mk_market_type m \<in> {''perp'', ''spot''}"
      and "upsert_all (obs_order_books resp) db = (Inr (), db')"
proof (cases r)
  case (Inl e)
  have "db' = db \<or> (\<exists>ms. db' = rolled_back db (snd (upsert_all ms db)))"
  proof (cases "\<exists>resp r1 db1. upsert_all resp db = (r1, db1) \<and> db' = rolled_back db db1")
    case True
    then show ?thesis by (metis snd_conv)
  next
    case False
    with Inl assms show ?thesis
      by (auto simp: sync_symbols_def split: option.splits if_splits prod.splits sum.splits)
  qed
  with Inl show ?thesis by (rule failed)
next
  case (Inr u)
  with assms obtain resp where resp: "Option.bind (Option.bind reply (json_document L)) de_order_books_response = Some resp"
    and rest: "obs_code resp = 200" "obs_order_books resp \<noteq> []"
      "find (\<lambda>m. mk_market_type m \<notin> {''perp'', ''spot''}) (obs_order_books resp) = None"
      "upsert_all (obs_order_books resp) db = (Inr (), db')"
    by (auto simp: sync_symbols_def split: option.splits if_splits prod.splits sum.splits)
  from resp obtain body doc where "reply = Some body" "json_document L body = Some doc"
    "de_order_books_response doc = Some resp"
    by (auto simp: bind_eq_Some_conv)
  with rest Inr show ?thesis by (intro synced [of body doc resp]) (auto simp: find_None_iff)
qed

lemma sync_symbols_inv:
  assumes "db_inv db" and "sync_symbols L reply commit_ok db = (r, db')"
  shows "db_inv db'"
  using assms(2)
proof (cases rule: sync_symbols_cases)
  case (failed e)
  with assms(1) upsert_all_next [of db] rolled_back_inv show ?thesis by blast
next
  case synced
  with assms(1) show ?thesis by (blast intro: upsert_all_inv)
qed

lemma ws_sessions_logs:
  "inj_on cache (dom cache) \<Longrightarrow> logs_ok L cache (ws_sessions L ids cache ss)"
proof (induction ss)
  case Nil
  then show ?case by (simp add: logs_ok_def log_ok_def chained_def read_rows_def)
next
  case (Cons s ss)
  obtain r c where run: "session_run L ids cache s = (r, c)" by fastforce
  then have "logs_ok L cache (cn_rows c)"
    using run_ws_logs Cons.prems by (auto simp: session_run_def)
  with Cons run show ?case by (auto split: sum.splits intro: logs_ok_append)
qed

lemma ws_sessions_known: "m \<in> set (ws_sessions L ids cache ss) \<Longrightarrow> known_row cache m"
proof (induction ss)
  case (Cons s ss)
  obtain r c where run: "session_run L ids cache s = (r, c)" by fastforce
  then have "known_rows cache c" by (auto simp: session_run_def intro: known_run_ws)
  with Cons run show ?case by (auto simp: known_rows_def split: sum.splits)
qed simp

end
