(* ===== verification/Life.thy ===== *)
theory Life
  imports Ingestor
begin

text \<open>
  The life of the service around one database: starts, the WebSocket connection, the writer, the funding
  poller, and whatever ends the process, in any order. A state is the database and, while a process
  runs, what its tasks hold. A step is one atomic action of one task (a handler of the connection, a send
  into the channel, a branch of the writer, a turn of the poller) or of the environment. The tasks
  share only the channel and the database, so every interleaving of their awaits is a sequence of these
  steps.
\<close>

section \<open>States\<close>

text \<open>\<^verbatim>\<open>run_funding_poller\<close>: the markets that are left of a sweep, or in the paging loop of a market. A panic
  ends the task and nothing else.\<close>

datatype 't poller =
    PollNext "perp_market list"
  | PollAt perp_market 't "perp_market list"
  | PollDown

text \<open>Rows that a handler has handed over and the channel has not yet taken are pending; the loop goes on
  when there are none.\<close>

record ('d, 't, 'f) process =
  pr_services :: "'t services"
  pr_conn :: "('d, 't, 'f) conn option"           \<comment> \<open>\<open>None\<close>: between two sessions\<close>
  pr_pending :: "('t, 'f) write_msg list"
  pr_queue :: "('t, 'f) write_msg list"
  pr_batch :: "('t, 'f) write_msg list"
  pr_poller :: "'t poller"

record ('d, 't, 'f) life =
  li_db :: "('t, 'f, 'd) db"
  li_proc :: "('d, 't, 'f) process option"

definition started :: "'t services \<Rightarrow> ('d, 't, 'f) process" where
  "started sv = \<lparr>pr_services = sv, pr_conn = None, pr_pending = [], pr_queue = [], pr_batch = [],
     pr_poller = PollNext (sv_perp_markets sv)\<rparr>"

section \<open>Steps\<close>

definition writer_of :: "('t, 'f, 'd) db \<Rightarrow> ('t, 'f) write_msg list \<Rightarrow> ('t, 'f, 'd) writer" where
  "writer_of db batch = \<lparr>wr_batch = batch, wr_db = db, wr_status = Running\<rparr>"

text \<open>After a branch of the writer: a failed flush exits the process.\<close>

definition after_writer :: "('d, 't, 'f) process \<Rightarrow> ('t, 'f, 'd) writer \<Rightarrow> ('d, 't, 'f) life" where
  "after_writer p w = \<lparr>li_db = wr_db w,
     li_proc = (if wr_status w = Running then Some (p\<lparr>pr_batch := wr_batch w\<rparr>) else None)\<rparr>"

text \<open>After a turn of the poller: an error exits the process, a panic does not.\<close>

fun after_poll ::
  "('d, 't, 'f) process \<Rightarrow> perp_market \<Rightarrow> perp_market list \<Rightarrow> poll_outcome + 't \<Rightarrow> ('d, 't, 'f) process option" where
  "after_poll p m ms (Inr start) = Some (p\<lparr>pr_poller := PollAt m start ms\<rparr>)"
| "after_poll p m ms (Inl Polled) = Some (p\<lparr>pr_poller := PollNext ms\<rparr>)"
| "after_poll p m ms (Inl (PollFailed Panicked)) = Some (p\<lparr>pr_poller := PollDown\<rparr>)"
| "after_poll p m ms (Inl _) = None"

text \<open>
  The steps, for the configuration \<open>cfg\<close> of every start and for servers that \<open>answers\<close> allows for a market
  of the exchange. Any process may be killed at any time.
\<close>

inductive life_step ::
  "('d::linorder, 't::linorder, 'f) libs \<Rightarrow> 't config \<Rightarrow> (int \<Rightarrow> server \<Rightarrow> bool)
   \<Rightarrow> ('d, 't, 'f) life \<Rightarrow> ('d, 't, 'f) life \<Rightarrow> bool"
  for L cfg answers where
  boot: "start_ingestor L cfg env db = (Inr sv, db') \<Longrightarrow>
     life_step L cfg answers \<lparr>li_db = db, li_proc = None\<rparr> \<lparr>li_db = db', li_proc = Some (started sv)\<rparr>"
| boot_failed: "start_ingestor L cfg env db = (Inl e, db') \<Longrightarrow>
     life_step L cfg answers \<lparr>li_db = db, li_proc = None\<rparr> \<lparr>li_db = db', li_proc = None\<rparr>"
| killed: "life_step L cfg answers \<lparr>li_db = db, li_proc = Some p\<rparr> \<lparr>li_db = db, li_proc = None\<rparr>"
| connected: "pr_conn p = None \<Longrightarrow> pr_pending p = [] \<Longrightarrow>
     ws_write_all (subscriptions (sv_market_ids (pr_services p))) (fresh_conn True sink) = (Inr (), c) \<Longrightarrow>
     life_step L cfg answers \<lparr>li_db = db, li_proc = Some p\<rparr> \<lparr>li_db = db, li_proc = Some (p\<lparr>pr_conn := Some c\<rparr>)\<rparr>"
| handled: "pr_conn p = Some c \<Longrightarrow> pr_pending p = [] \<Longrightarrow>
     on_event L (sv_market_ids (pr_services p)) (sv_symbol_cache (pr_services p)) ev c = (r, c') \<Longrightarrow>
     life_step L cfg answers \<lparr>li_db = db, li_proc = Some p\<rparr>
       \<lparr>li_db = db, li_proc = Some (p\<lparr>pr_conn := (if isl r then None else Some c'),
          pr_pending := drop (length (cn_rows c)) (cn_rows c')\<rparr>)\<rparr>"
| delivered: "pr_pending p = m # ms \<Longrightarrow> length (pr_queue p) < WRITE_CHANNEL_CAPACITY \<Longrightarrow>
     life_step L cfg answers \<lparr>li_db = db, li_proc = Some p\<rparr>
       \<lparr>li_db = db, li_proc = Some (p\<lparr>pr_pending := ms, pr_queue := pr_queue p @ [m]\<rparr>)\<rparr>"
| received: "pr_queue p = m # q \<Longrightarrow>
     life_step L cfg answers \<lparr>li_db = db, li_proc = Some p\<rparr>
       (after_writer (p\<lparr>pr_queue := q\<rparr>) (writer_step f (Received m) (writer_of db (pr_batch p))))"
| ticked: "life_step L cfg answers \<lparr>li_db = db, li_proc = Some p\<rparr>
       (after_writer p (writer_step f Tick (writer_of db (pr_batch p))))"
| swept: "pr_poller p = PollNext [] \<Longrightarrow>
     life_step L cfg answers \<lparr>li_db = db, li_proc = Some p\<rparr>
       \<lparr>li_db = db, li_proc = (if sv_perp_markets (pr_services p) = [] then None
          else Some (p\<lparr>pr_poller := PollNext (sv_perp_markets (pr_services p))\<rparr>))\<rparr>"
| poll_begun: "pr_poller p = PollNext (m # ms) \<Longrightarrow>
     poll_start L m (sv_backfill_start (pr_services p)) newest_ok db = r \<Longrightarrow>
     life_step L cfg answers \<lparr>li_db = db, li_proc = Some p\<rparr>
       \<lparr>li_db = db, li_proc = after_poll p m ms (case r of Inl e \<Rightarrow> Inl (PollFailed e) | Inr start \<Rightarrow> Inr start)\<rparr>"
| poll_turned: "pr_poller p = PollAt m start ms \<Longrightarrow> answers (pm_market_id m) (rd_server rd) \<Longrightarrow>
     poll_round L m (sv_backfill_start (pr_services p)) start rd db = (r, db') \<Longrightarrow>
     life_step L cfg answers \<lparr>li_db = db, li_proc = Some p\<rparr> \<lparr>li_db = db', li_proc = after_poll p m ms r\<rparr>"

inductive life_reach ::
  "('d::linorder, 't::linorder, 'f) libs \<Rightarrow> 't config \<Rightarrow> (int \<Rightarrow> server \<Rightarrow> bool) \<Rightarrow> ('t, 'f, 'd) db
   \<Rightarrow> ('d, 't, 'f) life \<Rightarrow> bool"
  for L cfg answers db where
  initial: "life_reach L cfg answers db \<lparr>li_db = db, li_proc = None\<rparr>"
| step: "life_reach L cfg answers db l \<Longrightarrow> life_step L cfg answers l l' \<Longrightarrow> life_reach L cfg answers db l'"

section \<open>The invariant\<close>

text \<open>
  Two parts: the constraints and the logs of the order books, which depend on nothing, and, when \<open>G\<close> holds,
  the settlements, for servers that page them.
\<close>

definition market_pairs :: "('t, 'f, 'd) db \<Rightarrow> (int \<times> int) set" where
  "market_pairs db = (\<lambda>r. (sym_market_id r, sym_id r)) ` set (db_symbols db)"

definition table_rows :: "int \<Rightarrow> ('t, 'f, 'd) db \<Rightarrow> 't ob_row list" where
  "table_rows symbol db = filter (\<lambda>r. obr_symbol r = symbol) (db_orderbooks db)"

definition in_flight :: "('d, 't, 'f) process \<Rightarrow> ('t, 'f) write_msg list" where
  "in_flight p = pr_batch p @ pr_queue p @ pr_pending p"

text \<open>All rows of a symbol, from the table to those not yet sent.\<close>

definition all_rows :: "int \<Rightarrow> ('t, 'f, 'd) db \<Rightarrow> ('d, 't, 'f) process \<Rightarrow> 't ob_row list" where
  "all_rows symbol db p = table_rows symbol db @ rows_of symbol (in_flight p)"

definition conn_log ::
  "('d::linorder, 't::linorder, 'f) libs \<Rightarrow> ('t, 'f, 'd) db \<Rightarrow> ('d, 't, 'f) process \<Rightarrow> bool" where
  "conn_log L db p \<longleftrightarrow> (case pr_conn p of
     None \<Rightarrow> (\<forall>s \<in> symbol_ids db. log_ok L (all_rows s db p))
   | Some c \<Rightarrow> feed_inv L (sv_symbol_cache (pr_services p)) c
       \<and> known_rows (sv_symbol_cache (pr_services p)) c
       \<and> (\<forall>s \<in> symbol_ids db. \<exists>past. all_rows s db p = past @ rows_of s (cn_rows c) \<and> log_ok L past))"

definition poller_ok ::
  "bool \<Rightarrow> ('t \<Rightarrow> int) \<Rightarrow> 't \<Rightarrow> (int \<Rightarrow> int list) \<Rightarrow> ('t, 'f, 'd) db \<Rightarrow> perp_market list \<Rightarrow> 't poller \<Rightarrow> bool" where
  "poller_ok G nanos backfill S db markets poller \<longleftrightarrow> (case poller of
     PollNext ms \<Rightarrow> set ms \<subseteq> set markets
   | PollAt m start ms \<Rightarrow> set (m # ms) \<subseteq> set markets
       \<and> (G \<longrightarrow> on_hour nanos start \<and> stored_below nanos backfill (S (pm_market_id m)) (pm_symbol_id m) start db)
   | PollDown \<Rightarrow> True)"

definition markets_ok :: "('t, 'f, 'd) db \<Rightarrow> 't services \<Rightarrow> bool" where
  "markets_ok db sv \<longleftrightarrow> sv_symbol_cache sv = load_symbol_cache db
     \<and> (\<forall>m \<in> set (sv_perp_markets sv). (pm_market_id m, pm_symbol_id m) \<in> market_pairs db)"

definition proc_inv ::
  "bool \<Rightarrow> ('d::linorder, 't::linorder, 'f) libs \<Rightarrow> ('t \<Rightarrow> int) \<Rightarrow> 't \<Rightarrow> (int \<Rightarrow> int list) \<Rightarrow> ('t, 'f, 'd) db
   \<Rightarrow> ('d, 't, 'f) process \<Rightarrow> bool" where
  "proc_inv G L nanos backfill S db p \<longleftrightarrow>
     markets_ok db (pr_services p) \<and> sv_backfill_start (pr_services p) = backfill
   \<and> (\<forall>m \<in> set (in_flight p). known_row (load_symbol_cache db) m)
   \<and> conn_log L db p
   \<and> poller_ok G nanos backfill S db (sv_perp_markets (pr_services p)) (pr_poller p)"

definition db_ok ::
  "bool \<Rightarrow> ('d::linorder, 't::linorder, 'f) libs \<Rightarrow> ('t \<Rightarrow> int) \<Rightarrow> 't \<Rightarrow> (int \<Rightarrow> int list) \<Rightarrow> ('t, 'f, 'd) db \<Rightarrow> bool" where
  "db_ok G L nanos backfill S db \<longleftrightarrow> db_inv db
   \<and> (\<forall>s \<in> symbol_ids db. log_ok L (table_rows s db))
   \<and> (G \<longrightarrow> (\<forall>(k, s) \<in> market_pairs db. no_gap nanos backfill (S k) s db))"

definition life_inv ::
  "bool \<Rightarrow> ('d::linorder, 't::linorder, 'f) libs \<Rightarrow> ('t \<Rightarrow> int) \<Rightarrow> 't \<Rightarrow> (int \<Rightarrow> int list) \<Rightarrow> ('d, 't, 'f) life \<Rightarrow> bool" where
  "life_inv G L nanos backfill S l \<longleftrightarrow> db_ok G L nanos backfill S (li_db l)
   \<and> (case li_proc l of None \<Rightarrow> True | Some p \<Rightarrow> proc_inv G L nanos backfill S (li_db l) p)"

section \<open>Starts\<close>

lemma upsert_pairs:
  assumes "upsert_symbol nm ty m db = Inr (i, db')" and "q \<in> market_pairs db'"
  shows "q \<in> market_pairs db \<or> db_next_symbol db \<le> snd q"
  using assms by (cases rule: upsert_symbol_cases) (auto simp: market_pairs_def)

lemma upsert_all_pairs:
  "upsert_all ms db = (Inr (), db') \<Longrightarrow> q \<in> market_pairs db' \<Longrightarrow>
   q \<in> market_pairs db \<or> db_next_symbol db \<le> snd q"
proof (induction ms arbitrary: db)
  case (Cons m ms)
  from Cons.prems obtain i db1 where
    one: "upsert_symbol (mk_symbol m) (mk_market_type m) (mk_market_id m) db = Inr (i, db1)"
    and rest: "upsert_all ms db1 = (Inr (), db')"
    by (auto split: sum.splits prod.splits)
  from one have "db_next_symbol db \<le> db_next_symbol db1" by (cases rule: upsert_symbol_cases) auto
  with Cons.IH [OF rest Cons.prems(2)] upsert_pairs [OF one, of q] show ?case by auto
qed simp

lemma sync_effect:
  assumes "sync_symbols L reply commit_ok db = (r, db')"
  shows "db_orderbooks db' = db_orderbooks db \<and> db_fundings db' = db_fundings db
     \<and> (\<forall>q \<in> market_pairs db'. q \<in> market_pairs db \<or> db_next_symbol db \<le> snd q)"
  using assms
proof (cases rule: sync_symbols_cases)
  case (failed e)
  then show ?thesis by (auto simp: rolled_back_def market_pairs_def)
next
  case synced
  with upsert_all_keeps [OF synced(8)] upsert_all_pairs [OF synced(8)] show ?thesis by blast
qed

lemma symbol_ids_pairs: "symbol_ids db = snd ` market_pairs db"
  by (auto simp: symbol_ids_def market_pairs_def image_image)

text \<open>A symbol that is new has no rows.\<close>

lemma db_ok_symbols:
  assumes ok: "db_ok G L nanos backfill S db" and inv: "db_inv db'"
    and same: "db_orderbooks db' = db_orderbooks db" "db_fundings db' = db_fundings db"
    and new: "\<forall>q \<in> market_pairs db'. q \<in> market_pairs db \<or> db_next_symbol db \<le> snd q"
  shows "db_ok G L nanos backfill S db'"
proof -
  have fresh: "table_rows s db = [] \<and> funding_times s db = []" if "db_next_symbol db \<le> s" for s
    using ok that by (fastforce simp: db_ok_def db_inv_def symbols_inv_def symbol_ids_def table_rows_def
        funding_times_def filter_empty_conv)
  have rows: "table_rows s db' = table_rows s db" "funding_times s db' = funding_times s db" for s
    by (simp_all add: table_rows_def funding_times_def same)
  have log: "log_ok L (table_rows s db')" if s: "s \<in> symbol_ids db'" for s
  proof -
    from s new have "s \<in> symbol_ids db \<or> db_next_symbol db \<le> s" by (force simp: symbol_ids_pairs)
    then show ?thesis
      using ok fresh [of s] by (auto simp: rows db_ok_def log_ok_def chained_def read_rows_def)
  qed
  have gap: "no_gap nanos backfill (S k) s db'" if G and q: "(k, s) \<in> market_pairs db'" for k s
  proof -
    from q new have "(k, s) \<in> market_pairs db \<or> db_next_symbol db \<le> s" by force
    then have "no_gap nanos backfill (S k) s db"
    proof
      assume "(k, s) \<in> market_pairs db"
      with ok \<open>G\<close> show ?thesis by (auto simp: db_ok_def)
    next
      assume "db_next_symbol db \<le> s"
      with fresh show ?thesis by (simp add: no_gap_def)
    qed
    with no_gap_cong [of s db db'] rows show ?thesis by simp
  qed
  from inv log gap show ?thesis by (auto simp: db_ok_def)
qed

lemma load_perp_pairs: "m \<in> set (load_perp_markets db) \<Longrightarrow> (pm_market_id m, pm_symbol_id m) \<in> market_pairs db"
  by (auto simp: load_perp_markets_def market_pairs_def)

lemma start_ingestor_cases:
  assumes "start_ingestor L cfg env db = (r, db')"
  obtains (early) e where "r = Inl e" and "db' = db"
    | (synced) r1 where "sync_symbols L (st_order_books env) (st_commit env) db = (r1, db')"
      and "\<And>sv. r = Inr sv \<Longrightarrow> sv_symbol_cache sv = load_symbol_cache db' \<and> sv_perp_markets sv = load_perp_markets db'
          \<and> cf_backfill_start cfg = Some (sv_backfill_start sv)"
proof (cases "\<exists>poll backfill snapshot. cf_poll_interval cfg = Some poll \<and> cf_backfill_start cfg = Some backfill
    \<and> cf_snapshot_interval cfg = Some snapshot \<and> st_connect env")
  case True
  obtain r1 db1 where sync: "sync_symbols L (st_order_books env) (st_commit env) db = (r1, db1)" by fastforce
  obtain poll backfill snapshot where set: "cf_poll_interval cfg = Some poll" "cf_backfill_start cfg = Some backfill"
    "cf_snapshot_interval cfg = Some snapshot" "st_connect env" using True by blast
  have run: "start_ingestor L cfg env db = (case r1 of Inl e \<Rightarrow> (Inl (SymbolSync e), db1) | Inr _ \<Rightarrow>
      if \<not> st_cache env then (Inl LoadSymbolCache, db1)
      else if \<not> st_markets env then (Inl LoadPerpMarkets, db1)
      else if \<not> st_pool env then (Inl ConnectionPool, db1)
      else (Inr \<lparr>sv_symbol_cache = load_symbol_cache db1, sv_market_ids = cache_keys (st_key_order env) db1,
             sv_perp_markets = load_perp_markets db1, sv_backfill_start = backfill,
             sv_poll_interval = poll, sv_snapshot_interval = snapshot\<rparr>, db1))"
    by (cases r1) (simp_all add: start_ingestor_def set sync Let_def)
  with assms have db: "db1 = db'" by (auto split: sum.splits if_splits)
  show ?thesis
  proof (rule synced)
    show "sync_symbols L (st_order_books env) (st_commit env) db = (r1, db')" using sync db by simp
    show "sv_symbol_cache sv = load_symbol_cache db' \<and> sv_perp_markets sv = load_perp_markets db'
          \<and> cf_backfill_start cfg = Some (sv_backfill_start sv)" if "r = Inr sv" for sv
      using run assms that set db by (auto split: sum.splits if_splits)
  qed
next
  case False
  consider (unset) "cf_poll_interval cfg = None \<or> cf_backfill_start cfg = None \<or> cf_snapshot_interval cfg = None"
    | (no_conn) "\<not> st_connect env" "cf_poll_interval cfg \<noteq> None" "cf_backfill_start cfg \<noteq> None"
        "cf_snapshot_interval cfg \<noteq> None"
    using False by fastforce
  then show ?thesis
  proof cases
    case unset
    then have "start_ingestor L cfg env db = (Inl SettingsMissing, db)"
      unfolding start_ingestor_def by (elim disjE) (simp_all split: option.split)
    with assms have "r = Inl SettingsMissing" "db' = db" by simp_all
    then show ?thesis by (rule early)
  next
    case no_conn
    then have "start_ingestor L cfg env db = (Inl ConnectPostgres, db)"
      unfolding start_ingestor_def by (elim not_None_eq [THEN iffD1, elim_format] exE) simp
    with assms have "r = Inl ConnectPostgres" "db' = db" by simp_all
    then show ?thesis by (rule early)
  qed
qed

lemma start_ok:
  assumes ok: "db_ok G L nanos backfill S db" and start: "start_ingestor L cfg env db = (r, db')"
  shows "db_ok G L nanos backfill S db'"
    and "r = Inr sv \<Longrightarrow> markets_ok db' sv \<and> cf_backfill_start cfg = Some (sv_backfill_start sv)"
proof -
  show "db_ok G L nanos backfill S db'"
    using start
  proof (cases rule: start_ingestor_cases)
    case (early e)
    show ?thesis unfolding early(2) by (rule ok)
  next
    case (synced r1)
    have "db_inv db'" using sync_symbols_inv [OF _ synced(1)] ok by (simp add: db_ok_def)
    with sync_effect [OF synced(1)] show ?thesis by (blast intro: db_ok_symbols [OF ok])
  qed
  show "markets_ok db' sv \<and> cf_backfill_start cfg = Some (sv_backfill_start sv)" if "r = Inr sv"
    using start
  proof (cases rule: start_ingestor_cases)
    case (early e)
    with that show ?thesis by blast
  next
    case (synced r1)
    with synced(2) [OF that] show ?thesis by (simp add: markets_ok_def load_perp_pairs)
  qed
qed

lemma started_inv:
  assumes "db_ok G L nanos backfill S db" and "markets_ok db sv" and "sv_backfill_start sv = backfill"
  shows "proc_inv G L nanos backfill S db (started sv)"
  using assms
  by (simp add: proc_inv_def started_def in_flight_def conn_log_def all_rows_def poller_ok_def db_ok_def)

section \<open>The connection\<close>

lemma symbols_of: "db_ok G L nanos backfill S db \<Longrightarrow> symbols_inv db"
  by (simp add: db_ok_def db_inv_def)

text \<open>What a process says about the symbols survives as long as the symbol table does.\<close>

lemma same_symbols:
  "db_symbols db' = db_symbols db \<Longrightarrow> load_symbol_cache db' = load_symbol_cache db
     \<and> market_pairs db' = market_pairs db \<and> symbol_ids db' = symbol_ids db"
  by (simp add: load_symbol_cache_def market_pairs_def symbol_ids_def)

lemma proc_inv_rows:
  assumes "proc_inv G L nanos backfill S db p"
  shows "conn_log L db p" and "\<forall>m \<in> set (in_flight p). known_row (load_symbol_cache db) m"
    and "sv_symbol_cache (pr_services p) = load_symbol_cache db"
  using assms by (simp_all add: proc_inv_def markets_ok_def)

lemma all_rows_log:
  assumes "symbols_inv db" and "sv_symbol_cache (pr_services p) = load_symbol_cache db" and "conn_log L db p"
    and "s \<in> symbol_ids db"
  shows "log_ok L (all_rows s db p)"
proof (cases "pr_conn p")
  case None
  with assms show ?thesis by (simp add: conn_log_def)
next
  case (Some c)
  have "s \<in> ran (sv_symbol_cache (pr_services p))"
    using assms(1,2,4) by (simp add: load_symbol_cache_ran)
  with Some assms(3) have "log_ok L (rows_of s (cn_rows c))"
    using feed_inv_logs [of L "sv_symbol_cache (pr_services p)" c] by (simp add: conn_log_def logs_ok_def)
  moreover obtain past where "all_rows s db p = past @ rows_of s (cn_rows c)" "log_ok L past"
    using Some assms(3,4) by (auto simp: conn_log_def)
  ultimately show ?thesis by (simp add: log_ok_append)
qed

lemma connected_inv:
  assumes "proc_inv G L nanos backfill S db p" and "pr_conn p = None"
    and w: "ws_write_all (subscriptions ids) (fresh_conn True sink) = (Inr (), c)"
  shows "proc_inv G L nanos backfill S db (p\<lparr>pr_conn := Some c\<rparr>)"
proof -
  have c: "cn_rows c = []" using ws_write_all_frame [OF w] by (simp add: fresh_conn_def)
  have "feed_inv L cache c" for cache by (rule ws_write_all_inv [OF feed_inv_fresh w])
  with assms(1,2) c show ?thesis
    by (simp add: proc_inv_def conn_log_def known_rows_def in_flight_def all_rows_def)
qed

lemma handled_inv:
  assumes inv: "proc_inv G L nanos backfill S db p" and sym: "symbols_inv db"
    and p: "pr_conn p = Some c" "pr_pending p = []"
    and ev: "on_event L ids (sv_symbol_cache (pr_services p)) ev c = (r, c')"
  shows "proc_inv G L nanos backfill S db (p\<lparr>pr_conn := (if isl r then None else Some c'),
     pr_pending := drop (length (cn_rows c)) (cn_rows c')\<rparr>)"
proof -
  let ?cache = "sv_symbol_cache (pr_services p)"
  let ?p' = "p\<lparr>pr_conn := (if isl r then None else Some c'), pr_pending := drop (length (cn_rows c)) (cn_rows c')\<rparr>"
  note rows = proc_inv_rows [OF inv]
  have inj: "inj_on ?cache (dom ?cache)" using load_symbol_cache_inj [OF sym] rows(3) by simp
  have ran: "ran ?cache = symbol_ids db" using load_symbol_cache_ran [OF sym] rows(3) by simp
  have c: "feed_inv L ?cache c" "known_rows ?cache c"
    and past: "\<And>s. s \<in> symbol_ids db \<Longrightarrow> \<exists>past. all_rows s db p = past @ rows_of s (cn_rows c) \<and> log_ok L past"
    using rows(1) p by (simp_all add: conn_log_def)
  obtain new where new: "cn_rows c' = cn_rows c @ new" using on_event_appends [OF ev] by blast
  have flight: "in_flight ?p' = in_flight p @ new" using p by (simp add: in_flight_def new)
  have all: "all_rows s db ?p' = all_rows s db p @ rows_of s new" for s by (simp add: all_rows_def flight)
  have known: "known_rows ?cache c'" by (rule known_event [OF c(2) ev])
  have "conn_log L db ?p'"
  proof (cases "isl r")
    case True
    have "log_ok L (all_rows s db ?p')" if s: "s \<in> symbol_ids db" for s
    proof -
      obtain pre where pre: "all_rows s db p = pre @ rows_of s (cn_rows c)" "log_ok L pre" using past [OF s] by blast
      have "log_ok L (rows_of s (cn_rows c'))"
        using on_event_logs [OF c(1) inj ev] ran s by (simp add: logs_ok_def)
      from log_ok_append [OF pre(2) this] show ?thesis unfolding all pre(1) by (simp add: new)
    qed
    with True show ?thesis by (simp add: conn_log_def)
  next
    case False
    then have "on_event L ids ?cache ev c = (Inr (), c')" using ev by (cases r) simp_all
    from on_event_inv [OF c(1) inj this] have "feed_inv L ?cache c'" .
    moreover have "\<exists>pre. all_rows s db ?p' = pre @ rows_of s (cn_rows c') \<and> log_ok L pre"
      if "s \<in> symbol_ids db" for s using past [OF that] unfolding all by (auto simp: new)
    ultimately show ?thesis using False known by (simp add: conn_log_def)
  qed
  moreover have "\<forall>m \<in> set (in_flight ?p'). known_row (load_symbol_cache db) m"
    unfolding flight using rows(2,3) known by (auto simp: known_rows_def new)
  ultimately show ?thesis using inv by (simp add: proc_inv_def)
qed

section \<open>The writer\<close>

lemma proc_inv_flight:
  assumes "proc_inv G L nanos backfill S db p" and same: "db_symbols db' = db_symbols db"
    and "pr_services p' = pr_services p" "pr_conn p' = pr_conn p"
    and "\<And>s. all_rows s db' p' = all_rows s db p" and "set (in_flight p') \<subseteq> set (in_flight p)"
    and "poller_ok G nanos backfill S db' (sv_perp_markets (pr_services p)) (pr_poller p')"
  shows "proc_inv G L nanos backfill S db' p'"
  using assms same_symbols [OF same]
  by (auto simp: proc_inv_def markets_ok_def conn_log_def split: option.splits)

lemma poller_ok_same:
  assumes "db_fundings db' = db_fundings db"
  shows "poller_ok G nanos backfill S db' markets poller = poller_ok G nanos backfill S db markets poller"
proof -
  have "funding_times k db' = funding_times k db" for k using assms by (simp add: funding_times_def)
  then show ?thesis
    by (simp add: poller_ok_def stored_below_def has_settlement_def split: poller.split)
qed

lemma delivered_inv:
  assumes "proc_inv G L nanos backfill S db p" and "pr_pending p = m # ms"
  shows "proc_inv G L nanos backfill S db (p\<lparr>pr_pending := ms, pr_queue := pr_queue p @ [m]\<rparr>)"
  using assms
  by (intro proc_inv_flight [OF assms(1)]) (simp_all add: proc_inv_def all_rows_def in_flight_def)

text \<open>A flush keeps the constraints; it moves the batch into the table or leaves the order-book rows alone
  and exits.\<close>

lemma flush_db:
  assumes "db_inv (wr_db w)" and "wr_status w = Running"
  shows "db_inv (wr_db (flush f w)) \<and> db_symbols (wr_db (flush f w)) = db_symbols (wr_db w)
     \<and> db_fundings (wr_db (flush f w)) = db_fundings (wr_db w)
     \<and> (if wr_status (flush f w) = Running
        then wr_batch (flush f w) = []
          \<and> db_orderbooks (wr_db (flush f w)) = db_orderbooks (wr_db w) @ orderbooks_of (wr_batch w)
        else db_orderbooks (wr_db (flush f w)) = db_orderbooks (wr_db w))"
proof -
  have keep: "db_inv db'" if "flush_rows f ts os (wr_db w) = (b, db')" for ts os b db'
    using that assms(1)
    by (auto simp: flush_rows_def split: if_splits sum.splits prod.splits
        dest!: insert_trades_inv [OF assms(1)] intro: insert_orderbooks_inv)
  show ?thesis
  proof (cases rule: flush_cases [of w f])
    case empty
    with assms show ?thesis by simp
  next
    case ok
    have "db_inv (stored (wr_db w) (wr_batch w))"
    proof (cases "wr_batch w = []")
      case False
      obtain b db' where fr: "flush_rows f (trades_of (wr_batch w)) (orderbooks_of (wr_batch w)) (wr_db w) = (b, db')"
        by fastforce
      with False have "flush f w = w\<lparr>wr_batch := [], wr_db := db', wr_status := (if b then wr_status w else ProcessExit)\<rparr>"
        by (simp add: flush_def)
      with ok have "db' = stored (wr_db w) (wr_batch w)" by (metis writer.select_convs(2) writer.surjective writer.update_convs(1,2,3))
      with keep [OF fr] show ?thesis by simp
    qed (use assms(1) in simp)
    with ok assms(2) show ?thesis by (simp add: stored_def)
  next
    case (failed db')
    from keep [OF failed(2)] flush_rows_tables [OF failed(2)] failed(3) show ?thesis by auto
  qed
qed

lemma writer_life:
  assumes inv: "proc_inv G L nanos backfill S db p" and ok: "db_ok G L nanos backfill S db"
    and w: "db_inv (wr_db w)" "db_symbols (wr_db w) = db_symbols db" "db_fundings (wr_db w) = db_fundings db"
    and run: "wr_status w = Running \<Longrightarrow>
        db_orderbooks (wr_db w) @ orderbooks_of (wr_batch w @ q) = db_orderbooks db @ orderbooks_of (pr_batch p @ pr_queue p)
        \<and> set (wr_batch w @ q) \<subseteq> set (pr_batch p @ pr_queue p)"
    and stop: "wr_status w \<noteq> Running \<Longrightarrow> db_orderbooks (wr_db w) = db_orderbooks db"
  shows "life_inv G L nanos backfill S (after_writer (p\<lparr>pr_queue := q\<rparr>) w)"
proof -
  note same = same_symbols [OF w(2)]
  have gap: "G \<longrightarrow> (\<forall>(k, s) \<in> market_pairs (wr_db w). no_gap nanos backfill (S k) s (wr_db w))"
    using ok same w(3) no_gap_cong [of _ "wr_db w" db] by (auto simp: db_ok_def funding_times_def)
  show ?thesis
  proof (cases "wr_status w = Running")
    case True
    let ?p' = "p\<lparr>pr_queue := q, pr_batch := wr_batch w\<rparr>"
    have all: "all_rows s (wr_db w) ?p' = all_rows s db p" for s
      using arg_cong [OF run [OF True, THEN conjunct1], of "filter (\<lambda>r. obr_symbol r = s)"]
      by (simp add: all_rows_def table_rows_def rows_of_def in_flight_def)
    have "log_ok L (table_rows s (wr_db w))" if s: "s \<in> symbol_ids (wr_db w)" for s
    proof -
      have "log_ok L (all_rows s db p)"
        by (rule all_rows_log [OF symbols_of [OF ok] proc_inv_rows(3) [OF inv] proc_inv_rows(1) [OF inv]]) (use s same in simp)
      then have "log_ok L (all_rows s (wr_db w) ?p')" by (simp only: all)
      then show ?thesis unfolding all_rows_def by (rule log_ok_prefix)
    qed
    with w(1) gap have "db_ok G L nanos backfill S (wr_db w)" by (simp add: db_ok_def)
    moreover have "proc_inv G L nanos backfill S (wr_db w) ?p'"
      using inv run [OF True] by (intro proc_inv_flight [OF inv w(2) _ _ all])
        (auto simp: in_flight_def poller_ok_same [OF w(3)] proc_inv_def)
    ultimately show ?thesis using True by (simp add: life_inv_def after_writer_def)
  next
    case False
    have "table_rows s (wr_db w) = table_rows s db" for s by (simp add: table_rows_def stop [OF False])
    with ok same w(1) gap have "db_ok G L nanos backfill S (wr_db w)" by (simp add: db_ok_def)
    with False show ?thesis by (simp add: life_inv_def after_writer_def)
  qed
qed

lemma received_life:
  assumes inv: "proc_inv G L nanos backfill S db p" and ok: "db_ok G L nanos backfill S db" and q: "pr_queue p = m # q"
  shows "life_inv G L nanos backfill S
     (after_writer (p\<lparr>pr_queue := q\<rparr>) (writer_step f (Received m) (writer_of db (pr_batch p))))"
proof -
  let ?w1 = "writer_of db (pr_batch p @ [m])"
  have w1: "(writer_of db (pr_batch p))\<lparr>wr_batch := wr_batch (writer_of db (pr_batch p)) @ [m]\<rparr> = ?w1"
    by (simp add: writer_of_def)
  have db: "db_inv db" using ok by (simp add: db_ok_def)
  from db have "db_inv (wr_db ?w1)" "wr_status ?w1 = Running" by (simp_all add: writer_of_def)
  note fl = flush_db [OF this, of f]
  show ?thesis
  proof (rule writer_life [OF inv ok])
    let ?w = "writer_step f (Received m) (writer_of db (pr_batch p))"
    have "?w = flush f ?w1 \<or> ?w = ?w1" using w1 by (simp add: Let_def)
    then show "db_inv (wr_db ?w)" "db_symbols (wr_db ?w) = db_symbols db" "db_fundings (wr_db ?w) = db_fundings db"
      "wr_status ?w = Running \<Longrightarrow>
        db_orderbooks (wr_db ?w) @ orderbooks_of (wr_batch ?w @ q) = db_orderbooks db @ orderbooks_of (pr_batch p @ pr_queue p)
        \<and> set (wr_batch ?w @ q) \<subseteq> set (pr_batch p @ pr_queue p)"
      "wr_status ?w \<noteq> Running \<Longrightarrow> db_orderbooks (wr_db ?w) = db_orderbooks db"
      using fl db q orderbooks_of_simps(4) [of "[m]" q]
      by (auto simp: writer_of_def simp del: writer_step.simps orderbooks_of_simps(2,3))
  qed
qed

lemma ticked_life:
  assumes inv: "proc_inv G L nanos backfill S db p" and ok: "db_ok G L nanos backfill S db"
  shows "life_inv G L nanos backfill S (after_writer p (writer_step f Tick (writer_of db (pr_batch p))))"
proof -
  have "db_inv (wr_db (writer_of db (pr_batch p)))" "wr_status (writer_of db (pr_batch p)) = Running"
    using ok by (simp_all add: db_ok_def writer_of_def)
  note fl = flush_db [OF this, of f]
  have "life_inv G L nanos backfill S (after_writer (p\<lparr>pr_queue := pr_queue p\<rparr>) (flush f (writer_of db (pr_batch p))))"
    by (rule writer_life [OF inv ok]) (use fl in \<open>auto simp: writer_of_def\<close>)
  then show ?thesis by simp
qed

section \<open>The poller\<close>

lemma poll_round_pages:
  "poll_pages L market backfill start [rd] db = (case poll_round L market backfill start rd db of
     (Inl r, db') \<Rightarrow> (r, db') | (Inr start', db') \<Rightarrow> (Polling, db'))"
  by (simp split: sum.split prod.split)

lemma poll_round_db:
  assumes run: "poll_round L market backfill start rd db = (r, db')" and "db_inv db"
  shows "db_inv db' \<and> grown db db'"
    and "k \<noteq> pm_symbol_id market \<Longrightarrow> set (funding_times k db') = set (funding_times k db)"
proof -
  obtain r1 where "poll_pages L market backfill start [rd] db = (r1, db')"
    using run by (cases r) (auto simp: poll_round_pages)
  from poll_pages_inv [OF this assms(2)] poll_pages_others [OF this]
  show "db_inv db' \<and> grown db db'"
    and "k \<noteq> pm_symbol_id market \<Longrightarrow> set (funding_times k db') = set (funding_times k db)"
    by (simp_all add: grown_def)
qed

lemma pairs_by_symbol:
  "symbols_inv db \<Longrightarrow> (k, s) \<in> market_pairs db \<Longrightarrow> (k', s) \<in> market_pairs db \<Longrightarrow> k' = k"
  by (auto simp: symbols_inv_def market_pairs_def distinct_map inj_on_def)

lemma poll_turned_life:
  assumes L: "G \<Longrightarrow> chrono_ok L nanos" and S: "hourly S"
    and inv: "proc_inv G L nanos backfill S db p" and ok: "db_ok G L nanos backfill S db"
    and p: "pr_poller p = PollAt m start ms" 
    and sv: "G \<Longrightarrow> serves L nanos (pm_market_id m) (S (pm_market_id m)) (rd_server rd)"
    and run: "poll_round L m (sv_backfill_start (pr_services p)) start rd db = (r, db')"
  shows "life_inv G L nanos backfill S \<lparr>li_db = db', li_proc = after_poll p m ms r\<rparr>"
proof -
  let ?k = "pm_market_id m" and ?s = "pm_symbol_id m"
  have S': "sorted_wrt (<) (S ?k)" "\<forall>s \<in> set (S ?k). s mod 3600 = 0" using S by (simp_all add: hourly_def)
  have at: "set (m # ms) \<subseteq> set (sv_perp_markets (pr_services p))" "G \<Longrightarrow> on_hour nanos start"
    "G \<Longrightarrow> stored_below nanos backfill (S ?k) ?s start db"
    using inv p by (simp_all add: proc_inv_def poller_ok_def)
  have pair: "(?k, ?s) \<in> market_pairs db" using inv at(1) by (simp add: proc_inv_def markets_ok_def)
  have db: "db_inv db" using ok by (simp add: db_ok_def)
  note eff = poll_round_db [OF run db]
  have sym: "db_symbols db' = db_symbols db" "db_orderbooks db' = db_orderbooks db"
    using eff(1) by (simp_all add: grown_def)
  note same = same_symbols [OF sym(1)]
  obtain r1 where pages: "poll_pages L m (sv_backfill_start (pr_services p)) start [rd] db = (r1, db')"
    using run by (cases r) (auto simp: poll_round_pages)
  have one: "no_gap nanos backfill (S ?k) ?s db'" if G
    using sv that by (intro poll_pages_no_gap [OF L S' at(2) _ db at(3) pages]) simp_all
  have gap: "no_gap nanos backfill (S k) s db'" if "(k, s) \<in> market_pairs db" and G for k s
  proof (cases "s = ?s")
    case True
    with pairs_by_symbol [OF symbols_of [OF ok] pair] that one show ?thesis by simp
  next
    case False
    from no_gap_cong [OF eff(2) [OF this]] ok that show ?thesis by (auto simp: db_ok_def)
  qed
  have rows: "table_rows s db' = table_rows s db" for s by (simp add: table_rows_def sym)
  have ok': "db_ok G L nanos backfill S db'"
    using ok eff(1) gap same by (auto simp: db_ok_def rows)
  have keep: "proc_inv G L nanos backfill S db' (p\<lparr>pr_poller := poller\<rparr>)"
    if "poller_ok G nanos backfill S db' (sv_perp_markets (pr_services p)) poller" for poller
    using that by (intro proc_inv_flight [OF inv sym(1)]) (simp_all add: all_rows_def in_flight_def rows)
  have "proc_inv G L nanos backfill S db' q" if "after_poll p m ms r = Some q" for q
  proof -
    consider start' where "r = Inr start'" | "r = Inl Polled" | "r = Inl (PollFailed Panicked)"
      | "after_poll p m ms r = None"
      by (cases "(p, m, ms, r)" rule: after_poll.cases) auto
    then show ?thesis
    proof cases
      case 1
      with run have "poll_round L m (sv_backfill_start (pr_services p)) start rd db = (Inr start', db')" by simp
      note below = poll_round_below [OF L S' at(2) sv at(3) this]
      have "poller_ok G nanos backfill S db' (sv_perp_markets (pr_services p)) (PollAt m start' ms)"
        using below at(1) by (simp add: poller_ok_def)
      from keep [OF this] 1 that show ?thesis by simp
    qed (use that at(1) in \<open>auto intro!: keep simp: poller_ok_def\<close>)
  qed
  with ok' show ?thesis by (simp add: life_inv_def split: option.split)
qed

lemma poll_begun_life:
  assumes L: "G \<Longrightarrow> chrono_ok L nanos" and S: "hourly S"
    and inv: "proc_inv G L nanos backfill S db p" and ok: "db_ok G L nanos backfill S db"
    and p: "pr_poller p = PollNext (m # ms)"
    and run: "poll_start L m (sv_backfill_start (pr_services p)) newest_ok db = r"
  shows "life_inv G L nanos backfill S
     \<lparr>li_db = db, li_proc = after_poll p m ms (case r of Inl e \<Rightarrow> Inl (PollFailed e) | Inr start \<Rightarrow> Inr start)\<rparr>"
proof -
  let ?k = "pm_market_id m" and ?s = "pm_symbol_id m"
  have grid: "\<forall>s \<in> set (S ?k). s mod 3600 = 0" using S by (simp add: hourly_def)
  have ms: "set (m # ms) \<subseteq> set (sv_perp_markets (pr_services p))"
    using inv p by (simp add: proc_inv_def poller_ok_def)
  have "(?k, ?s) \<in> market_pairs db" using inv ms by (simp add: proc_inv_def markets_ok_def)
  then have gap: "no_gap nanos backfill (S ?k) ?s db" if G using ok that by (auto simp: db_ok_def)
  have keep: "proc_inv G L nanos backfill S db (p\<lparr>pr_poller := poller\<rparr>)"
    if "poller_ok G nanos backfill S db (sv_perp_markets (pr_services p)) poller" for poller
    using that by (intro proc_inv_flight [OF inv]) (simp_all add: all_rows_def in_flight_def)
  show ?thesis
  proof (cases r)
    case (Inl e)
    then show ?thesis
      using ok by (cases e) (auto simp: life_inv_def poller_ok_def intro!: keep)
  next
    case (Inr start)
    have b: "sv_backfill_start (pr_services p) = backfill" using inv by (simp add: proc_inv_def)
    have "next_request_start L (newest_funding_time ?s db) backfill = Inr start"
      using run Inr by (auto simp: poll_start_def with_conn_def b split: if_splits)
    from first_start_below [OF L grid gap this] ms have
      "poller_ok G nanos backfill S db (sv_perp_markets (pr_services p)) (PollAt m start ms)"
      by (simp add: poller_ok_def)
    from keep [OF this] ok Inr show ?thesis by (simp add: life_inv_def)
  qed
qed

section \<open>Every reachable state\<close>

lemma life_step_inv:
  assumes "life_step L cfg answers l l'" and L: "G \<Longrightarrow> chrono_ok L nanos" and S: "hourly S"
    and sv: "\<And>k server. G \<Longrightarrow> answers k server \<Longrightarrow> serves L nanos k (S k) server"
    and cfg: "cf_backfill_start cfg = Some backfill \<or> cf_backfill_start cfg = None"
    and "life_inv G L nanos backfill S l"
  shows "life_inv G L nanos backfill S l'"
  using assms(1,6)
proof (induction rule: life_step.induct)
  case (boot env db sv db')
  then have ok: "db_ok G L nanos backfill S db" by (simp add: life_inv_def)
  note st = start_ok [OF ok boot(1)]
  have "sv_backfill_start sv = backfill" using st(2) [OF refl] cfg by auto
  with started_inv [OF st(1), of sv] st show ?case by (simp add: life_inv_def)
next
  case (boot_failed env db e db')
  then have "db_ok G L nanos backfill S db" by (simp add: life_inv_def)
  from start_ok(1) [OF this boot_failed(1)] show ?case unfolding life_inv_def by simp
next
  case (killed db p)
  then show ?case by (simp add: life_inv_def)
next
  case (connected p sink c db)
  then show ?case by (simp add: life_inv_def connected_inv)
next
  case (handled p c ev r c' db)
  then have "symbols_inv db" by (auto simp: life_inv_def intro: symbols_of)
  with handled show ?case by (simp add: life_inv_def handled_inv)
next
  case (delivered p m ms db)
  then show ?case by (simp add: life_inv_def delivered_inv)
next
  case (received p m q db f)
  then show ?case by (intro received_life) (simp_all add: life_inv_def)
next
  case (ticked db p f)
  then show ?case by (intro ticked_life) (simp_all add: life_inv_def)
next
  case (swept p db)
  then have inv: "proc_inv G L nanos backfill S db p" by (simp add: life_inv_def)
  have "proc_inv G L nanos backfill S db (p\<lparr>pr_poller := PollNext (sv_perp_markets (pr_services p))\<rparr>)"
    by (rule proc_inv_flight [OF inv]) (simp_all add: all_rows_def in_flight_def poller_ok_def)
  with swept show ?case by (simp add: life_inv_def)
next
  case (poll_begun p m ms newest_ok db r)
  then show ?case by (intro poll_begun_life [OF L S]) (simp_all add: life_inv_def)
next
  case (poll_turned p m start ms rd db r db')
  then show ?case by (intro poll_turned_life [OF L S _ _ _ sv]) (simp_all add: life_inv_def)
qed

lemma life_reach_inv:
  assumes "life_reach L cfg answers db l" and "G \<Longrightarrow> chrono_ok L nanos" and "hourly S"
    and "\<And>k server. G \<Longrightarrow> answers k server \<Longrightarrow> serves L nanos k (S k) server"
    and "cf_backfill_start cfg = Some backfill \<or> cf_backfill_start cfg = None"
    and "db_ok G L nanos backfill S db"
  shows "life_inv G L nanos backfill S l"
  using assms(1)
proof (induction rule: life_reach.induct)
  case initial
  show ?case using assms(6) by (simp add: life_inv_def)
next
  case (step l l')
  from life_step_inv [OF step(2) assms(2-5) step.IH] show ?case by simp
qed

text \<open>A database without order-book rows and settlements, whatever symbols and trades it has.\<close>

lemma db_ok_new:
  assumes "db_inv db" and "db_orderbooks db = []" and "db_fundings db = []"
  shows "db_ok G L nanos backfill S db"
  using assms
  by (auto simp: db_ok_def table_rows_def log_ok_def chained_def read_rows_def no_gap_def funding_times_def)

text \<open>Without the settlements nothing is asked of the servers.\<close>

lemma life_logs:
  assumes "life_reach L cfg answers db l" and "db_inv db" and "db_orderbooks db = []" and "db_fundings db = []"
  shows "\<exists>backfill. life_inv False L (\<lambda>t. 0) backfill (\<lambda>m. []) l"
proof -
  obtain backfill where "cf_backfill_start cfg = Some backfill \<or> cf_backfill_start cfg = None"
    by (cases "cf_backfill_start cfg") auto
  then have "life_inv False L (\<lambda>t. 0) backfill (\<lambda>m. []) l"
    using assms by (intro life_reach_inv [OF assms(1)]) (simp_all add: hourly_def db_ok_new)
  then show ?thesis ..
qed

lemma life_inv_logs:
  assumes "life_inv G L nanos backfill S l" and "r \<in> set (db_symbols (li_db l))"
  shows "db_inv (li_db l) \<and> log_ok L (table_rows (sym_id r) (li_db l))"
  using assms by (simp add: life_inv_def db_ok_def symbol_ids_def)

lemma life_inv_symbol:
  assumes "life_inv G L nanos backfill S l" and "li_proc l = Some p" and "sv_symbol_cache (pr_services p) k = Some s"
  shows "s \<in> symbol_ids (li_db l)"
proof -
  have "symbols_inv (li_db l)" using assms(1) by (auto simp: life_inv_def intro: symbols_of)
  moreover have "proc_inv G L nanos backfill S (li_db l) p" using assms(1,2) by (simp add: life_inv_def)
  ultimately show ?thesis
    using assms(3) proc_inv_rows(3) load_symbol_cache_ran by (metis ranI)
qed

lemma life_inv_book:
  assumes inv: "life_inv G L nanos backfill S l" and p: "li_proc l = Some p" and c: "pr_conn p = Some c"
    and k: "sv_symbol_cache (pr_services p) k = Some s" and m: "cn_markets c k = Some m"
  shows "read_rows L (all_rows s (li_db l) p) = Some (Some (market_state m))"
    and "all_rows s (li_db l) p \<noteq> [] \<and> obr_time (last (all_rows s (li_db l) p)) = mb_source_time m"
    and "log_ok L (all_rows s (li_db l) p)"
proof -
  have pi: "proc_inv G L nanos backfill S (li_db l) p" using inv p by (simp add: life_inv_def)
  note rows = proc_inv_rows [OF pi]
  have f: "feed_inv L (sv_symbol_cache (pr_services p)) c" using rows(1) c by (simp add: conn_log_def)
  obtain past where past: "all_rows s (li_db l) p = past @ rows_of s (cn_rows c)" "log_ok L past"
    using rows(1) c life_inv_symbol [OF inv p k] by (auto simp: conn_log_def)
  then obtain st where "read_rows L past = Some st" by (auto simp: log_ok_def)
  moreover have mk: "market_ok L (rows_of s (cn_rows c)) (Some m)"
    using feed_inv_market [OF f k] m by simp
  ultimately show "read_rows L (all_rows s (li_db l) p) = Some (Some (market_state m))"
    using read_rows_append [of L past st "rows_of s (cn_rows c)"] past(1)
    by (auto simp: market_ok_def chained_def)
  show "all_rows s (li_db l) p \<noteq> [] \<and> obr_time (last (all_rows s (li_db l) p)) = mb_source_time m"
    using mk past(1) by (simp add: market_ok_def)
  have "log_ok L (rows_of s (cn_rows c))" using mk by (simp add: market_ok_def log_ok_def)
  from log_ok_append [OF past(2) this] show "log_ok L (all_rows s (li_db l) p)" unfolding past(1) .
qed

end
