(* ===== verification/Export_Log.thy ===== *)
theory Export_Log
  imports Query Life
begin

text \<open>
  Reading order-book rows in the order of their times. The README tells a reader to replay the rows of a symbol
  in \<^verbatim>\<open>(time, id)\<close> order, and the Parquet export writes them in that order, without the begin nonces. Both
  give the book that the rows give in the order of their ids, as long as no snapshot is older than the
  row before it.
\<close>

section \<open>Time order\<close>

definition by_time :: "'t::linorder ob_row list \<Rightarrow> 't ob_row list" where
  "by_time rows = sort_key obr_time rows"

definition snapshots_in_time :: "'t::linorder ob_row list \<Rightarrow> bool" where
  "snapshots_in_time rows \<longleftrightarrow> successively (\<lambda>a b. obr_type b = ''snapshot'' \<longrightarrow> obr_time a \<le> obr_time b) rows"

lemma chained_in_time:
  assumes "chained rows" and "snapshots_in_time rows"
  shows "sorted (map obr_time rows)"
proof -
  have "successively row_link rows" using assms(1) by (simp add: chained_def)
  then have "successively (\<lambda>a b. obr_time a \<le> obr_time b) rows"
    using assms(2) unfolding snapshots_in_time_def
    by (induction rows rule: induct_list012) (auto simp: row_link_def)
  then have "successively (\<le>) (map obr_time rows)" by (simp add: successively_map)
  then show ?thesis by (simp add: successively_conv_sorted_wrt)
qed

lemma by_time_sorted: "sorted (map obr_time rows) \<Longrightarrow> by_time rows = rows"
  by (simp add: by_time_def sorted_sort_id sort_key_id_if_sorted)

section \<open>A book that comes with an older time\<close>

text \<open>A row with an older time goes, in the order of times, before the rows that are newer.\<close>

lemma by_time_snoc:
  assumes "sorted (map obr_time rows)"
  shows "by_time (rows @ [r]) = filter (\<lambda>b. obr_time b \<le> obr_time r) rows @ r # filter (\<lambda>b. obr_time r < obr_time b) rows"
  unfolding by_time_def
proof (rule properties_for_sort_key)
  let ?older = "filter (\<lambda>b. obr_time b \<le> obr_time r) rows" and ?newer = "filter (\<lambda>b. obr_time r < obr_time b) rows"
  have rows: "rows = ?older @ ?newer" using assms by (rule sorted_split)
  then have "mset rows = mset ?older + mset ?newer" by (metis mset_append)
  then show "mset (?older @ r # ?newer) = mset (rows @ [r])" by simp
  have "sorted (map obr_time (?older @ ?newer))" using assms rows by simp
  then show "sorted (map obr_time (?older @ r # ?newer))" by (auto simp: sorted_append)
  show "filter (\<lambda>x. obr_time k = obr_time x) (?older @ r # ?newer) = filter (\<lambda>x. obr_time k = obr_time x) (rows @ [r])" for k
  proof (cases "obr_time k = obr_time r")
    case True
    then have "filter (\<lambda>x. obr_time k = obr_time x) ?newer = []" by (auto simp: filter_empty_conv)
    moreover have "filter (\<lambda>x. obr_time k = obr_time x) rows
        = filter (\<lambda>x. obr_time k = obr_time x) ?older @ filter (\<lambda>x. obr_time k = obr_time x) ?newer"
      using arg_cong [OF rows, of "filter (\<lambda>x. obr_time k = obr_time x)"] by (simp only: filter_append)
    ultimately show ?thesis using True by (simp del: filter_filter)
  next
    case False
    then show ?thesis using arg_cong [OF rows, of "filter (\<lambda>x. obr_time k = obr_time x)"] by simp
  qed
qed

lemma to_log_sequence: "to_log row = Some r \<Longrightarrow> advance fs ap st r = Inr s \<Longrightarrow> obr_sequence row = Some (fst s)"
  by (cases r; cases st) (auto simp: to_log_def split: option.splits if_splits prod.splits sum.splits)

text \<open>A reader ends with the sequence number of the last row, or not at all.\<close>

lemma read_rows_sequence:
  assumes "read_rows L (rows @ [row]) = Some st"
  obtains n b where "st = Some (n, b)" and "obr_sequence row = Some n"
proof -
  obtain log r where r: "seq_opt to_log rows = Some log" "to_log row = Some r"
    and "replay (from_snapshot L) (apply_delta L) None (log @ [r]) = Inr st"
    using assms by (auto simp: read_rows_def seq_opt_append split: option.splits sum.splits)
  then obtain s where a: "advance (from_snapshot L) (apply_delta L) s r = Inr (the st)" "st = Some (the st)"
    by (auto simp: replay_append)
  show thesis
  proof (rule that)
    show "st = Some (fst (the st), snd (the st))" using a(2) by simp
  qed (rule to_log_sequence [OF r(2) a(1)])
qed

text \<open>A delta after a snapshot that it does not continue stops the reader.\<close>

lemma read_rows_gap:
  assumes "obr_type row = ''snapshot''" and "obr_sequence row = Some n" and "obr_type d = ''delta''"
    and "obr_begin_nonce d \<noteq> Some n"
  shows "read_rows L (rows @ row # d # rows') = None"
proof (rule ccontr)
  assume "read_rows L (rows @ row # d # rows') \<noteq> None"
  then obtain st where "read_rows L (rows @ row # d # rows') = Some st" by blast
  from read_rows_restart [OF this assms(1)] assms show False
    by (auto simp: read_rows_def to_log_def split: option.splits sum.splits prod.splits if_splits)
qed

lemma older_book_rows:
  assumes log: "log_ok L rows" and time: "snapshots_in_time rows" and read: "read_rows L rows = Some (Some (n, b))"
    and r: "log_ok L [r]" "obr_sequence r = Some n'" and older: "rows \<noteq> []" "obr_time r < obr_time (last rows)"
  shows "if obr_type (hd (filter (\<lambda>b. obr_time r < obr_time b) rows)) = ''snapshot''
       then read_rows L (by_time (rows @ [r])) = Some (Some (n, b))
       else obr_begin_nonce (hd (filter (\<lambda>b. obr_time r < obr_time b) rows)) \<noteq> Some n' \<longrightarrow>
         read_rows L (by_time (rows @ [r])) = None"
    and "read_rows L (by_time (rows @ [r])) = None \<or> (\<exists>b. read_rows L (by_time (rows @ [r])) = Some (Some (n, b)))"
proof -
  let ?older = "filter (\<lambda>b. obr_time b \<le> obr_time r) rows" and ?newer = "filter (\<lambda>b. obr_time r < obr_time b) rows"
  have "sorted (map obr_time rows)" using log time by (intro chained_in_time) (simp_all add: log_ok_def)
  note split = sorted_split [OF this, of "obr_time r"] and bt = by_time_snoc [OF this, of r]
  have "last rows \<in> set ?newer" using older by simp
  then obtain d ds where newer: "?newer = d # ds" by (cases ?newer) auto
  have snap: "obr_type r = ''snapshot''" using r(1) by (simp add: log_ok_def chained_def)
  have types: "obr_type d = ''snapshot'' \<or> obr_type d = ''delta''"
  proof -
    have "read_rows L (?older @ d # ds) = Some (Some (n, b))" using read split newer by simp
    then obtain x where "to_log d = Some x" by (auto simp: read_rows_def seq_opt_append split: option.splits)
    then show ?thesis by (auto simp: to_log_def split: option.splits if_splits)
  qed
  show "if obr_type (hd ?newer) = ''snapshot'' then read_rows L (by_time (rows @ [r])) = Some (Some (n, b))
       else obr_begin_nonce (hd ?newer) \<noteq> Some n' \<longrightarrow> read_rows L (by_time (rows @ [r])) = None"
  proof (cases "obr_type d = ''snapshot''")
    case True
    have again: "read_rows L (d # ds) = Some (Some (n, b))"
      using read True split newer by (metis read_rows_restart)
    have "log_ok L ?older" using log split by (metis log_ok_prefix)
    from log_ok_append [OF this r(1)] obtain st where "read_rows L (?older @ [r]) = Some st" by (auto simp: log_ok_def)
    from read_rows_append [OF this, of "d # ds"] again True have "read_rows L ((?older @ [r]) @ d # ds) = Some (Some (n, b))"
      by simp
    with True show ?thesis unfolding bt newer by simp
  next
    case False
    with types read_rows_gap [OF snap r(2), of d L ?older ds] show ?thesis unfolding bt newer by simp
  qed
  have last: "by_time (rows @ [r]) = butlast (by_time (rows @ [r])) @ [last rows]"
  proof -
    have "last rows = last (d # ds)" using split newer by (metis last_appendR list.distinct(1))
    moreover have "last (by_time (rows @ [r])) = last (d # ds)" "by_time (rows @ [r]) \<noteq> []" unfolding bt newer by simp_all
    ultimately show ?thesis by (metis append_butlast_last_id)
  qed
  have "rows = butlast rows @ [last rows]" using older(1) by simp
  with read read_rows_sequence [of L "butlast rows" "last rows"] have seq: "obr_sequence (last rows) = Some n" by (metis option.inject prod.inject)
  show "read_rows L (by_time (rows @ [r])) = None \<or> (\<exists>b. read_rows L (by_time (rows @ [r])) = Some (Some (n, b)))"
  proof (cases "read_rows L (by_time (rows @ [r]))")
    case (Some st)
    with last have "read_rows L (butlast (by_time (rows @ [r])) @ [last rows]) = Some st" by simp
    from read_rows_sequence [OF this] seq Some show ?thesis by (metis option.inject)
  qed simp
qed

section \<open>Rows of one symbol in an export\<close>

lemma concat_at_key:
  assumes "distinct (map f xs)" and "x \<in> set xs"
  shows "concat (map (\<lambda>s. if f s = f x then g s else []) xs) = g x"
  using assms by (induction xs) (auto simp: image_iff concat_eq_Nil_conv, metis)

lemma select_of_symbol:
  assumes inv: "symbols_inv db" and r: "r \<in> set (db_symbols db)"
    and unique: "\<And>s. s \<in> set (db_symbols db) \<Longrightarrow> sym_name s = sym_name r \<Longrightarrow> s = r"
    and match: "names_match (fst sel) (sym_name r)"
  shows "filter (\<lambda>v. bv_symbol v = sym_name r) (select_orderbooks ago sel db)
     = sort_key bv_time (map (\<lambda>b. view_of_book b (sym_name r))
         (filter (\<lambda>b. recent ago (snd sel) (obr_time b)) (table_rows (sym_id r) db)))"
proof -
  let ?views = "\<lambda>b s. if names_match (fst sel) (sym_name s) \<and> recent ago (snd sel) (obr_time b)
     then [view_of_book b (sym_name s)] else []"
  let ?mine = "\<lambda>v. bv_symbol v = sym_name r"
  have one: "filter ?mine (concat (map (\<lambda>s. if sym_id s = obr_symbol b then ?views b s else []) (db_symbols db)))
      = (if obr_symbol b = sym_id r \<and> recent ago (snd sel) (obr_time b) then [view_of_book b (sym_name r)] else [])" for b
  proof (cases "obr_symbol b = sym_id r")
    case True
    have "concat (map (\<lambda>s. if sym_id s = sym_id r then ?views b s else []) (db_symbols db)) = ?views b r"
      using inv r by (intro concat_at_key) (simp_all add: symbols_inv_def)
    with True match show ?thesis by (simp add: view_of_book_def)
  next
    case False
    then have "\<not> ?mine v" if "v \<in> set (if sym_id s = obr_symbol b then ?views b s else [])" "s \<in> set (db_symbols db)" for v s
      using that unique [of s] by (auto simp: view_of_book_def split: if_splits)
    with False show ?thesis by (auto simp: filter_concat concat_eq_Nil_conv filter_empty_conv)
  qed
  have "filter ?mine (concat (map (\<lambda>b. concat (map (\<lambda>s. if sym_id s = obr_symbol b then ?views b s else []) (db_symbols db))) bs))
      = map (\<lambda>b. view_of_book b (sym_name r))
         (filter (\<lambda>b. recent ago (snd sel) (obr_time b)) (filter (\<lambda>b. obr_symbol b = sym_id r) bs))" for bs
    by (induction bs) (simp_all add: one)
  then show ?thesis by (simp add: select_orderbooks_def filter_sort table_rows_def)
qed

section \<open>A book from an exported file\<close>

text \<open>A reader of exported lines has no begin nonce to check: it applies each delta to the book it has.\<close>

definition text_levels :: "('d, 't, 'f) libs \<Rightarrow> string \<Rightarrow> price_level list option" where
  "text_levels L text = Option.bind (json_from_str L text) de_levels"

fun rebuild :: "('d::linorder, 't, 'f) libs \<Rightarrow> 'd book option \<Rightarrow> book_line list \<Rightarrow> 'd book option option" where
  "rebuild L st [] = Some st"
| "rebuild L st ((time, name, ty, sequence, bids_text, asks_text) # lines) =
     (case (text_levels L bids_text, text_levels L asks_text) of
        (Some bs, Some as) \<Rightarrow>
          if ty = ''snapshot'' then
            (case from_snapshot L bs as of Inl e \<Rightarrow> None | Inr book \<Rightarrow> rebuild L (Some book) lines)
          else (case st of
            None \<Rightarrow> None
          | Some book \<Rightarrow>
              (case apply_delta L book bs as of (Inl e, _) \<Rightarrow> None | (Inr _, book') \<Rightarrow> rebuild L (Some book') lines))
      | _ \<Rightarrow> None)"

definition line_symbol :: "book_line \<Rightarrow> string" where
  "line_symbol line = fst (snd line)"

definition line_type :: "book_line \<Rightarrow> string" where
  "line_type line = fst (snd (snd line))"

text \<open>\<^verbatim>\<open>serde_json\<close>: a value that is written as text is read back.\<close>

definition text_round_trip :: "('d, 't, 'f) libs \<Rightarrow> bool" where
  "text_round_trip L \<longleftrightarrow> (\<forall>v text. json_to_text L v = Some text \<longrightarrow> json_from_str L text = Some v)"

lemma book_line_parts:
  assumes "book_line L (view_of_book b name) = Inr line" and "text_round_trip L"
  obtains bids_text asks_text where
    "line = (to_micros L (obr_time b), name, obr_type b, obr_sequence b, bids_text, asks_text)"
    and "text_levels L bids_text = de_levels (obr_bids b)" and "text_levels L asks_text = de_levels (obr_asks b)"
  using assms
  by (auto simp: book_line_def view_of_book_def text_round_trip_def text_levels_def)

lemma rebuild_replays:
  assumes "text_round_trip L"
  shows "map Inr lines = map (book_line L) (map (\<lambda>b. view_of_book b name) rows) \<Longrightarrow> seq_opt to_log rows = Some log \<Longrightarrow>
     replay (from_snapshot L) (apply_delta L) st log = Inr st' \<Longrightarrow>
     rebuild L (map_option snd st) lines = Some (map_option snd st')"
proof (induction rows arbitrary: lines log st)
  case Nil
  then show ?case by simp
next
  case (Cons b rows)
  from Cons.prems(1) obtain line lines' where l: "lines = line # lines'"
    and bl: "book_line L (view_of_book b name) = Inr line"
    and rest: "map Inr lines' = map (book_line L) (map (\<lambda>b. view_of_book b name) rows)"
    by (cases lines) auto
  from Cons.prems(2) obtain r log' where r: "to_log b = Some r" "seq_opt to_log rows = Some log'" "log = r # log'"
    by (auto split: option.splits)
  from Cons.prems(3) r(3) obtain s where s: "advance (from_snapshot L) (apply_delta L) st r = Inr s"
    and re: "replay (from_snapshot L) (apply_delta L) (Some s) log' = Inr st'"
    by auto
  obtain bt at where line: "line = (to_micros L (obr_time b), name, obr_type b, obr_sequence b, bt, at)"
    and lv: "text_levels L bt = de_levels (obr_bids b)" "text_levels L at = de_levels (obr_asks b)"
    using book_line_parts [OF bl assms] by blast
  have "rebuild L (map_option snd st) lines = rebuild L (Some (snd s)) lines'"
    using r(1) s
    by (cases r; cases st)
      (auto simp: l line lv to_log_def split: option.splits if_splits sum.splits prod.splits)
  with Cons.IH [OF rest r(2) re] show ?case by simp
qed

lemma rebuild_rows:
  assumes "text_round_trip L" and "map Inr lines = map (book_line L) (map (\<lambda>b. view_of_book b name) rows)"
    and "read_rows L rows = Some st"
  shows "rebuild L None lines = Some (map_option snd st)"
  using rebuild_replays [OF assms(1,2), of _ None] assms(3)
  by (auto simp: read_rows_def split: option.splits sum.splits)

section \<open>From the table to a file and back to a book\<close>

lemma lines_of_symbol:
  "map Inr lines = map (book_line L) views \<Longrightarrow>
   map Inr (filter (\<lambda>l. line_symbol l = name) lines) = map (book_line L) (filter (\<lambda>v. bv_symbol v = name) views)"
proof (induction views arbitrary: lines)
  case (Cons v views)
  then obtain line lines' where l: "lines = line # lines'" "book_line L v = Inr line"
    "map Inr lines' = map (book_line L) views" by (cases lines) auto
  then have "line_symbol line = bv_symbol v" by (auto simp: book_line_def line_symbol_def)
  with l Cons.IH [OF l(3)] show ?case by simp
qed simp

lemma recent_suffix: "sorted (map f xs) \<Longrightarrow> \<exists>older. xs = older @ filter (\<lambda>x. recent ago hours (f x)) xs"
  using sorted_filter_suffix [of f xs] by (cases hours) (simp_all add: recent_def)

text \<open>The lines of a symbol are the rows of the symbol, from the first that is recent.\<close>

lemma exported_lines:
  assumes "export_parquet L env dir symbols hours trades True overwrite files = (Inr (), files')"
    and "answers_orderbooks ago db env" and inv: "symbols_inv db" and r: "r \<in> set (db_symbols db)"
    and unique: "\<And>s. s \<in> set (db_symbols db) \<Longrightarrow> sym_name s = sym_name r \<Longrightarrow> s = r"
    and asked: "symbols = [] \<or> sym_name r \<in> set symbols"
    and sorted: "sorted (map obr_time (table_rows (sym_id r) db))"
  obtains out older newer where "files' (path_join dir ''orderbook_messages.parquet'') = Some (BooksFile out True)"
    and "table_rows (sym_id r) db = older @ newer" and "hours = None \<Longrightarrow> older = []"
    and "map Inr (filter (\<lambda>l. line_symbol l = sym_name r) (concat (map book_lines out)))
       = map (book_line L) (map (\<lambda>b. view_of_book b (sym_name r)) newer)"
proof -
  let ?sel = "(if symbols = [] then None else Some symbols, hours)" and ?rows = "table_rows (sym_id r) db"
  let ?recent = "filter (\<lambda>b. recent ago hours (obr_time b)) ?rows"
  obtain out where o: "files' (path_join dir ''orderbook_messages.parquet'') = Some (BooksFile out True)"
    and lines: "map Inr (concat (map book_lines out)) = map (book_line L) (select_orderbooks ago ?sel db)"
    using exported_books_selected [OF assms(1,2)] by blast
  have "names_match (fst ?sel) (sym_name r)" using asked by (auto simp: names_match_def)
  from select_of_symbol [OF inv r unique this, of ago]
  have "filter (\<lambda>v. bv_symbol v = sym_name r) (select_orderbooks ago ?sel db)
      = sort_key bv_time (map (\<lambda>b. view_of_book b (sym_name r)) ?recent)" by simp
  also have "\<dots> = map (\<lambda>b. view_of_book b (sym_name r)) ?recent"
    using sorted by (intro sort_key_id_if_sorted) (simp add: comp_def view_of_book_def sorted_filter)
  finally have "map Inr (filter (\<lambda>l. line_symbol l = sym_name r) (concat (map book_lines out)))
      = map (book_line L) (map (\<lambda>b. view_of_book b (sym_name r)) ?recent)"
    using lines_of_symbol [OF lines] by simp
  moreover obtain older where "?rows = older @ ?recent" using recent_suffix [OF sorted] by blast
  moreover have "older = []" if "hours = None" "?rows = older @ ?recent" for older
    using that by (simp add: recent_def)
  ultimately show ?thesis using that o by blast
qed

lemma rebuild_exported:
  assumes "text_round_trip L" and "log_ok L (older @ newer)"
    and "map Inr lines = map (book_line L) (map (\<lambda>b. view_of_book b name) newer)"
    and "lines = before @ line # after" and "line_type line = ''snapshot''"
  shows "\<exists>st. read_rows L (older @ newer) = Some st \<and> rebuild L None (line # after) = Some (map_option snd st)"
proof -
  obtain st where st: "read_rows L (older @ newer) = Some st" using assms(2) by (auto simp: log_ok_def)
  have len: "length lines = length newer" using assms(3) by (metis length_map)
  define bs b as where "bs = take (length before) newer" and "b = newer ! length before"
    and "as = drop (Suc (length before)) newer"
  have n: "newer = bs @ b # as"
    using len assms(4) by (simp add: bs_def b_def as_def id_take_nth_drop)
  have "length bs = length before" using len assms(4) by (simp add: bs_def)
  with assms(3,4) n have rest: "map Inr (line # after) = map (book_line L) (map (\<lambda>b. view_of_book b name) (b # as))"
    by (simp add: append_eq_append_conv)
  then have "book_line L (view_of_book b name) = Inr line" by simp
  then have "obr_type b = ''snapshot''"
    using assms(5) by (auto simp: book_line_def view_of_book_def line_type_def)
  with st have "read_rows L (b # as) = Some st"
    using read_rows_restart [of L "older @ bs" b as st] n by simp
  from rebuild_rows [OF assms(1) rest this] st show ?thesis by blast
qed

end
