(* ===== verification/Retention.thy ===== *)
theory Retention
  imports Export_Log
begin

text \<open>
  The retention policy of the order-book rows, as one more task of the environment: at any moment it may
  drop the rows that are older than some instant, whole chunks at a time. The service never reads the
  order-book table, so a life with drops is a life without them, but for the rows that are gone: the
  relation is a simulation in which a drop is no step at all. Its extra state is the list of all rows that
  were ever written.
\<close>

section \<open>Drops\<close>

definition drop_before :: "'t::linorder \<Rightarrow> ('t, 'f, 'd) db \<Rightarrow> ('t, 'f, 'd) db" where
  "drop_before cutoff db = db\<lparr>db_orderbooks := filter (\<lambda>b. cutoff \<le> obr_time b) (db_orderbooks db)\<rparr>"

definition with_books :: "'t ob_row list \<Rightarrow> ('t, 'f, 'd) db \<Rightarrow> ('t, 'f, 'd) db" where
  "with_books bs db = db\<lparr>db_orderbooks := bs\<rparr>"

definition life_with_books :: "'t ob_row list \<Rightarrow> ('d, 't, 'f) life \<Rightarrow> ('d, 't, 'f) life" where
  "life_with_books bs l = l\<lparr>li_db := with_books bs (li_db l)\<rparr>"

inductive kept_reach ::
  "('d::linorder, 't::linorder, 'f) libs \<Rightarrow> 't config \<Rightarrow> (int \<Rightarrow> server \<Rightarrow> bool) \<Rightarrow> ('t, 'f, 'd) db
   \<Rightarrow> 't ob_row list \<Rightarrow> ('d, 't, 'f) life \<Rightarrow> bool"
  for L cfg answers db where
  initial: "kept_reach L cfg answers db (db_orderbooks db) \<lparr>li_db = db, li_proc = None\<rparr>"
| step: "kept_reach L cfg answers db written l \<Longrightarrow> life_step L cfg answers l l' \<Longrightarrow>
     new = drop (length (db_orderbooks (li_db l))) (db_orderbooks (li_db l')) \<Longrightarrow>
     kept_reach L cfg answers db (written @ new) l'"
| retention: "kept_reach L cfg answers db written l \<Longrightarrow>
     kept_reach L cfg answers db written (l\<lparr>li_db := drop_before cutoff (li_db l)\<rparr>)"

lemma with_books_simps [simp]:
  "db_symbols (with_books bs db) = db_symbols db" "db_next_symbol (with_books bs db) = db_next_symbol db"
  "db_trades (with_books bs db) = db_trades db" "db_fundings (with_books bs db) = db_fundings db"
  "db_orderbooks (with_books bs db) = bs" "with_books bs (with_books cs db) = with_books bs db"
  "with_books (db_orderbooks db) db = db"
  by (simp_all add: with_books_def)

lemma with_books_updates [simp]:
  "with_books bs (db\<lparr>db_symbols := x\<rparr>) = (with_books bs db)\<lparr>db_symbols := x\<rparr>"
  "with_books bs (db\<lparr>db_next_symbol := n\<rparr>) = (with_books bs db)\<lparr>db_next_symbol := n\<rparr>"
  "with_books bs (db\<lparr>db_trades := y\<rparr>) = (with_books bs db)\<lparr>db_trades := y\<rparr>"
  "with_books bs (db\<lparr>db_fundings := z\<rparr>) = (with_books bs db)\<lparr>db_fundings := z\<rparr>"
  "with_books bs (db\<lparr>db_orderbooks := cs\<rparr>) = with_books bs db"
  "(with_books bs db)\<lparr>db_orderbooks := cs\<rparr> = with_books cs db"
  by (simp_all add: with_books_def)

section \<open>The statements do not look at the rows\<close>

lemma with_books_read [simp]:
  "symbol_ids (with_books bs db) = symbol_ids db"
  "load_symbol_cache (with_books bs db) = load_symbol_cache db"
  "load_perp_markets (with_books bs db) = load_perp_markets db"
  "cache_keys order (with_books bs db) = cache_keys order db"
  by (simp_all add: symbol_ids_def load_symbol_cache_def load_perp_markets_def cache_keys_def)

lemma newest_books [simp]: "newest_funding_time s (with_books bs db) = newest_funding_time s db"
  by (simp add: newest_funding_time_def funding_times_def)

abbreviation books_after :: "'t ob_row list \<Rightarrow> 'e + 'a \<times> ('t, 'f, 'd) db \<Rightarrow> 'e + 'a \<times> ('t, 'f, 'd) db" where
  "books_after bs r \<equiv> map_sum id (map_prod id (with_books bs)) r"

lemma upsert_symbol_books:
  "upsert_symbol nm ty m (with_books bs db) = books_after bs (upsert_symbol nm ty m db)"
  by (auto simp: upsert_symbol_def split: option.split)

lemma insert_fundings_books:
  "insert_funding_rates rs (with_books bs db) = books_after bs (insert_funding_rates rs db)"
  by (simp add: insert_funding_rates_def Let_def)

lemma upsert_all_books:
  "upsert_all ms (with_books bs db) = map_prod id (with_books bs) (upsert_all ms db)"
proof (induction ms arbitrary: db)
  case (Cons m ms)
  show ?case
    by (cases "upsert_symbol (mk_symbol m) (mk_market_type m) (mk_market_id m) db")
      (auto simp: upsert_symbol_books Cons.IH)
qed simp

lemma sync_books:
  "sync_symbols L reply ok (with_books bs db) = map_prod id (with_books bs) (sync_symbols L reply ok db)"
  by (simp add: sync_symbols_def upsert_all_books rolled_back_def split: option.split prod.split sum.split)

lemma start_books:
  "start_ingestor L cfg env (with_books bs db) = map_prod id (with_books bs) (start_ingestor L cfg env db)"
  by (simp add: start_ingestor_def sync_books Let_def split: option.split prod.split sum.split)

lemma poll_start_books: "poll_start L m backfill ok (with_books bs db) = poll_start L m backfill ok db"
  by (simp add: poll_start_def with_conn_def)

lemma poll_round_books:
  "poll_round L m backfill start rd (with_books bs db) = map_prod id (with_books bs) (poll_round L m backfill start rd db)"
  by (simp add: poll_round_def with_conn_def insert_fundings_books map_err_def map_sum.simps split: sum.split prod.split)

section \<open>Flushes append\<close>

lemma insert_orderbooks_books:
  assumes "insert_orderbook_messages rs db = Inr (n, db')"
  shows "insert_orderbook_messages rs (with_books bs db) = Inr (n, with_books (bs @ rs) db')"
    and "db_orderbooks db' = db_orderbooks db @ rs"
  using assms by (auto simp: insert_orderbook_messages_def split: if_splits)

lemma insert_orderbooks_fails_books:
  "insert_orderbook_messages rs db = Inl e \<Longrightarrow> insert_orderbook_messages rs (with_books bs db) = Inl e"
  by (auto simp: insert_orderbook_messages_def split: if_splits)

lemma insert_trades_books:
  "insert_trades rs (with_books bs db) = books_after bs (insert_trades rs db)"
  by (simp add: insert_trades_def Let_def)

lemma insert_trades_keep: "insert_trades rs db = Inr (n, db') \<Longrightarrow> db_orderbooks db' = db_orderbooks db"
  by (auto simp: insert_trades_def Let_def split: if_splits)

lemma flush_rows_books:
  fixes db db' :: "('t, 'f, 'd) db"
  assumes "flush_rows f ts os db = (ok, db')"
  shows "\<exists>new. db_orderbooks db' = db_orderbooks db @ new
     \<and> (\<forall>bs. flush_rows f ts os (with_books bs db) = (ok, with_books (bs @ new) db'))"
proof -
  define first where "first d = (if ts = [] then Inr (0, d) else if f = TradesFault then Inl None
     else map_err Some (insert_trades ts d))" for d :: "('t, 'f, 'd) db"
  define second where "second d = (if os = [] then Inr (0, d) else if f = OrderbooksFault then Inl None
     else map_err Some (insert_orderbook_messages os d))" for d :: "('t, 'f, 'd) db"
  have flush: "flush_rows f ts os d = (if f = PoolFault \<or> f = TaskPanic then (False, d) else
      case first d of Inl _ \<Rightarrow> (False, d) | Inr (_, d1) \<Rightarrow>
        (case second d1 of Inl _ \<Rightarrow> (False, d1) | Inr (_, d2) \<Rightarrow> (True, d2)))" for d :: "('t, 'f, 'd) db"
    unfolding flush_rows_def first_def second_def by (rule refl)
  have first: "first (with_books bs d) = books_after bs (first d)" for bs and d :: "('t, 'f, 'd) db"
    by (simp add: first_def insert_trades_books map_err_def split: sum.split)
  have keep: "db_orderbooks d1 = db_orderbooks d" if "first d = Inr (n, d1)" for d d1 :: "('t, 'f, 'd) db" and n
    using that by (auto simp: first_def dest: insert_trades_keep split: if_splits)
  have fails: "second (with_books bs d) = Inl e" if "second d = Inl e" for bs e and d :: "('t, 'f, 'd) db"
    using that by (auto simp: second_def map_err_def insert_orderbooks_fails_books split: if_splits sum.splits)
  have goes: "second (with_books bs d) = Inr (n, with_books (bs @ os) d1) \<and> db_orderbooks d1 = db_orderbooks d @ os"
    if "second d = Inr (n, d1)" for bs n and d d1 :: "('t, 'f, 'd) db"
    using that by (auto simp: second_def dest: insert_orderbooks_books split: if_splits)
  show ?thesis
  proof (cases "f = PoolFault \<or> f = TaskPanic")
    case True
    with assms show ?thesis by (auto simp: flush)
  next
    case go: False
    show ?thesis
    proof (cases "first db")
      case (Inl e)
      with assms go show ?thesis by (simp add: flush first)
    next
      case (Inr q)
      then obtain n d1 where one: "first db = Inr (n, d1)" by (cases q) auto
      show ?thesis
      proof (cases "second d1")
        case (Inl e)
        with assms go one keep [OF one] show ?thesis
          by (intro exI [of _ "[]"]) (auto simp: flush first fails)
      next
        case (Inr r)
        then obtain k d2 where two: "second d1 = Inr (k, d2)" by (cases r) auto
        with assms go one keep [OF one] goes [OF two] show ?thesis
          by (intro exI [of _ os]) (simp add: flush first)
      qed
    qed
  qed
qed

definition books_of_writer :: "'t ob_row list \<Rightarrow> ('t, 'f, 'd) writer \<Rightarrow> ('t, 'f, 'd) writer" where
  "books_of_writer bs w = w\<lparr>wr_db := with_books bs (wr_db w)\<rparr>"

lemma flush_books:
  "\<exists>new. db_orderbooks (wr_db (flush f w)) = db_orderbooks (wr_db w) @ new
     \<and> (\<forall>bs. flush f (books_of_writer bs w) = books_of_writer (bs @ new) (flush f w))"
proof (cases "wr_batch w = []")
  case True
  then show ?thesis by (simp add: flush_def books_of_writer_def)
next
  case False
  obtain ok db where fr: "flush_rows f (trades_of (wr_batch w)) (orderbooks_of (wr_batch w)) (wr_db w) = (ok, db)"
    by fastforce
  from flush_rows_books [OF fr] obtain new where new: "db_orderbooks db = db_orderbooks (wr_db w) @ new"
    "\<And>bs. flush_rows f (trades_of (wr_batch w)) (orderbooks_of (wr_batch w)) (with_books bs (wr_db w))
       = (ok, with_books (bs @ new) db)" by blast
  with fr False show ?thesis by (intro exI [of _ new]) (simp add: flush_def books_of_writer_def)
qed

lemma writer_step_books:
  assumes "e \<noteq> Closed"
  shows "\<exists>new. db_orderbooks (wr_db (writer_step f e w)) = db_orderbooks (wr_db w) @ new
     \<and> (\<forall>bs. writer_step f e (books_of_writer bs w) = books_of_writer (bs @ new) (writer_step f e w))"
proof (cases e)
  case (Received m)
  let ?w = "w\<lparr>wr_batch := wr_batch w @ [m]\<rparr>"
  have b: "(books_of_writer bs w)\<lparr>wr_batch := wr_batch (books_of_writer bs w) @ [m]\<rparr> = books_of_writer bs ?w" for bs
    by (simp add: books_of_writer_def)
  show ?thesis
  proof (cases "BATCH_CAPACITY \<le> length (wr_batch ?w)")
    case True
    then have "BATCH_CAPACITY \<le> length (wr_batch (books_of_writer bs ?w))" for bs by (simp add: books_of_writer_def)
    with True flush_books [of f ?w] show ?thesis unfolding Received writer_step.simps Let_def b by simp
  next
    case False
    then have "\<not> BATCH_CAPACITY \<le> length (wr_batch (books_of_writer bs ?w))" for bs by (simp add: books_of_writer_def)
    with False show ?thesis unfolding Received writer_step.simps Let_def b by (simp add: books_of_writer_def)
  qed
next
  case Tick
  with flush_books [of f w] show ?thesis by simp
qed (use assms in simp)

section \<open>The simulation\<close>

lemma life_with_books_simps [simp]:
  "life_with_books bs \<lparr>li_db = db, li_proc = q\<rparr> = \<lparr>li_db = with_books bs db, li_proc = q\<rparr>"
  "li_db (life_with_books bs l) = with_books bs (li_db l)" "li_proc (life_with_books bs l) = li_proc l"
  "life_with_books (db_orderbooks (li_db l)) l = l"
  by (simp_all add: life_with_books_def)

lemma after_writer_books: "after_writer p (books_of_writer bs w) = life_with_books bs (after_writer p w)"
  by (simp add: after_writer_def books_of_writer_def)

lemma writer_of_books: "writer_of (with_books bs db) batch = books_of_writer bs (writer_of db batch)"
  by (simp add: writer_of_def books_of_writer_def)

lemma life_step_books:
  assumes "life_step L cfg answers l l'"
  shows "\<exists>new. db_orderbooks (li_db l') = db_orderbooks (li_db l) @ new
     \<and> (\<forall>bs. life_step L cfg answers (life_with_books bs l) (life_with_books (bs @ new) l'))"
  using assms
proof (induction rule: life_step.induct)
  case (boot env db sv db')
  have "db_orderbooks db' = db_orderbooks db"
    using boot start_books [of L cfg env "db_orderbooks db" db] by (metis map_prod_simp prod.inject with_books_simps(5,7))
  moreover have "start_ingestor L cfg env (with_books bs db) = (Inr sv, with_books bs db')" for bs
    using boot by (simp add: start_books)
  ultimately show ?case by (auto intro: life_step.boot)
next
  case (boot_failed env db e db')
  have "db_orderbooks db' = db_orderbooks db"
    using boot_failed start_books [of L cfg env "db_orderbooks db" db] by (metis map_prod_simp prod.inject with_books_simps(5,7))
  moreover have "start_ingestor L cfg env (with_books bs db) = (Inl e, with_books bs db')" for bs
    using boot_failed by (simp add: start_books)
  ultimately show ?case by (auto intro: life_step.boot_failed)
next
  case (killed db p)
  show ?case by (auto intro: life_step.killed)
next
  case (connected p sink c db)
  then show ?case by (auto intro: life_step.connected)
next
  case (handled p c ev r c' db)
  from life_step.handled [OF this] show ?case by auto
next
  case (delivered p m ms db)
  then show ?case by (auto intro: life_step.delivered)
next
  case (received p m q db f)
  obtain new where new: "db_orderbooks (wr_db (writer_step f (Received m) (writer_of db (pr_batch p))))
      = db_orderbooks (wr_db (writer_of db (pr_batch p))) @ new"
    "\<And>bs. writer_step f (Received m) (books_of_writer bs (writer_of db (pr_batch p)))
       = books_of_writer (bs @ new) (writer_step f (Received m) (writer_of db (pr_batch p)))"
    using writer_step_books [of "Received m" f "writer_of db (pr_batch p)"] by blast
  have "life_step L cfg answers (life_with_books bs \<lparr>li_db = db, li_proc = Some p\<rparr>) (life_with_books (bs @ new)
      (after_writer (p\<lparr>pr_queue := q\<rparr>) (writer_step f (Received m) (writer_of db (pr_batch p)))))" for bs
    using life_step.received [OF received, of L cfg answers "with_books bs db" f]
    by (simp only: life_with_books_simps writer_of_books new(2) after_writer_books)
  moreover have "db_orderbooks (li_db (after_writer (p\<lparr>pr_queue := q\<rparr>) (writer_step f (Received m) (writer_of db (pr_batch p)))))
      = db_orderbooks db @ new"
    using new(1) unfolding after_writer_def by (simp add: writer_of_def)
  ultimately show ?case by auto
next
  case (ticked db p f)
  obtain new where new: "db_orderbooks (wr_db (writer_step f Tick (writer_of db (pr_batch p))))
      = db_orderbooks (wr_db (writer_of db (pr_batch p))) @ new"
    "\<And>bs. writer_step f Tick (books_of_writer bs (writer_of db (pr_batch p)))
       = books_of_writer (bs @ new) (writer_step f Tick (writer_of db (pr_batch p)))"
    using writer_step_books [of Tick f "writer_of db (pr_batch p)"] by blast
  have "life_step L cfg answers (life_with_books bs \<lparr>li_db = db, li_proc = Some p\<rparr>) (life_with_books (bs @ new)
      (after_writer p (writer_step f Tick (writer_of db (pr_batch p)))))" for bs
    using life_step.ticked [of L cfg answers "with_books bs db" p f]
    by (simp only: life_with_books_simps writer_of_books new(2) after_writer_books)
  moreover have "db_orderbooks (li_db (after_writer p (writer_step f Tick (writer_of db (pr_batch p)))))
      = db_orderbooks db @ new"
    using new(1) unfolding after_writer_def by (simp add: writer_of_def)
  ultimately show ?case by auto
next
  case (swept p db)
  from life_step.swept [OF this] show ?case by auto
next
  case (poll_begun p m ms newest_ok db r)
  then have "poll_start L m (sv_backfill_start (pr_services p)) newest_ok (with_books bs db) = r" for bs
    by (simp add: poll_start_books)
  from life_step.poll_begun [OF poll_begun(1) this] show ?case by auto
next
  case (poll_turned p m start ms rd db r db')
  let ?round = "poll_round L m (sv_backfill_start (pr_services p)) start rd"
  have run: "?round (with_books bs db) = (r, with_books bs db')" for bs
    using poll_turned(3) by (simp add: poll_round_books)
  have "db_orderbooks db' = db_orderbooks db"
    using poll_turned(3) run [of "db_orderbooks db"] by (metis prod.inject with_books_simps(5,7))
  moreover have "life_step L cfg answers \<lparr>li_db = with_books bs db, li_proc = Some p\<rparr>
      \<lparr>li_db = with_books bs db', li_proc = after_poll p m ms r\<rparr>" for bs
    by (rule life_step.poll_turned) (rule poll_turned(1,2) run)+
  ultimately show ?case by auto
qed

section \<open>Lives with drops\<close>

text \<open>All rows that were written, as the table of a life without drops.\<close>

lemma kept_reach_life:
  "kept_reach L cfg answers db written l \<Longrightarrow> life_reach L cfg answers db (life_with_books written l)"
proof (induction rule: kept_reach.induct)
  case initial
  show ?case by (simp add: life_reach.initial)
next
  case (step written l l' new)
  from life_step_books [OF step(2)] step(3) have "life_step L cfg answers (life_with_books written l) (life_with_books (written @ new) l')"
    by auto
  with step.IH show ?case by (rule life_reach.step)
next
  case (retention written l cutoff)
  then show ?case by (simp add: life_with_books_def drop_before_def)
qed

lemma life_reach_kept:
  "life_reach L cfg answers db l \<Longrightarrow> kept_reach L cfg answers db (db_orderbooks (li_db l)) l"
proof (induction rule: life_reach.induct)
  case initial
  show ?case using kept_reach.initial [of L cfg answers db] by simp
next
  case (step l l')
  from kept_reach.step [OF step.IH step(2) refl] life_step_books [OF step(2)] show ?case by auto
qed

text \<open>Rows that were written in the order of their times lose a beginning.\<close>

lemma kept_rows:
  "kept_reach L cfg answers db written l \<Longrightarrow> sorted (map obr_time (filter (\<lambda>b. obr_symbol b = s) written)) \<Longrightarrow>
   \<exists>gone. filter (\<lambda>b. obr_symbol b = s) written = gone @ table_rows s (li_db l)"
proof (induction rule: kept_reach.induct)
  case initial
  show ?case by (simp add: table_rows_def)
next
  case (step written l l' new)
  from step.prems have "sorted (map obr_time (filter (\<lambda>b. obr_symbol b = s) written))" by (simp add: sorted_append)
  with step.IH obtain gone where "filter (\<lambda>b. obr_symbol b = s) written = gone @ table_rows s (li_db l)" by blast
  moreover have "db_orderbooks (li_db l') = db_orderbooks (li_db l) @ new"
    using life_step_books [OF step(2)] step(3) by auto
  ultimately show ?case by (simp add: table_rows_def)
next
  case (retention written l cutoff)
  then obtain gone where g: "filter (\<lambda>b. obr_symbol b = s) written = gone @ table_rows s (li_db l)" by blast
  with retention.prems have "sorted (map obr_time (table_rows s (li_db l)))" by (simp add: sorted_append)
  from sorted_filter_suffix [OF this, of cutoff]
  obtain older where "table_rows s (li_db l) = older @ filter (\<lambda>b. cutoff \<le> obr_time b) (table_rows s (li_db l))" ..
  moreover have "table_rows s (drop_before cutoff (li_db l)) = filter (\<lambda>b. cutoff \<le> obr_time b) (table_rows s (li_db l))"
    by (simp add: table_rows_def drop_before_def conj_commute)
  ultimately show ?case using g by (intro exI [of _ "gone @ older"]) simp
qed

text \<open>What is left and what is in flight, from any snapshot row on, gives the book that is live.\<close>

lemma kept_live_book:
  assumes "kept_reach L cfg answers db written l" and "db_inv db" and "db_orderbooks db = []" and "db_fundings db = []"
    and "li_proc l = Some p" and "pr_conn p = Some c"
    and "sv_symbol_cache (pr_services p) market_id = Some symbol" and "cn_markets c market_id = Some m"
    and "snapshots_in_time (filter (\<lambda>b. obr_symbol b = symbol) written)"
    and "table_rows symbol (li_db l) @ rows_of symbol (in_flight p) = before @ row # after" and "obr_type row = ''snapshot''"
  shows "read_rows L (row # after) = Some (Some (market_state m))"
proof -
  let ?whole = "life_with_books written l" and ?mine = "filter (\<lambda>b. obr_symbol b = symbol) written"
  from life_logs [OF kept_reach_life [OF assms(1)] assms(2-4)]
  obtain backfill where inv: "life_inv False L (\<lambda>t. 0) backfill (\<lambda>m. []) ?whole" ..
  have all: "all_rows symbol (li_db ?whole) p = ?mine @ rows_of symbol (in_flight p)"
    by (simp add: all_rows_def table_rows_def)
  have read: "read_rows L (?mine @ rows_of symbol (in_flight p)) = Some (Some (market_state m))"
    using life_inv_book [OF inv _ assms(6-8)] assms(5) all by simp
  have "symbol \<in> symbol_ids (li_db ?whole)" by (rule life_inv_symbol [OF inv _ assms(7)]) (simp add: assms(5))
  then have "chained ?mine" using inv by (auto simp: life_inv_def db_ok_def table_rows_def log_ok_def)
  from chained_in_time [OF this assms(9)] kept_rows [OF assms(1)]
  obtain gone where "?mine = gone @ table_rows symbol (li_db l)" by blast
  with read assms(10) have "read_rows L ((gone @ before) @ row # after) = Some (Some (market_state m))" by simp
  from read_rows_restart [OF this assms(11)] show ?thesis .
qed

end
