(* ===== verification/Json_Text.thy ===== *)
theory Json_Text
  imports Json Rust_Std
begin

text \<open>
  A reader of JSON texts, for the concrete instance of the third-party functions on which the unit tests
  and the witnesses are evaluated; nothing in the model of the ingestor depends on it. A text becomes a list of
  tokens, and the tokens a value, by a parser with an explicit stack, so both passes are recursive on
  their input. It reads the strings the exchange sends; an escape other than a single character is not
  read.
\<close>

section \<open>Tokens\<close>

datatype token =
    Punct char
  | StrTok string
  | AtomTok string    \<comment> \<open>a number, \<^verbatim>\<open>true\<close>, \<^verbatim>\<open>false\<close> or \<^verbatim>\<open>null\<close>\<close>

definition is_punct :: "char \<Rightarrow> bool" where
  "is_punct c \<longleftrightarrow> c \<in> set ''{}[],:''"

definition is_blank :: "char \<Rightarrow> bool" where
  "is_blank c \<longleftrightarrow> c = CHR '' '' \<or> c = CHR 0x0A \<or> c = CHR 0x0D \<or> c = CHR 0x09"

definition quote :: char where "quote = CHR 0x22"

definition unescape :: "char \<Rightarrow> char option" where
  "unescape c =
     (if c = quote \<or> c = CHR 0x5C \<or> c = CHR ''/'' then Some c
      else if c = CHR ''n'' then Some (CHR 0x0A)
      else if c = CHR ''r'' then Some (CHR 0x0D)
      else if c = CHR ''t'' then Some (CHR 0x09)
      else None)"

text \<open>The mode of the lexer: between tokens, in a string, after a backslash, in an atom.\<close>

datatype lex_mode = Between | InString string | Escaped string | InAtom string

fun lex :: "lex_mode \<Rightarrow> string \<Rightarrow> token list option" where
  "lex Between [] = Some []"
| "lex (InAtom a) [] = Some [AtomTok (rev a)]"
| "lex (InString a) [] = None"
| "lex (Escaped a) [] = None"
| "lex Between (c # cs) =
     (if is_blank c then lex Between cs
      else if c = quote then lex (InString []) cs
      else if is_punct c then map_option ((#) (Punct c)) (lex Between cs)
      else lex (InAtom [c]) cs)"
| "lex (InAtom a) (c # cs) =
     (if is_blank c then map_option ((#) (AtomTok (rev a))) (lex Between cs)
      else if is_punct c then map_option (\<lambda>ts. AtomTok (rev a) # Punct c # ts) (lex Between cs)
      else if c = quote then None
      else lex (InAtom (c # a)) cs)"
| "lex (InString a) (c # cs) =
     (if c = quote then map_option ((#) (StrTok (rev a))) (lex Between cs)
      else if c = CHR 0x5C then lex (Escaped a) cs
      else lex (InString (c # a)) cs)"
| "lex (Escaped a) (c # cs) =
     (case unescape c of None \<Rightarrow> None | Some d \<Rightarrow> lex (InString (d # a)) cs)"

section \<open>Values\<close>

text \<open>A number is an integer when its literal is one that fits \<^verbatim>\<open>i64\<close> or \<^verbatim>\<open>u64\<close>.\<close>

definition json_number :: "string \<Rightarrow> json option" where
  "json_number s =
     (case s of
        [] \<Rightarrow> None
      | c # cs \<Rightarrow>
          if c \<noteq> CHR ''-'' \<and> digit_val c = None then None
          else (case parse_int s of
            Some n \<Rightarrow> if - 9223372036854775808 \<le> n \<and> n \<le> 18446744073709551615 then Some (JInt n) else Some (JFloat s)
          | None \<Rightarrow> if list_all (\<lambda>c. digit_val c \<noteq> None \<or> c \<in> set ''+-.eE'') s then Some (JFloat s) else None))"

definition atom_value :: "string \<Rightarrow> json option" where
  "atom_value s =
     (if s = ''null'' then Some JNull
      else if s = ''true'' then Some (JBool True)
      else if s = ''false'' then Some (JBool False)
      else json_number s)"

text \<open>The open arrays and objects, innermost first, their elements in reverse.\<close>

datatype frame =
    FArr "json list"
  | FObj "(string \<times> json) list" string    \<comment> \<open>members so far, the name of the next\<close>

datatype parse_mode =
    WantValue
  | WantElement                       \<comment> \<open>after an opening bracket\<close>
  | WantName "(string \<times> json) list"   \<comment> \<open>after an opening brace or a comma in an object\<close>
  | WantColon "(string \<times> json) list" string
  | HaveValue json

fun start_value :: "token \<Rightarrow> frame list \<Rightarrow> (parse_mode \<times> frame list) option" where
  "start_value (StrTok s) st = Some (HaveValue (JStr s), st)"
| "start_value (AtomTok s) st = map_option (\<lambda>v. (HaveValue v, st)) (atom_value s)"
| "start_value (Punct c) st =
     (if c = CHR ''['' then Some (WantElement, FArr [] # st)
      else if c = CHR ''{'' then Some (WantName [], st)
      else None)"

text \<open>A token in a mode; \<open>None\<close> where the grammar does not allow it.\<close>

fun parse_token :: "parse_mode \<Rightarrow> frame list \<Rightarrow> token \<Rightarrow> (parse_mode \<times> frame list) option" where
  "parse_token WantValue st t = start_value t st"
| "parse_token WantElement st t =
     (if t = Punct (CHR '']'') then (case st of FArr [] # st' \<Rightarrow> Some (HaveValue (JArr []), st') | _ \<Rightarrow> None)
      else start_value t st)"
| "parse_token (WantName kvs) st (StrTok k) = Some (WantColon kvs k, st)"
| "parse_token (WantName kvs) st t =
     (if t = Punct (CHR ''}'') \<and> kvs = [] then Some (HaveValue (JObj []), st) else None)"
| "parse_token (WantColon kvs k) st t =
     (if t = Punct (CHR '':'') then Some (WantValue, FObj kvs k # st) else None)"
| "parse_token (HaveValue v) (FArr vs # st) t =
     (if t = Punct (CHR '','') then Some (WantValue, FArr (v # vs) # st)
      else if t = Punct (CHR '']'') then Some (HaveValue (JArr (rev (v # vs))), st)
      else None)"
| "parse_token (HaveValue v) (FObj kvs k # st) t =
     (if t = Punct (CHR '','') then Some (WantName ((k, v) # kvs), st)
      else if t = Punct (CHR ''}'') then Some (HaveValue (JObj (rev ((k, v) # kvs))), st)
      else None)"
| "parse_token (HaveValue v) [] t = None"

fun parse_tokens :: "parse_mode \<Rightarrow> frame list \<Rightarrow> token list \<Rightarrow> json option" where
  "parse_tokens mode st [] = (case (mode, st) of (HaveValue v, []) \<Rightarrow> Some v | _ \<Rightarrow> None)"
| "parse_tokens mode st (t # ts) =
     (case parse_token mode st t of None \<Rightarrow> None | Some (mode', st') \<Rightarrow> parse_tokens mode' st' ts)"

definition parse_json :: "string \<Rightarrow> json option" where
  "parse_json text = Option.bind (lex Between text) (parse_tokens WantValue [])"

end
