(* ===== verification/Sample.thy ===== *)
theory Sample
  imports Ingestor Json_Text
begin

text \<open>
  A concrete instance of the third-party functions, on which the properties are tried out: decimals
  with up to four fractional digits as integers scaled by ten thousand, instants as nanoseconds, and
  a JSON reader that knows some texts by a name. With it come a small connection (market 7, symbol 1: a
  snapshot, a delta that removes a level and adds one, a trade frame), a server of settlements and a
  database with two symbols.
\<close>

section \<open>Library functions\<close>

definition dec4 :: "string \<Rightarrow> int option" where
  "dec4 s = (case str_split (CHR ''.'') s of
     [a] \<Rightarrow> map_option (\<lambda>n. n * 10000) (parse_int a)
   | [a, b] \<Rightarrow>
       (case (parse_int a, parse_digits 0 b) of
          (Some n, Some f) \<Rightarrow>
            if b \<noteq> [] \<and> length b \<le> 4 \<and> 0 \<le> n then Some (n * 10000 + f * 10 ^ (4 - length b)) else None
        | _ \<Rightarrow> None)
   | _ \<Rightarrow> None)"

text \<open>Some texts have a name, every other text is read.\<close>

definition read_json :: "(string \<times> json) list \<Rightarrow> string \<Rightarrow> json option" where
  "read_json texts s = (case map_of texts s of Some j \<Rightarrow> Some j | None \<Rightarrow> parse_json s)"

lemma read_json_known [simp]: "map_of texts s = Some j \<Longrightarrow> read_json texts s = Some j"
  by (simp add: read_json_def)

definition sample_libs :: "(string \<times> json) list \<Rightarrow> (int, int, int) libs" where
  "sample_libs texts = \<lparr>
     dec_from_str = dec4, dec_is_zero = (\<lambda>d. d = 0),
     from_micros = (\<lambda>n. if in_i64 (n * 1000) then Some (n * 1000) else None),
     from_millis = (\<lambda>n. if in_i64 (n * 1000000) then Some (n * 1000000) else None),
     from_secs = (\<lambda>n. Some (n * 1000000000)),
     to_secs = (\<lambda>t. t div 1000000000), to_micros = (\<lambda>t. t div 1000),
     plus_secs = (\<lambda>t n. Some (t + n * 1000000000)),
     parse_f64 = dec4,
     json_from_str = read_json texts,
     json_to_text = (\<lambda>j. map_option fst (find (\<lambda>(t, v). v = j) texts)),
     json_document = read_json texts\<rparr>"

text \<open>A value is written as the name of its text.\<close>

lemma sample_text_round_trip:
  assumes "distinct (map fst texts)" and "json_to_text (sample_libs texts) v = Some text"
  shows "json_from_str (sample_libs texts) text = Some v"
proof -
  have "(text, v) \<in> set texts"
    using assms(2) by (auto simp: sample_libs_def find_Some_iff in_set_conv_nth)
  with assms(1) have "map_of texts text = Some v" by simp
  then show ?thesis by (simp add: sample_libs_def)
qed

lemma sample_chrono: "chrono_ok (sample_libs texts) (\<lambda>t. t)"
  by (auto simp: chrono_ok_def sample_libs_def split: if_splits)

section \<open>A connection\<close>

definition level_json :: "string \<Rightarrow> string \<Rightarrow> json" where
  "level_json p s = JObj [(''price'', JStr p), (''size'', JStr s)]"

definition book_json :: "int \<Rightarrow> int \<Rightarrow> json list \<Rightarrow> json list \<Rightarrow> json" where
  "book_json begin_nonce nonce bs as = JObj [(''offset'', JInt 1), (''nonce'', JInt nonce),
     (''begin_nonce'', JInt begin_nonce), (''asks'', JArr as), (''bids'', JArr bs), (''code'', JInt 0)]"

definition ob_json :: "string \<Rightarrow> int \<Rightarrow> json \<Rightarrow> json" where
  "ob_json ty at book = JObj [(''channel'', JStr ''order_book:7''), (''last_updated_at'', JInt at),
     (''order_book'', book), (''type'', JStr ty)]"

definition snapshot_json :: json where
  "snapshot_json = ob_json ''subscribed/order_book'' 1000 (book_json 0 10
     [level_json ''99.5'' ''2'', level_json ''99.25'' ''1.5''] [level_json ''100.0'' ''1''])"

definition delta_json :: json where
  "delta_json = ob_json ''update/order_book'' 2000 (book_json 10 12
     [level_json ''99.50'' ''0.000'', level_json ''99.75'' ''4''] [])"

definition late_delta_json :: json where
  "late_delta_json = ob_json ''update/order_book'' 3000 (book_json 11 13 [] [])"

definition trade_json :: "int \<Rightarrow> string \<Rightarrow> string \<Rightarrow> json" where
  "trade_json n ty price = JObj [(''trade_id'', JInt n), (''tx_hash'', JStr ''00''), (''type'', JStr ty),
     (''market_id'', JInt 7), (''size'', JStr ''2.5''), (''price'', JStr price), (''usd_amount'', JStr ''1''),
     (''ask_id'', JInt 1), (''bid_id'', JInt 2), (''ask_client_id'', JInt 3), (''bid_client_id'', JInt 4),
     (''ask_account_id'', JInt 5), (''bid_account_id'', JInt 6), (''is_maker_ask'', JBool True),
     (''block_height'', JInt 8), (''timestamp'', JInt 5)]"

definition trades_json :: "json list \<Rightarrow> json list \<Rightarrow> json" where
  "trades_json ts ls = JObj [(''channel'', JStr ''trade:7''), (''liquidation_trades'', JArr ls),
     (''nonce'', JInt 3), (''trades'', JArr ts), (''type'', JStr ''update/trade'')]"

definition market_json :: "int \<Rightarrow> string \<Rightarrow> json" where
  "market_json n name = JObj [(''symbol'', JStr name), (''market_id'', JInt n), (''market_type'', JStr ''perp''),
     (''base_asset_id'', JInt 0), (''quote_asset_id'', JInt 0), (''status'', JStr ''active''),
     (''taker_fee'', JStr ''0''), (''maker_fee'', JStr ''0''), (''liquidation_fee'', JStr ''0''),
     (''min_base_amount'', JStr ''0''), (''min_quote_amount'', JStr ''0''), (''order_quote_limit'', JStr ''0''),
     (''supported_size_decimals'', JInt 0), (''supported_price_decimals'', JInt 0),
     (''supported_quote_decimals'', JInt 0)]"

definition markets_json :: "json list \<Rightarrow> json" where
  "markets_json ms = JObj [(''code'', JInt 200), (''order_books'', JArr ms)]"

definition sample :: "(int, int, int) libs" where
  "sample = sample_libs [(''snapshot'', snapshot_json), (''delta'', delta_json), (''late'', late_delta_json),
     (''trades'', trades_json [trade_json 1 ''trade'' ''99.5''] [trade_json 2 ''liquidation'' ''99'']),
     (''bad trade'', trades_json [trade_json 3 ''trade'' ''99.5'', trade_json 4 ''trade'' ''x''] []),
     (''no levels'', JArr []), (''a null'', JArr [JNull])]"

definition text_event :: "string \<Rightarrow> event" where
  "text_event s = Frame (Item (MsgText s))"

definition sample_cache :: "int \<rightharpoonup> int" where
  "sample_cache = [7 \<mapsto> 1, 8 \<mapsto> 2]"

definition sample_events :: "event list" where
  "sample_events = [text_event ''snapshot'', text_event ''trades'', text_event ''delta'', SnapshotTick [7]]"

definition sample_run :: "(ws_error + unit) \<times> (int, int, int) conn" where
  "sample_run = run_ws_ingestion sample [7, 8] sample_cache True sample_events (fresh_conn True None)"

definition sample_conn :: "(int, int, int) conn" where
  "sample_conn = snd sample_run"

lemma sample_cache_inj: "inj_on sample_cache (dom sample_cache)"
  by (simp add: sample_cache_def inj_on_def)

lemma sample_run_ok: "sample_run = (Inr (), sample_conn)"
proof -
  have "fst sample_run = Inr ()" by code_simp
  then show ?thesis by (simp add: sample_conn_def prod_eq_iff)
qed

lemma sample_reach: "reach sample [7, 8] sample_cache sample_conn"
  using sample_run_ok by (auto simp: sample_run_def intro: run_ws_reach)

lemma sample_open: "cn_tx_open sample_conn" by code_simp

lemma sample_markets: "dom (cn_markets sample_conn) = {7}"
proof -
  have "dom (cn_markets sample_conn) \<subseteq> {7, 8}"
    using reach_inv [OF sample_reach sample_cache_inj] by (auto simp: feed_inv_def sample_cache_def split: if_splits)
  moreover have "Option.is_none (cn_markets sample_conn 8)" by code_simp
  moreover have "\<not> Option.is_none (cn_markets sample_conn 7)" by code_simp
  ultimately show ?thesis by (auto simp: Option.is_none_def)
qed

end
