(* ===== verification/Store_Props.thy ===== *)
theory Store_Props
  imports Sample
begin

text \<open>
  The properties of what is stored: the pipeline from the connections to the tables, rows that are
  written again, the symbols and their sync.
\<close>

section \<open>The pipeline\<close>

text \<open>C12. The writer task finishes: once every sender is gone, under any schedule of its two branches that
  lets it receive once for each message in the channel and once more, the task returns, and the tables
  then hold exactly what was sent, in the order in which it was sent. The tables have to accept the
  messages, and no fault of the database strikes.\<close>

theorem abandoned_channel_drains:
  assumes "pipe_reach db p" and "wr_status (pp_writer p) = Running" and "\<not> pp_open p"
    and "list_all (acceptable db) (pp_sent p)" and "length (pp_queue p) < length (filter id turns)"
  shows "pipe_step\<^sup>*\<^sup>* p (drain turns p)
     \<and> pp_writer (drain turns p) = \<lparr>wr_batch = [], wr_db = stored db (pp_sent p), wr_status = Returned\<rparr>"
proof -
  obtain past where past: "pp_sent p = past @ wr_batch (pp_writer p) @ pp_queue p"
    "wr_db (pp_writer p) = stored db past"
    using pipe_reach_inv [OF assms(1)] assms(2) by (auto simp: pipe_inv_def)
  then have "draining (stored db (pp_sent p)) p"
    using assms(2,4) by (simp add: draining_def left_over_def stored_append list_all_iff)
  with drain_returns [OF this assms(5)] drain_steps [OF assms(3)] show ?thesis by simp
qed

definition sample_symbols :: "symbol_row list" where
  "sample_symbols = [\<lparr>sym_id = 1, sym_name = ''BTC'', sym_market_id = 7, sym_market_type = ''perp''\<rparr>,
     \<lparr>sym_id = 2, sym_name = ''ETH'', sym_market_id = 8, sym_market_type = ''perp''\<rparr>]"

definition sample_db :: "(int, int, int) db" where
  "sample_db = \<lparr>db_symbols = sample_symbols, db_next_symbol = 3, db_trades = [], db_orderbooks = [], db_fundings = []\<rparr>"

lemma sample_db_inv: "db_inv sample_db"
  by (simp add: sample_db_def sample_symbols_def db_inv_def symbols_inv_def)

lemma sample_db_cache: "load_symbol_cache sample_db = sample_cache"
  by (auto simp: load_symbol_cache_def sample_db_def sample_symbols_def sample_cache_def fun_upd_twist)

definition sample_trade_row :: "int \<Rightarrow> (int, int) trade_row" where
  "sample_trade_row n = \<lparr>tw_time = 5, tw_symbol = 1, tw_trade_id = n, tw_price = 1, tw_size = 1,
     tw_is_maker_ask = True, tw_type = ''trade''\<rparr>"

definition sample_book_row :: "int ob_row" where
  "sample_book_row = book_snapshot_row 1 (the (cn_markets sample_conn 7))"

definition sample_msgs :: "(int, int) write_msg list" where
  "sample_msgs = [WTrade (sample_trade_row 1), WTrade (sample_trade_row 1)]"

definition sent_pipe :: "(int, int, int) pipe" where
  "sent_pipe = \<lparr>pp_queue = [], pp_writer = \<lparr>wr_batch = sample_msgs, wr_db = sample_db, wr_status = Running\<rparr>,
     pp_open = False, pp_sent = sample_msgs\<rparr>"

lemma sent_pipe_reach: "pipe_reach sample_db sent_pipe"
proof -
  have "pipe_reach sample_db (batched sample_db sample_msgs)"
    by (rule pipe_reach_batched) (simp add: sample_msgs_def BATCH_CAPACITY_def)
  moreover have "pipe_step (batched sample_db sample_msgs) sent_pipe"
    using pipe_step.drop [of "batched sample_db sample_msgs"] by (simp add: batched_def sent_pipe_def)
  ultimately show ?thesis by (rule pipe_reach.step)
qed

theorem abandoned_channel_drains_witness:
  "pp_writer (drain [False, True] sent_pipe)
     = \<lparr>wr_batch = [], wr_db = stored sample_db sample_msgs, wr_status = Returned\<rparr>
   \<and> length (db_trades (stored sample_db sample_msgs)) = 1"
proof
  have "list_all (acceptable sample_db) (pp_sent sent_pipe)" by code_simp
  with abandoned_channel_drains [OF sent_pipe_reach, of "[False, True]"]
  show "pp_writer (drain [False, True] sent_pipe)
     = \<lparr>wr_batch = [], wr_db = stored sample_db sample_msgs, wr_status = Returned\<rparr>"
    by (simp add: sent_pipe_def del: drain.simps)
  show "length (db_trades (stored sample_db sample_msgs)) = 1" by code_simp
qed

text \<open>C11. While the process lives no message is lost, invented or reordered: what was sent is what is
  stored, then the batch, then the channel; the batch stays under 128 messages and the channel takes at
  most 1024.\<close>

theorem pipeline_is_fifo:
  assumes "pipe_reach db p" and "wr_status (pp_writer p) \<noteq> ProcessExit"
  shows "(\<exists>past. pp_sent p = past @ wr_batch (pp_writer p) @ pp_queue p \<and> wr_db (pp_writer p) = stored db past)
     \<and> length (wr_batch (pp_writer p)) < 128 \<and> length (pp_queue p) \<le> 1024"
  using pipe_reach_inv [OF assms(1)] assms(2)
  by (simp add: pipe_inv_def BATCH_CAPACITY_def WRITE_CHANNEL_CAPACITY_def)

theorem pipeline_is_fifo_witness:
  "(\<exists>past. pp_sent sent_pipe = past @ wr_batch (pp_writer sent_pipe) @ pp_queue sent_pipe
      \<and> wr_db (pp_writer sent_pipe) = stored sample_db past)
   \<and> length (wr_batch (pp_writer sent_pipe)) < 128 \<and> length (pp_queue sent_pipe) \<le> 1024"
  by (rule pipeline_is_fifo [OF sent_pipe_reach]) (simp add: sent_pipe_def)

text \<open>C10. At any moment, also after a write failure has ended the process, the order-book table has
  gained the order-book rows of a prefix of what was sent, and the trade table the trades of a prefix
  that is at least as long: a failed batch leaves no gap among the rows that are there.\<close>

theorem tables_hold_prefixes:
  assumes "pipe_reach db p"
  shows "\<exists>past more rest. pp_sent p = past @ more @ rest
     \<and> db_orderbooks (wr_db (pp_writer p)) = db_orderbooks db @ orderbooks_of past
     \<and> db_trades (wr_db (pp_writer p)) = insert_skip trade_key (trades_of (past @ more)) (db_trades db)
     \<and> db_symbols (wr_db (pp_writer p)) = db_symbols db \<and> db_fundings (wr_db (pp_writer p)) = db_fundings db"
  using pipe_reach_tables [OF assms] by (simp add: tables_prefix_def)

definition failed_pipe :: "(int, int, int) pipe" where
  "failed_pipe = sent_pipe\<lparr>pp_writer := writer_step PoolFault Tick (pp_writer sent_pipe)\<rparr>"

lemma failed_pipe_reach: "pipe_reach sample_db failed_pipe"
  using pipe_step.tick [of sent_pipe PoolFault]
  by (intro pipe_reach.step [OF sent_pipe_reach]) (simp add: failed_pipe_def sent_pipe_def del: writer_step.simps)

theorem tables_hold_prefixes_witness:
  "wr_status (pp_writer failed_pipe) = ProcessExit
   \<and> (\<exists>past more rest. pp_sent failed_pipe = past @ more @ rest
     \<and> db_orderbooks (wr_db (pp_writer failed_pipe)) = db_orderbooks sample_db @ orderbooks_of past
     \<and> db_trades (wr_db (pp_writer failed_pipe)) = insert_skip trade_key (trades_of (past @ more)) (db_trades sample_db)
     \<and> db_symbols (wr_db (pp_writer failed_pipe)) = db_symbols sample_db
     \<and> db_fundings (wr_db (pp_writer failed_pipe)) = db_fundings sample_db)"
  by (intro conjI tables_hold_prefixes [OF failed_pipe_reach]) code_simp

text \<open>A flush empties the batch. It stores the whole batch, or it ends the process, and then either
  nothing of the batch is stored or exactly its trades are, because trades are written first and the two
  inserts are separate statements.\<close>

lemma flush_outcomes:
  "wr_batch (flush f w) = []
   \<and> (flush f w = w\<lparr>wr_batch := [], wr_db := stored (wr_db w) (wr_batch w)\<rparr>
      \<or> wr_status (flush f w) = ProcessExit
        \<and> (wr_db (flush f w) = wr_db w
           \<or> wr_db (flush f w) = (wr_db w)\<lparr>db_trades := insert_skip trade_key (trades_of (wr_batch w)) (db_trades (wr_db w))\<rparr>))"
proof (cases rule: flush_cases [of w f])
  case (failed db)
  with flush_rows_tables [OF failed(2)] show ?thesis by auto
qed auto

section \<open>Rows written again\<close>

text \<open>Trades that the exchange replays after a reconnect are skipped: when each row's time, symbol and
  trade id are stored already, the insert reports no new row and changes nothing.\<close>

lemma replayed_trades_are_skipped:
  assumes "insert_trades rows db = Inr (n, db')" and "trade_key ` set rows \<subseteq> trade_key ` set (db_trades db)"
  shows "n = 0 \<and> db' = db"
  using trades_tbl.replayed [OF assms] insert_trades_rest [OF assms(1)] by simp

definition traded_db :: "(int, int, int) db" where
  "traded_db = sample_db\<lparr>db_trades := [sample_trade_row 1]\<rparr>"

lemma replayed_trades_are_skipped_witness:
  "insert_trades [(sample_trade_row 1)\<lparr>tw_price := 2\<rparr>] traded_db = Inr (0, traded_db)"
proof -
  let ?rows = "[(sample_trade_row 1)\<lparr>tw_price := 2\<rparr>]"
  have keys: "trade_key ` set ?rows \<subseteq> trade_key ` set (db_trades traded_db)"
    by (simp add: traded_db_def sample_trade_row_def trade_key_def)
  obtain n db' where i: "insert_trades ?rows traded_db = Inr (n, db')"
    by (simp add: insert_trades_def traded_db_def sample_trade_row_def trade_types_def symbol_ids_def
        sample_db_def sample_symbols_def Let_def)
  from replayed_trades_are_skipped [OF i keys] i show ?thesis by simp
qed

text \<open>An insert of funding rows that succeeds can be repeated at any time: the second time it
  reports no new row and changes nothing, and no symbol ever has two rows of one time.\<close>

lemma funding_insert_idempotent:
  assumes "insert_funding_rates rows db = Inr (n, db1)" and "db_inv db"
  shows "insert_funding_rates rows db1 = Inr (0, db1) \<and> distinct (map funding_key (db_fundings db1))"
proof -
  have ids: "symbol_ids db1 = symbol_ids db"
    using insert_fundings_rest [OF assms(1)] by (metis db.select_convs(1) db.simps(3) db.surjective symbol_ids_def db.update_convs(5))
  then obtain m db2 where again: "insert_funding_rates rows db1 = Inr (m, db2)"
    using assms(1) by (auto simp: insert_funding_rates_def Let_def split: if_splits)
  from fundings_tbl.insert_twice [OF assms(1) again] insert_fundings_rest [OF again]
  have "m = 0" "db2 = db1" by simp_all
  with again insert_fundings_inv [OF assms(2,1)] show ?thesis by (simp add: db_inv_def)
qed

definition sample_funding_rows :: "(int, int) funding_row list" where
  "sample_funding_rows = [\<lparr>fw_time = 0, fw_symbol = 1, fw_rate = 12, fw_direction = ''long''\<rparr>,
     \<lparr>fw_time = 3600, fw_symbol = 1, fw_rate = 13, fw_direction = ''long''\<rparr>]"

lemma funding_insert_idempotent_witness:
  "\<exists>n db1. insert_funding_rates sample_funding_rows sample_db = Inr (n, db1)
     \<and> insert_funding_rates sample_funding_rows db1 = Inr (0, db1) \<and> distinct (map funding_key (db_fundings db1))"
proof -
  obtain n db1 where i: "insert_funding_rates sample_funding_rows sample_db = Inr (n, db1)"
    by (simp add: insert_funding_rates_def sample_funding_rows_def symbol_ids_def sample_db_def sample_symbols_def Let_def)
  from funding_insert_idempotent [OF i sample_db_inv] i show ?thesis by blast
qed

end
