(* ===== verification/Funding_Reference.thy ===== *)
theory Funding_Reference
  imports Funding_Poll
begin

text \<open>
  The paging loop against its reference: one request that is not capped. A poll adds exactly the
  settlements of its window, whatever the page size, the number of turns and the moments of the
  requests.
\<close>

section \<open>A poll adds settlements of its window only\<close>

definition window_settlement ::
  "('t \<Rightarrow> int) \<Rightarrow> int list \<Rightarrow> 't \<Rightarrow> 't round list \<Rightarrow> 't \<Rightarrow> bool" where
  "window_settlement nanos S start rds t \<longleftrightarrow>
     (\<exists>s \<in> set S. nanos t = s * 1000000000) \<and> nanos start \<le> nanos t
   \<and> (\<exists>rd \<in> set rds. nanos t \<le> nanos (rd_end rd))"

lemma window_settlement_later:
  "window_settlement nanos S start' rds t \<Longrightarrow> nanos start \<le> nanos start' \<Longrightarrow>
   window_settlement nanos S start (rd # rds) t"
  by (auto simp: window_settlement_def)

lemma page_in_window:
  assumes L: "chrono_ok L nanos" and sv: "serves L nanos market_id S (rd_server rd)"
    and f: "fetch_page L (rd_server rd) market_id start (rd_end rd) = Inr rows" and g: "on_hour nanos start"
    and v: "validate_page start now rows = Inr ()" and r: "r \<in> set rows"
  shows "window_settlement nanos S start (rd # rds) (sf_time r)"
proof -
  note P = fetch_page_serves(1) [OF L sv f g order_refl]
  have "nanos (sf_time r) \<in> set (map (\<lambda>r. nanos (sf_time r)) rows)" using r by simp
  then obtain s where s: "s \<in> set S" "s \<le> to_secs L (rd_end rd)" "nanos (sf_time r) = s * 1000000000"
    unfolding P by (force dest: in_set_takeD)
  have "s * 1000000000 \<le> nanos (rd_end rd)"
    using s(2) by (simp add: chrono_to_secs [OF L])
  moreover have "nanos start \<le> nanos (sf_time r)"
    using v r by (simp add: validate_page_ok chrono_le [OF L, symmetric])
  ultimately show ?thesis using s by (auto simp: window_settlement_def)
qed

lemma poll_pages_sound:
  assumes L: "chrono_ok L nanos"
  shows "on_hour nanos start \<Longrightarrow> \<forall>rd \<in> set rds. serves L nanos (pm_market_id market) S (rd_server rd) \<Longrightarrow>
    poll_pages L market backfill start rds db = (r, db') \<Longrightarrow> r = Polled \<Longrightarrow>
    t \<in> set (funding_times (pm_symbol_id market) db') \<Longrightarrow>
    t \<in> set (funding_times (pm_symbol_id market) db) \<or> window_settlement nanos S start rds t"
proof (induction rds arbitrary: start db)
  case (Cons rd rds)
  let ?k = "pm_symbol_id market"
  from Cons.prems(3) show ?case
  proof (cases rule: poll_pages_cases)
    case (page rows)
    have sv: "serves L nanos (pm_market_id market) S (rd_server rd)" using Cons.prems(2) by simp
    note win = page_in_window [OF L sv page(2) Cons.prems(1) page(3)]
    from page(4) consider "db' = db"
      | n where "insert_funding_rates (funding_rows ?k rows) db = Inr (n, db')"
      | n db1 start' where "insert_funding_rates (funding_rows ?k rows) db = Inr (n, db1)" "rows \<noteq> []"
          "next_request_start L (Some (sf_time (last rows))) backfill = Inr start'"
          "poll_pages L market backfill start' rds db1 = (r, db')"
      by blast
    then show ?thesis
    proof cases
      case 1
      with Cons.prems show ?thesis by simp
    next
      case 2
      with Cons.prems(5) insert_fundings_times(1) [OF 2] win show ?thesis by auto
    next
      case 3
      note m = next_page_start [OF L Cons.prems(1) page(3) 3(2,3)]
      have "nanos start \<le> nanos start'" using m(2) by (simp add: hour_def)
      with Cons.IH [OF m(1) _ 3(4) Cons.prems(4,5)] Cons.prems(2) insert_fundings_times(1) [OF 3(1)] win
      show ?thesis by (auto intro: window_settlement_later)
    qed
  qed (use Cons.prems in auto)
qed simp

section \<open>The reference\<close>

text \<open>
  \<open>all\<close> are the rows of the whole window from \<open>start\<close> to \<open>now\<close>, as one response without a cap would
  give them; storing them in one insert is the reference.
\<close>

definition whole_window ::
  "('d, 't, 'f) libs \<Rightarrow> ('t \<Rightarrow> int) \<Rightarrow> int list \<Rightarrow> 't \<Rightarrow> 't \<Rightarrow> ('t, 'd) settled_funding list \<Rightarrow> bool" where
  "whole_window L nanos S start now all \<longleftrightarrow>
     map (\<lambda>r. nanos (sf_time r)) all =
     map (\<lambda>s. s * 1000000000) (filter (\<lambda>s. nanos start \<le> s * 1000000000 \<and> s * 1000000000 \<le> nanos now) S)"

lemma whole_window_times:
  assumes "whole_window L nanos S start now all"
  shows "nanos ` sf_time ` set all = {s * 1000000000 |s. s \<in> set S \<and> nanos start \<le> s * 1000000000 \<and> s * 1000000000 \<le> nanos now}"
proof -
  have "nanos ` sf_time ` set all = set (map (\<lambda>r. nanos (sf_time r)) all)" by (simp add: image_image)
  also have "\<dots> = {s * 1000000000 |s. s \<in> set S \<and> nanos start \<le> s * 1000000000 \<and> s * 1000000000 \<le> nanos now}"
    unfolding assms [unfolded whole_window_def] by auto
  finally show ?thesis .
qed

lemma chrono_inj: "chrono_ok L nanos \<Longrightarrow> nanos ` A = nanos ` B \<Longrightarrow> A = B"
  using inj_image_eq_iff [of nanos A B] by (simp add: inj_def chrono_eq)

lemma poll_pages_times:
  assumes L: "chrono_ok L nanos" and S: "sorted_wrt (<) S" "\<forall>s \<in> set S. s mod 3600 = 0"
    and g: "on_hour nanos start"
    and rds: "\<forall>rd \<in> set rds. serves L nanos (pm_market_id market) S (rd_server rd)
        \<and> now \<le> rd_check rd \<and> now \<le> rd_end rd
        \<and> (\<forall>s \<in> set S. s * 1000000000 \<le> nanos (rd_end rd) \<longrightarrow> s * 1000000000 \<le> nanos now)"
    and inv: "db_inv db" and run: "poll_pages L market backfill start rds db = (Polled, db')"
    and all: "whole_window L nanos S start now all"
  shows "set (funding_times (pm_symbol_id market) db')
      = set (funding_times (pm_symbol_id market) db) \<union> sf_time ` set all"
proof (rule chrono_inj [OF L], unfold image_Un whole_window_times [OF all], rule antisym)
  let ?k = "pm_symbol_id market"
  let ?W = "{s * 1000000000 |s. s \<in> set S \<and> nanos start \<le> s * 1000000000 \<and> s * 1000000000 \<le> nanos now}"
  have sv: "\<forall>rd \<in> set rds. serves L nanos (pm_market_id market) S (rd_server rd)" using rds by blast
  have rds': "\<forall>rd \<in> set rds. serves L nanos (pm_market_id market) S (rd_server rd)
      \<and> nanos now \<le> nanos (rd_check rd) \<and> nanos now \<le> nanos (rd_end rd)"
    using rds by (simp add: chrono_le [OF L])
  have keep: "set (db_fundings db) \<subseteq> set (db_fundings db')" using poll_pages_inv [OF run inv] by simp
  show "nanos ` set (funding_times ?k db') \<subseteq> nanos ` set (funding_times ?k db) \<union> ?W"
  proof
    fix x assume "x \<in> nanos ` set (funding_times ?k db')"
    then obtain t where t: "x = nanos t" "t \<in> set (funding_times ?k db')" by blast
    from poll_pages_sound [OF L g sv run refl t(2)] show "x \<in> nanos ` set (funding_times ?k db) \<union> ?W"
    proof
      assume "window_settlement nanos S start rds t"
      then obtain s rd where "s \<in> set S" "nanos t = s * 1000000000" "nanos start \<le> nanos t"
        "rd \<in> set rds" "nanos t \<le> nanos (rd_end rd)" by (auto simp: window_settlement_def)
      with rds t(1) show ?thesis by auto
    qed (use t in simp)
  qed
  show "nanos ` set (funding_times ?k db) \<union> ?W \<subseteq> nanos ` set (funding_times ?k db')"
  proof
    fix x assume "x \<in> nanos ` set (funding_times ?k db) \<union> ?W"
    then show "x \<in> nanos ` set (funding_times ?k db')"
    proof
      assume "x \<in> nanos ` set (funding_times ?k db)"
      with keep show ?thesis by (auto simp: funding_times_def)
    next
      assume "x \<in> ?W"
      then obtain s where s: "x = s * 1000000000" "s \<in> set S" "nanos start \<le> s * 1000000000"
        "s * 1000000000 \<le> nanos now" by blast
      have "has_settlement nanos ?k db' s" by (rule poll_pages_complete [OF L S g rds' inv run s(2-4)])
      with s(1) show ?thesis unfolding has_settlement_def by (metis image_eqI)
    qed
  qed
qed

end
