(* ===== verification/Funding_Bounds.thy ===== *)
theory Funding_Bounds
  imports Funding "HOL-Library.Word" "HOL-Library.Signed_Division"
begin

text \<open>
  The two numeric bounds \<^verbatim>\<open>src/funding.rs\<close> relies on: the 64-bit arithmetic of \<^verbatim>\<open>floor_hour\<close>, and the
  spacing of requests that keeps the poller below the rate limit of the server.
\<close>

section \<open>Whole hours in 64 bits\<close>

text \<open>\<^verbatim>\<open>%\<close> of \<^verbatim>\<open>i64\<close> truncates towards zero; \<^verbatim>\<open>i64::rem_euclid\<close> adds the divisor to a negative remainder.\<close>

definition rem_i64 :: "64 word \<Rightarrow> 64 word \<Rightarrow> 64 word" where
  "rem_i64 a b = word_of_int (sint a smod sint b)"

definition rem_euclid_i64 :: "64 word \<Rightarrow> 64 word \<Rightarrow> 64 word" where
  "rem_euclid_i64 a b =
     (let r = rem_i64 a b in if r <s 0 then r + (if b <s 0 then - b else b) else r)"

definition floor_secs_i64 :: "64 word \<Rightarrow> 64 word" where
  "floor_secs_i64 secs = secs - rem_euclid_i64 secs 3600"

lemma sint_i64: "- 9223372036854775808 \<le> n \<Longrightarrow> n < 9223372036854775808 \<Longrightarrow> sint (word_of_int n :: 64 word) = n"
  by (simp add: sint_sbintrunc' signed_take_bit_int_eq_self)

lemma sint_i64_range: "- 9223372036854775808 \<le> sint (a :: 64 word) \<and> sint a < 9223372036854775808"
  using sint_ge [of a] sint_lt [of a] by simp

lemma sint_sub_i64:
  "- 9223372036854775808 \<le> sint a - sint b \<Longrightarrow> sint a - sint b < 9223372036854775808 \<Longrightarrow>
   sint (a - b) = sint a - sint (b :: 64 word)"
  using sint_i64 [of "sint a - sint b"] by (simp add: wi_hom_syms [symmetric] del: wi_hom_syms) 

lemma sint_add_i64:
  "- 9223372036854775808 \<le> sint a + sint b \<Longrightarrow> sint a + sint b < 9223372036854775808 \<Longrightarrow>
   sint (a + b) = sint a + sint (b :: 64 word)"
  using sint_i64 [of "sint a + sint b"] by simp

lemma sint_3600 [simp]: "sint (3600 :: 64 word) = 3600"
  using sint_i64 [of 3600] by simp

lemma smod_to_mod: "0 < m \<Longrightarrow> (if k smod m < 0 then k smod m + m else k smod m) = k mod m" for k m :: int
proof -
  assume m: "0 < m"
  have k: "k mod m = (if (- k) mod m = 0 then 0 else m - (- k) mod m)"
    using zmod_zminus1_eq_if [of "- k" m] by simp
  have n: "0 \<le> (- k) mod m" "0 \<le> k mod m" using m by simp_all
  then have "(- k) mod m = 0 \<or> 0 < (- k) mod m" by linarith
  with k m n(2) show ?thesis by (cases k "0 :: int" rule: linorder_cases) (auto simp: smod_int_alt_def)
qed

lemma sint_rem_euclid: "sint (rem_euclid_i64 a 3600) = sint a mod 3600"
proof -
  let ?r = "sint a smod 3600"
  have range: "- 3600 < ?r" "?r < 3600"
    using smod_int_compares [of "sint a" 3600] by (cases "0 \<le> sint a"; simp)+
  then have r: "sint (rem_i64 a 3600) = ?r" using sint_i64 [of ?r] range by (simp add: rem_i64_def)
  with range have "sint (rem_i64 a 3600 + 3600) = ?r + 3600" by (subst sint_add_i64) simp_all
  moreover have "\<not> (3600 :: 64 word) <s 0" by (simp add: word_sless_alt)
  ultimately show ?thesis
    using smod_to_mod [of 3600 "sint a"] r by (auto simp: rem_euclid_i64_def Let_def word_sless_alt split: if_splits)
qed

lemma sint_floor_secs:
  assumes "- 9223372036854775808 \<le> sint secs - sint secs mod 3600"
  shows "sint (floor_secs_i64 secs) = sint secs - sint secs mod 3600"
proof -
  have "0 \<le> sint secs mod 3600" by simp
  then have "sint secs - sint secs mod 3600 < 9223372036854775808" using sint_i64_range [of secs] by linarith
  with assms show ?thesis unfolding floor_secs_i64_def by (subst sint_sub_i64) (simp_all add: sint_rem_euclid)
qed

section \<open>Request spacing\<close>

text \<open>In milliseconds, as are the times below.\<close>

definition REQUEST_SPACING :: nat where "REQUEST_SPACING = 1100"

text \<open>
  When the requests of the poller start, the first at \<open>t\<close>: after each, \<^verbatim>\<open>fetch_page\<close> waits for the
  response (\<open>latency\<close>) and sleeps; whatever else passes until the next request is \<open>idle\<close>.
\<close>

fun request_times :: "nat \<Rightarrow> (nat \<times> nat) list \<Rightarrow> nat list" where
  "request_times t [] = []"
| "request_times t ((latency, idle) # rest) = t # request_times (t + latency + REQUEST_SPACING + idle) rest"

lemma request_times_window:
  "REQUEST_SPACING * length (filter (\<lambda>u. x \<le> u \<and> u < x + m) (request_times t gaps))
     \<le> (x + m - max t x) + (REQUEST_SPACING - 1)"
proof (induction gaps arbitrary: t)
  case (Cons g gaps)
  obtain latency idle where g: "g = (latency, idle)" by fastforce
  let ?t = "t + latency + REQUEST_SPACING + idle"
  define n where "n = length (filter (\<lambda>u. x \<le> u \<and> u < x + m) (request_times ?t gaps))"
  have IH: "1100 * n \<le> (x + m - max ?t x) + 1099"
    using Cons.IH [of ?t] by (simp add: n_def REQUEST_SPACING_def)
  have "1100 * (if x \<le> t \<and> t < x + m then Suc n else n) \<le> (x + m - max t x) + 1099"
  proof (cases "?t < x + m")
    case True
    with IH show ?thesis by (auto simp: max_def REQUEST_SPACING_def split: if_splits)
  next
    case False
    with IH have "n = 0" by (simp add: max_def split: if_splits)
    then show ?thesis by (auto simp: max_def)
  qed
  then show ?case by (auto simp: g n_def REQUEST_SPACING_def)
qed simp

end
