(* ===== verification/Funding_Props.thy ===== *)
theory Funding_Props
  imports Store_Props Funding_Reference Funding_Bounds
begin

text \<open>
  The properties of the funding poller. Where a server has to be right for a claim to hold, it is one
  that pages a list of settlements on the hourly grid (\<open>serves\<close>); everything else about the
  environment is arbitrary.
\<close>

section \<open>Checks\<close>

text \<open>A page passes exactly when its rows are strictly increasing in time and lie between the
  requested start and the current time, both included.\<close>

lemma validate_page_iff:
  "validate_page start now rows = Inr ()
   \<longleftrightarrow> list_all (\<lambda>r. start \<le> sf_time r \<and> sf_time r \<le> now) rows \<and> sorted_wrt (<) (map sf_time rows)"
  by (simp add: validate_page_ok list_all_iff)

text \<open>C35. A response is accepted exactly when it is a document of the expected shape with code 200 and
  resolution \<^verbatim>\<open>1h\<close> in which every row has a representable time, an exact decimal rate and a direction
  that is not empty; the settlements are these rows, in order.\<close>

theorem parse_fundings_iff:
  "parse_fundings_response L body = Inr rows
   \<longleftrightarrow> (\<exists>resp. Option.bind (json_document L body) de_fundings_response = Some resp
        \<and> fr_code resp = 200 \<and> fr_resolution resp = ''1h''
        \<and> list_all2 (\<lambda>f r. from_secs L (fd_timestamp f) = Some (sf_time r)
             \<and> dec_from_str L (fd_rate f) = Some (sf_rate r)
             \<and> sf_direction r = fd_direction f \<and> fd_direction f \<noteq> []) (fr_fundings resp) rows)"
proof -
  have "settle_funding L f = Inr r \<longleftrightarrow> from_secs L (fd_timestamp f) = Some (sf_time r)
       \<and> dec_from_str L (fd_rate f) = Some (sf_rate r) \<and> sf_direction r = fd_direction f \<and> fd_direction f \<noteq> []"
    for f and r :: "('a, 'b) settled_funding"
    by (cases r) (auto simp: settle_funding_def)
  then show ?thesis
    by (auto simp: parse_fundings_response_def collect_res_Inr FUNDING_RESOLUTION_def split: option.splits)
qed

text \<open>C34. The start of the next request is on the hourly grid: the first whole hour later than the newest
  settlement, which lies on a whole second, or the first one at or after the backfill instant.\<close>

theorem next_request_start_first_hour:
  assumes L: "chrono_ok L nanos" and s: "next_request_start L newest backfill = Inr start"
    and newest: "\<And>t. newest = Some t \<Longrightarrow> nanos t mod 1000000000 = 0"
  shows "on_hour nanos start
     \<and> (case newest of Some t \<Rightarrow> t < start | None \<Rightarrow> backfill \<le> start)
     \<and> (on_hour nanos h \<and> (case newest of Some t \<Rightarrow> t < h | None \<Rightarrow> backfill \<le> h) \<longrightarrow> start \<le> h)"
proof (cases newest)
  case None
  with s have c: "ceil_hour L backfill = Inr start" by (simp add: next_request_start_def)
  with None ceil_hour_nanos [OF L c] ceil_hour_least [OF L c] show ?thesis
    by (simp add: chrono_le [OF L])
next
  case (Some t)
  note sn = next_request_start_nanos [OF L s [unfolded Some]]
  have "start \<le> h" if h: "on_hour nanos h" "t < h"
  proof -
    have "nanos h mod 1000000000 = 0"
      using h(1) mod_mod_cancel [of 1000000000 hour "nanos h"] by (simp add: on_hour_def hour_def)
    then have "nanos t + 1000000000 \<le> nanos h"
      using h(2) newest Some by (intro multiples_apart) (simp_all add: chrono_less [OF L])
    with sn on_hour_le [OF sn(1) h(1)] show ?thesis by (simp add: chrono_le [OF L])
  qed
  with Some sn show ?thesis by (simp add: chrono_less [OF L])
qed

theorem next_request_start_first_hour_witness:
  "next_request_start (sample_libs []) (Some 3600000000000) 0 = Inr 7200000000000 \<and> on_hour (\<lambda>t. t) 7200000000000"
proof -
  have s: "next_request_start (sample_libs []) (Some 3600000000000) 0 = Inr 7200000000000"
    by (simp add: next_request_start_def sample_libs_def ceil_hour_def floor_hour_def Let_def)
  from next_request_start_first_hour [OF sample_chrono s, of 0] s show ?thesis by simp
qed

section \<open>A market's poll\<close>

text \<open>C33. A poll of a market returns: each page it goes on from moves the start by at least an hour, so a
  poll whose clock stays below \<open>B\<close> takes no more turns than there are hours from its start to \<open>B\<close>, and two.\<close>

theorem poll_market_returns:
  assumes "chrono_ok L nanos"
    and "next_request_start L (newest_funding_time (pm_symbol_id market) db) backfill = Inr start"
    and "list_all (\<lambda>rd. nanos (rd_check rd) \<le> B) rds" and "rds \<noteq> []"
    and "B < nanos start + 3600000000000 * (int (length rds) - 1)"
  shows "fst (poll_market L market backfill newest_ok rds db) \<noteq> Polling"
proof -
  have "on_hour nanos start"
    using assms(2) ceil_hour_nanos(1) [OF assms(1)] next_request_start_nanos(1) [OF assms(1)]
    by (cases "newest_funding_time (pm_symbol_id market) db") (auto simp: next_request_start_def)
  then have "fst (poll_pages L market backfill start rds db) \<noteq> Polling"
    using assms(3-5) by (intro poll_pages_returns [OF assms(1), of _ _ B]) (simp_all add: list_all_iff hour_def)
  with assms(2) show ?thesis by (cases newest_ok) (simp_all add: poll_market_def poll_start_def with_conn_def)
qed

definition funding_json :: "int list \<Rightarrow> json" where
  "funding_json ss = JObj [(''code'', JInt 200), (''resolution'', JStr ''1h''), (''fundings'', JArr (map (\<lambda>s.
     JObj [(''timestamp'', JInt s), (''value'', JStr ''1''), (''rate'', JStr ''0.0012''), (''direction'', JStr ''long'')]) ss))]"

definition funding_libs :: "(int, int, int) libs" where
  "funding_libs = sample_libs [('''', funding_json []), (''1'', funding_json [3600]), (''2'', funding_json [7200]),
     (''12'', funding_json [3600, 7200]), (''new'', markets_json [market_json 9 ''SOL'', market_json 7 ''BTC'']),
     (''snapshot'', snapshot_json), (''delta'', delta_json),
     (''bids'', JArr [level_json ''99.5'' ''2'', level_json ''99.25'' ''1.5'']), (''asks'', JArr [level_json ''100.0'' ''1''])]"

definition page_text :: "int list \<Rightarrow> string" where
  "page_text ss = (if 3600 \<in> set ss then ''1'' else '''') @ (if 7200 \<in> set ss then ''2'' else '''')"

definition settlement_server :: server where
  "settlement_server rq = Some (page_text (settlement_page [3600, 7200] rq))"

lemma settlement_pages: "settlement_page [3600, 7200] rq \<in> {[], [3600], [7200], [3600, 7200]}"
  by (auto simp: settlement_page_def MAX_FUNDINGS_PER_CALL_def)

lemma page_text_parses:
  assumes "p \<in> {[], [3600], [7200], [3600, 7200]}" and "parse_fundings_response funding_libs (page_text p) = Inr rows"
  shows "map sf_time rows = map (\<lambda>s. s * 1000000000) p"
proof -
  have "\<forall>p \<in> set [[], [3600], [7200], [3600, 7200]].
      map sf_time (projr (parse_fundings_response funding_libs (page_text p))) = map (\<lambda>s. s * 1000000000) p"
    by code_simp
  with assms show ?thesis by auto
qed

lemma settlement_server_serves: "serves funding_libs (\<lambda>t. t) 7 [3600, 7200] settlement_server"
  using page_text_parses [OF settlement_pages] by (simp add: serves_def settlement_server_def)

definition btc :: perp_market where
  "btc = \<lparr>pm_symbol_id = 1, pm_name = ''BTC'', pm_market_id = 7\<rparr>"

definition at_8000 :: "int round" where
  "at_8000 = \<lparr>rd_check = 8000000000000, rd_end = 8000000000000, rd_validate = 8000000000001,
     rd_server = settlement_server, rd_db_ok = True\<rparr>"

lemma btc_start: "next_request_start funding_libs (newest_funding_time (pm_symbol_id btc) sample_db) 0 = Inr 0"
  by (simp add: next_request_start_def newest_funding_time_def funding_times_def sample_db_def
      funding_libs_def sample_libs_def ceil_hour_def floor_hour_def Let_def)

lemma funding_chrono: "chrono_ok funding_libs (\<lambda>t. t)"
  by (simp add: funding_libs_def sample_chrono)

theorem poll_market_returns_witness:
  "fst (poll_market funding_libs btc 0 True [at_8000, at_8000, at_8000, at_8000] sample_db) \<noteq> Polling"
  by (rule poll_market_returns [OF funding_chrono btc_start, of 8000000000000]) (simp_all add: at_8000_def)

text \<open>C9. When a poll of a market reports success, every settlement of the market from the backfill instant
  up to any time that none of its clock readings precedes is stored, whether this poll stored it or an
  earlier one, however many pages it takes.\<close>

theorem polled_market_is_complete:
  assumes L: "chrono_ok L nanos" and S: "sorted_wrt (<) S" "list_all (\<lambda>s. s mod 3600 = 0) S"
    and inv: "db_inv db" and ng: "no_gap nanos backfill S (pm_symbol_id market) db"
    and env: "list_all (\<lambda>rd. serves L nanos (pm_market_id market) S (rd_server rd)
        \<and> T \<le> nanos (rd_check rd) \<and> T \<le> nanos (rd_end rd)) rds"
    and run: "poll_market L market backfill newest_ok rds db = (Polled, db')"
    and s: "s \<in> set S" "nanos backfill \<le> s * 1000000000" "s * 1000000000 \<le> T"
  shows "has_settlement nanos (pm_symbol_id market) db' s"
  using run
proof (cases rule: poll_market_cases)
  case (polled start)
  have grid: "\<forall>s \<in> set S. s mod 3600 = 0" using S(2) by (simp add: list_all_iff)
  note st = first_start_below [OF L grid ng polled(1)]
  show ?thesis
  proof (cases "s * 1000000000 < nanos start")
    case True
    with st(2) s have "has_settlement nanos (pm_symbol_id market) db s" by (simp add: stored_below_def)
    with poll_pages_inv [OF polled(2) inv] show ?thesis by (blast intro: has_settlement_mono)
  next
    case False
    with s show ?thesis
      using env by (intro poll_pages_complete [OF L S(1) grid st(1) _ inv polled(2)]) (simp_all add: list_all_iff)
  qed
qed simp

lemma no_gap_sample: "no_gap nanos backfill S k sample_db"
  by (simp add: no_gap_def funding_times_def sample_db_def)

lemma btc_polled: "poll_market funding_libs btc 0 True [at_8000] sample_db
    = (Polled, snd (poll_market funding_libs btc 0 True [at_8000] sample_db))"
proof -
  have "(case fst (poll_market funding_libs btc 0 True [at_8000] sample_db) of Polled \<Rightarrow> True | _ \<Rightarrow> False)" by code_simp
  then show ?thesis by (cases "fst (poll_market funding_libs btc 0 True [at_8000] sample_db)") (auto simp: prod_eq_iff)
qed

theorem polled_market_is_complete_witness:
  "has_settlement (\<lambda>t. t) 1 (snd (poll_market funding_libs btc 0 True [at_8000] sample_db)) 7200"
proof -
  have "has_settlement (\<lambda>t. t) (pm_symbol_id btc) (snd (poll_market funding_libs btc 0 True [at_8000] sample_db)) 7200"
    by (rule polled_market_is_complete [OF funding_chrono, of "[3600, 7200]", OF _ _ sample_db_inv no_gap_sample _ btc_polled,
          where T = 8000000000000])
      (simp_all add: at_8000_def btc_def settlement_server_serves)
  then show ?thesis by (simp add: btc_def)
qed

text \<open>C8. Paging is invisible: a poll that reports success has stored exactly the settlement times that one insert
  of the whole window, from its first start to \<open>now\<close>, would have stored, however the server's cap cut the
  window into pages and whenever the requests were made, as long as no clock reading precedes \<open>now\<close> and no
  settlement falls between \<open>now\<close> and a request.\<close>

theorem paging_equals_one_request:
  assumes L: "chrono_ok L nanos" and S: "sorted_wrt (<) S" "list_all (\<lambda>s. s mod 3600 = 0) S" and inv: "db_inv db"
    and start: "next_request_start L (newest_funding_time (pm_symbol_id market) db) backfill = Inr start"
    and env: "list_all (\<lambda>rd. serves L nanos (pm_market_id market) S (rd_server rd)
        \<and> now \<le> rd_check rd \<and> now \<le> rd_end rd
        \<and> list_all (\<lambda>s. s * 1000000000 \<le> nanos (rd_end rd) \<longrightarrow> s * 1000000000 \<le> nanos now) S) rds"
    and run: "poll_market L market backfill newest_ok rds db = (Polled, db')"
    and all: "whole_window L nanos S start now all"
    and ref: "insert_funding_rates (funding_rows (pm_symbol_id market) all) db = Inr (n, reference)"
  shows "set (funding_times (pm_symbol_id market) db') = set (funding_times (pm_symbol_id market) reference)"
  using run
proof (cases rule: poll_market_cases)
  case (polled start')
  with start have p: "poll_pages L market backfill start rds db = (Polled, db')" by simp
  have g: "on_hour nanos start"
    using start ceil_hour_nanos(1) [OF L] next_request_start_nanos(1) [OF L]
    by (cases "newest_funding_time (pm_symbol_id market) db") (auto simp: next_request_start_def)
  have "set (funding_times (pm_symbol_id market) db')
      = set (funding_times (pm_symbol_id market) db) \<union> sf_time ` set all"
    using S env by (intro poll_pages_times [OF L _ _ g _ inv p all]) (simp_all add: list_all_iff)
  then show ?thesis by (simp add: insert_fundings_times(1) [OF ref])
qed simp

definition whole_page :: "(int, int) settled_funding list" where
  "whole_page = projr (parse_fundings_response funding_libs ''12'')"

theorem paging_equals_one_request_witness:
  "set (funding_times 1 (snd (poll_market funding_libs btc 0 True [at_8000] sample_db)))
     = set (funding_times 1 (snd (projr (insert_funding_rates (funding_rows 1 whole_page) sample_db))))"
proof -
  have all: "whole_window funding_libs (\<lambda>t. t) [3600, 7200] 0 8000000000000 whole_page"
    unfolding whole_window_def by code_simp
  have "Option.is_none (case insert_funding_rates (funding_rows 1 whole_page) sample_db of Inl e \<Rightarrow> Some () | _ \<Rightarrow> None)"
    by code_simp
  then obtain n ref where ref: "insert_funding_rates (funding_rows (pm_symbol_id btc) whole_page) sample_db = Inr (n, ref)"
    by (cases "insert_funding_rates (funding_rows 1 whole_page) sample_db") (auto simp: btc_def)
  have "set (funding_times (pm_symbol_id btc) (snd (poll_market funding_libs btc 0 True [at_8000] sample_db)))
      = set (funding_times (pm_symbol_id btc) ref)"
    by (rule paging_equals_one_request [OF funding_chrono _ _ sample_db_inv btc_start _ btc_polled all ref])
      (simp_all add: at_8000_def btc_def settlement_server_serves)
  with ref show ?thesis by (simp add: btc_def)
qed

section \<open>Bounds\<close>

text \<open>C16. The arithmetic of \<^verbatim>\<open>floor_hour\<close> does not wrap: on every instant whose seconds are at least an hour above
  the least \<^verbatim>\<open>i64\<close>, which chrono's instants are by far, the 64-bit computation gives the whole hour at or
  before it, and this is the value the model's \<open>floor_hour\<close> uses.\<close>

theorem floor_hour_in_64_bits:
  assumes "- 9223372036854772208 \<le> to_secs L t" and "to_secs L t \<le> 9223372036854775807"
  shows "let secs = sint (floor_secs_i64 (word_of_int (to_secs L t)))
     in floor_hour L t = ok_or Panicked (from_secs L secs)
        \<and> secs mod 3600 = 0 \<and> secs \<le> to_secs L t \<and> to_secs L t < secs + 3600"
proof -
  let ?s = "to_secs L t" let ?f = "sint (floor_secs_i64 (word_of_int ?s))"
  have m: "0 \<le> ?s mod 3600" "?s mod 3600 < 3600" by simp_all
  have "sint (word_of_int ?s :: 64 word) = ?s" using assms by (intro sint_i64) simp_all
  then have f: "?f = ?s - ?s mod 3600"
    using sint_floor_secs [of "word_of_int ?s"] assms(1) m by simp
  have "(?s - ?s mod 3600) mod 3600 = 0" by (simp add: minus_mod_eq_mult_div)
  with m show ?thesis by (simp add: Let_def floor_hour_def f del: mod_diff_right_eq mod_diff_left_eq)
qed

theorem floor_hour_in_64_bits_witness:
  "floor_hour (sample_libs []) (- 1500000000) = ok_or Panicked (from_secs (sample_libs []) (sint (floor_secs_i64 (word_of_int (- 2)))))"
proof -
  have "to_secs (sample_libs []) (- 1500000000) = - 2" by (simp add: sample_libs_def)
  with floor_hour_in_64_bits [of "sample_libs []" "- 1500000000"] show ?thesis by (simp add: Let_def)
qed

text \<open>C17. The poller stays below the limit of 60 requests in any rolling minute: whatever the latencies and
  the idle times between its requests, no window of 60 seconds holds more than 55.\<close>

theorem requests_below_rate_limit:
  "length (filter (\<lambda>u. x \<le> u \<and> u < x + 60000) (request_times t gaps)) \<le> 55"
  using request_times_window [of x 60000 t gaps] by (auto simp: REQUEST_SPACING_def max_def split: if_splits)

section \<open>The poller\<close>

text \<open>However the poller ends, with any failure of a request, a response or the database in any market
  and page, no market has a gap: between the backfill instant and its newest stored settlement every
  settlement is stored. So the next start, which continues after the newest one, loses nothing.\<close>

lemma poller_leaves_no_gap:
  assumes "chrono_ok L nanos" and "hourly S" and "distinct (map pm_symbol_id markets)"
    and "list_all (\<lambda>answer. list_all (\<lambda>m. served L nanos S m (snd (answer m))) markets) sweeps" and "db_inv db"
    and "no_gaps nanos backfill S markets db"
    and "run_funding_poller L markets backfill sweeps db = (r, db')"
  shows "no_gaps nanos backfill S markets db'"
  using assms(4) by (intro run_poller_no_gaps [OF assms(1-3) _ assms(5-7)]) (simp add: list_all_iff)

definition btc_settlements :: "int \<Rightarrow> int list" where
  "btc_settlements m = (if m = 7 then [3600, 7200] else [])"

lemma poller_leaves_no_gap_witness:
  "no_gaps (\<lambda>t. t) 0 btc_settlements [btc]
     (snd (run_funding_poller funding_libs [btc] 0 [\<lambda>m. (True, [at_8000]), \<lambda>m. (False, [])] sample_db))"
proof (rule poller_leaves_no_gap [OF funding_chrono])
  show "hourly btc_settlements" by (simp add: hourly_def btc_settlements_def)
  show "distinct (map pm_symbol_id [btc])" by simp
  show "list_all (\<lambda>answer. list_all (\<lambda>m. served funding_libs (\<lambda>t. t) btc_settlements m (snd (answer m))) [btc])
      [\<lambda>m. (True, [at_8000]), \<lambda>m. (False, [])]"
    by (simp add: served_def at_8000_def btc_def btc_settlements_def settlement_server_serves)
  show "db_inv sample_db" by (rule sample_db_inv)
  show "no_gaps (\<lambda>t. t) 0 btc_settlements [btc] sample_db" by (simp add: no_gaps_def no_gap_sample)
  show "run_funding_poller funding_libs [btc] 0 [\<lambda>m. (True, [at_8000]), \<lambda>m. (False, [])] sample_db
     = (fst (run_funding_poller funding_libs [btc] 0 [\<lambda>m. (True, [at_8000]), \<lambda>m. (False, [])] sample_db),
        snd (run_funding_poller funding_libs [btc] 0 [\<lambda>m. (True, [at_8000]), \<lambda>m. (False, [])] sample_db))"
    by (rule prod.collapse [symmetric])
qed

text \<open>The poller keeps every constraint of the database, in particular one row for each symbol and time,
  changes no other table and removes no row, against any server at all.\<close>

lemma poller_keeps_database:
  assumes "run_funding_poller L markets backfill sweeps db = (r, db')" and "db_inv db"
  shows "db_inv db' \<and> db_symbols db' = db_symbols db \<and> db_trades db' = db_trades db
     \<and> db_orderbooks db' = db_orderbooks db \<and> set (db_fundings db) \<subseteq> set (db_fundings db')"
  using run_poller_inv [OF assms] by (simp add: grown_def)

end
