(* ===== verification/Ingestor_Props.thy ===== *)
theory Ingestor_Props
  imports Store_Props
begin

text \<open>
  The properties of the symbol table and of the start of the service.
\<close>

section \<open>Symbols\<close>

text \<open>An upsert that succeeds makes the market's row what was given, under the id that it returns:
  the id the market had, or else a new one. Every other market keeps its row, and the constraints of the
  database still hold.\<close>

lemma upsert_effect:
  assumes "db_inv db" and "upsert_symbol symbol_name market_type market_id db = Inr (i, db')"
  shows "symbol_of db' market_id = Some \<lparr>sym_id = i, sym_name = symbol_name, sym_market_id = market_id,
       sym_market_type = market_type\<rparr>
     \<and> (k \<noteq> market_id \<longrightarrow> symbol_of db' k = symbol_of db k)
     \<and> (case symbol_of db market_id of Some old \<Rightarrow> i = sym_id old | None \<Rightarrow> i \<notin> symbol_ids db)
     \<and> db_inv db'"
proof -
  have inv: "symbols_inv db" using assms(1) by (simp add: db_inv_def)
  have "case symbol_of db market_id of Some old \<Rightarrow> i = sym_id old | None \<Rightarrow> i \<notin> symbol_ids db"
    using assms(2)
  proof (cases rule: upsert_symbol_cases)
    case insert
    have "\<forall>r \<in> set (db_symbols db). sym_id r < db_next_symbol db" using inv by (simp add: symbols_inv_def)
    with insert show ?thesis by (auto simp: symbol_ids_def)
  qed simp
  with upsert_symbol_lookup [OF inv assms(2)] upsert_db_inv [OF assms] show ?thesis by simp
qed

lemma upsert_effect_witness:
  "\<exists>db'. upsert_symbol ''XBT'' ''perp'' 7 sample_db = Inr (1, db')
     \<and> symbol_of db' 7 = Some \<lparr>sym_id = 1, sym_name = ''XBT'', sym_market_id = 7, sym_market_type = ''perp''\<rparr>
     \<and> symbol_of db' 8 = symbol_of sample_db 8 \<and> db_inv db'"
proof -
  obtain db' where u: "upsert_symbol ''XBT'' ''perp'' 7 sample_db = Inr (1, db')"
    by (simp add: upsert_symbol_def sample_db_def sample_symbols_def)
  from upsert_effect [OF sample_db_inv u, of 8] u show ?thesis by simp
qed

text \<open>The symbol cache maps each market of the table to its id and nothing else, and never two markets
  to one id: this is what the connection needs of it, and every id is one that the tables accept.\<close>

lemma symbol_cache_faithful:
  assumes "db_inv db"
  shows "dom (load_symbol_cache db) = sym_market_id ` set (db_symbols db)
     \<and> ran (load_symbol_cache db) = symbol_ids db
     \<and> inj_on (load_symbol_cache db) (dom (load_symbol_cache db))
     \<and> load_symbol_cache db market_id = map_option sym_id (symbol_of db market_id)"
proof -
  have inv: "symbols_inv db" using assms by (simp add: db_inv_def)
  have "load_symbol_cache db market_id = map_option sym_id (symbol_of db market_id)"
  proof (cases "symbol_of db market_id")
    case None
    then have "market_id \<notin> dom (load_symbol_cache db)"
      by (simp add: load_symbol_cache_dom [OF inv] symbol_of_None)
    with None show ?thesis by (simp add: domIff)
  next
    case (Some r)
    then have "load_symbol_cache db market_id = Some (sym_id r)"
      unfolding load_symbol_cache_Some [OF inv] by (auto simp: symbol_of_Some [OF inv])
    with Some show ?thesis by simp
  qed
  with load_symbol_cache_dom [OF inv] load_symbol_cache_ran [OF inv] load_symbol_cache_inj [OF inv]
  show ?thesis by simp
qed

lemma symbol_cache_faithful_witness:
  "ran (load_symbol_cache sample_db) = symbol_ids sample_db \<and> load_symbol_cache sample_db 8 = Some 2"
  using symbol_cache_faithful [OF sample_db_inv, of 8]
  by (simp add: symbol_of_def sample_db_def sample_symbols_def)

section \<open>Sync\<close>

text \<open>C29. A symbol sync that succeeds has read a reply with code 200 and at least one market, all of type
  perp or spot. Afterwards every listed market has a row with the name and the type of its last listing,
  a market that was known keeps its id, a market that is not listed keeps its row, and no other table
  changes.\<close>

theorem sync_success:
  assumes "db_inv db" and "sync_symbols L reply commit_ok db = (Inr (), db')"
  shows "\<exists>resp. Option.bind (Option.bind reply (json_document L)) de_order_books_response = Some resp
     \<and> obs_code resp = 200 \<and> obs_order_books resp \<noteq> []
     \<and> list_all (\<lambda>m. mk_market_type m \<in> {''perp'', ''spot''}) (obs_order_books resp)
     \<and> (case find (\<lambda>m. mk_market_id m = k) (rev (obs_order_books resp)) of
          None \<Rightarrow> symbol_of db' k = symbol_of db k
        | Some m \<Rightarrow> map_option (\<lambda>r. (sym_name r, sym_market_type r)) (symbol_of db' k)
              = Some (mk_symbol m, mk_market_type m))
     \<and> (case symbol_of db k of None \<Rightarrow> True | Some r \<Rightarrow> map_option sym_id (symbol_of db' k) = Some (sym_id r))
     \<and> db_inv db' \<and> db_trades db' = db_trades db \<and> db_orderbooks db' = db_orderbooks db
     \<and> db_fundings db' = db_fundings db"
proof -
  have inv: "symbols_inv db" using assms(1) by (simp add: db_inv_def)
  from assms(2) show ?thesis
  proof (cases rule: sync_symbols_cases)
    case (synced body doc resp)
    note lookup = upsert_all_lookup [OF inv synced(8), of k]
    have "case symbol_of db k of None \<Rightarrow> True | Some r \<Rightarrow> map_option sym_id (symbol_of db' k) = Some (sym_id r)"
      using upsert_all_id [OF inv synced(8), of k] by (auto split: option.splits)
    moreover have "case find (\<lambda>m. mk_market_id m = k) (rev (obs_order_books resp)) of
          None \<Rightarrow> symbol_of db' k = symbol_of db k
        | Some m \<Rightarrow> map_option (\<lambda>r. (sym_name r, sym_market_type r)) (symbol_of db' k)
              = Some (mk_symbol m, mk_market_type m)"
      using lookup by (auto split: option.splits)
    moreover have "db_inv db'" by (rule upsert_all_inv [OF assms(1) synced(8)])
    moreover note upsert_all_keeps [OF synced(8)] synced(2-6)
    moreover have "list_all (\<lambda>m. mk_market_type m \<in> {''perp'', ''spot''}) (obs_order_books resp)"
      using synced(7) by (simp only: list_all_iff)
    ultimately show ?thesis by (intro exI [of _ resp]) simp
  qed simp
qed

definition sync_libs :: "(int, int, int) libs" where
  "sync_libs = sample_libs
     [(''new'', markets_json [market_json 9 ''SOL'', market_json 7 ''BTC'']),
      (''swapped'', markets_json [market_json 9 ''SOL'', market_json 7 ''ETH'', market_json 8 ''BTC''])]"

theorem sync_success_witness:
  "\<exists>db'. sync_symbols sync_libs (Some ''new'') True sample_db = (Inr (), db') \<and> db_inv db'
     \<and> map_option sym_id (symbol_of db' 7) = Some 1"
proof -
  have "\<not> isl (fst (sync_symbols sync_libs (Some ''new'') True sample_db))" by code_simp
  then obtain db' where s: "sync_symbols sync_libs (Some ''new'') True sample_db = (Inr (), db')"
    by (elim fst_Inr_E) simp
  from sync_success [OF sample_db_inv s, of 7] s show ?thesis
    by (auto simp: symbol_of_def sample_db_def sample_symbols_def)
qed

text \<open>C30. A symbol sync that fails, for whatever reason and after however many upserts, leaves every row
  of every table as it was.\<close>

theorem sync_failure_changes_nothing:
  assumes "sync_symbols L reply commit_ok db = (Inl e, db')"
  shows "db_symbols db' = db_symbols db \<and> db_trades db' = db_trades db
     \<and> db_orderbooks db' = db_orderbooks db \<and> db_fundings db' = db_fundings db"
  using assms by (cases rule: sync_symbols_cases) (auto simp: rolled_back_def)

theorem sync_failure_changes_nothing_witness:
  "db_symbols (snd (sync_symbols sync_libs (Some ''new'') False sample_db)) = sample_symbols"
proof -
  have "isl (fst (sync_symbols sync_libs (Some ''new'') False sample_db))" by code_simp
  then obtain e where "sync_symbols sync_libs (Some ''new'') False sample_db
      = (Inl e, snd (sync_symbols sync_libs (Some ''new'') False sample_db))"
    by (metis isl_def prod.collapse)
  from sync_failure_changes_nothing [OF this] show ?thesis by (simp add: sample_db_def)
qed

text \<open>As long as the market that has a name is not listed, an upsert of another market under that name fails.\<close>

lemma upsert_symbol_keeps_owner:
  assumes "upsert_symbol nm ty k db = Inr (i, db')" and "owner \<in> set (db_symbols db)" and "sym_market_id owner \<noteq> k"
  shows "owner \<in> set (db_symbols db') \<and> db_next_symbol db' = db_next_symbol db + 1"
  using assms(1)
proof (cases rule: upsert_symbol_cases)
  case (update old)
  have "rename_symbol k nm ty owner = owner" using assms(3) by (simp add: rename_symbol_def)
  with assms(2) have "owner \<in> rename_symbol k nm ty ` set (db_symbols db)" by (metis image_eqI)
  with update show ?thesis by simp
qed (use assms(2) in simp)

lemma upsert_symbol_unique:
  assumes "upsert_symbol nm ty k db = Inl e" and "ty \<in> {''perp'', ''spot''}" and "length nm \<le> 255"
    and "db_next_symbol db \<le> 2147483647"
  shows "e = UniqueViolation"
  using assms by (auto simp: upsert_symbol_def split: if_splits option.splits)

lemma taken_name_blocks:
  assumes "owner \<in> set (db_symbols db)" and "sym_market_id owner \<notin> mk_market_id ` set before"
    and "sym_market_id owner \<noteq> mk_market_id market" and "sym_market_type owner = mk_market_type market"
    and "sym_name owner = mk_symbol market"
    and "\<forall>m \<in> set (before @ [market]). mk_market_type m \<in> {''perp'', ''spot''} \<and> length (mk_symbol m) \<le> 255"
    and "db_next_symbol db + int (length before) \<le> 2147483647"
  shows "fst (upsert_all (before @ market # after) db) = Inl UniqueViolation"
  using assms
proof (induction before arbitrary: db)
  case Nil
  then have "\<exists>r \<in> set (db_symbols db). sym_market_id r \<noteq> mk_market_id market
      \<and> sym_market_type r = mk_market_type market \<and> sym_name r = mk_symbol market" by blast
  with Nil.prems(6,7) have "upsert_symbol (mk_symbol market) (mk_market_type market) (mk_market_id market) db = Inl UniqueViolation"
    by (auto simp: upsert_symbol_def)
  then show ?case by simp
next
  case (Cons m before)
  show ?case
  proof (cases "upsert_symbol (mk_symbol m) (mk_market_type m) (mk_market_id m) db")
    case (Inl e)
    from upsert_symbol_unique [OF Inl] Cons.prems(6,7) have "e = UniqueViolation" by simp
    with Inl show ?thesis by simp
  next
    case (Inr q)
    then obtain i db' where q: "upsert_symbol (mk_symbol m) (mk_market_type m) (mk_market_id m) db = Inr (i, db')"
      by (cases q) auto
    have "sym_market_id owner \<noteq> mk_market_id m" using Cons.prems(2) by auto
    from upsert_symbol_keeps_owner [OF q Cons.prems(1) this]
    have "owner \<in> set (db_symbols db')" "db_next_symbol db' = db_next_symbol db + 1" by simp_all
    with Cons.prems have "fst (upsert_all (before @ market # after) db') = Inl UniqueViolation"
      by (intro Cons.IH) auto
    with q show ?thesis by simp
  qed
qed

text \<open>C31. When a ticker name has moved to another market id, and no entry of the listing before the new owner of the
  name is for the market that has the name in the table (it is listed later, or not at all), the sync fails
  with a unique violation, whatever else is listed before. No row changes, so every start against this reply
  fails, and leaves the table for the next one to fail in the same way. This is for listed names of at most
  255 characters, while the sequence of symbol ids has not run out.\<close>

theorem moved_ticker_blocks_sync:
  assumes "Option.bind (Option.bind reply (json_document L)) de_order_books_response = Some resp"
    and "obs_code resp = 200"
    and "list_all (\<lambda>m. mk_market_type m \<in> {''perp'', ''spot''}) (obs_order_books resp)"
    and "obs_order_books resp = before @ market # after"
    and "\<forall>m \<in> set (before @ [market]). length (mk_symbol m) \<le> 255"
    and "owner \<in> set (db_symbols db)" and "sym_market_id owner \<notin> mk_market_id ` set (before @ [market])"
    and "sym_market_type owner = mk_market_type market" and "sym_name owner = mk_symbol market"
    and "db_next_symbol db + int (length before) \<le> 2147483647"
  shows "fst (sync_symbols L reply commit_ok db) = Inl (SyncUpsert UniqueViolation)
     \<and> db_symbols (snd (sync_symbols L reply commit_ok db)) = db_symbols db
     \<and> (\<forall>cfg env. st_order_books env = reply \<longrightarrow>
          isl (fst (start_ingestor L cfg env db)) \<and> db_symbols (snd (start_ingestor L cfg env db)) = db_symbols db)"
proof -
  have "find (\<lambda>m. mk_market_type m \<notin> {''perp'', ''spot''}) (obs_order_books resp) = None"
    using assms(3) unfolding find_None_iff by (auto simp only: list_all_iff)
  moreover have "fst (upsert_all (before @ market # after) db) = Inl UniqueViolation"
    using assms by (intro taken_name_blocks [of owner]) (auto simp: list_all_iff)
  then obtain db1 where "upsert_all (obs_order_books resp) db = (Inl UniqueViolation, db1)"
    unfolding assms(4) by (metis prod.collapse)
  moreover have "obs_order_books resp \<noteq> []" using assms(4) by simp
  ultimately have sync: "sync_symbols L reply ok db = (Inl (SyncUpsert UniqueViolation), rolled_back db db1)" for ok
    using assms(1,2) by (simp add: sync_symbols_def del: bind_eq_Some_conv)
  have "isl (fst (start_ingestor L cfg env db)) \<and> db_symbols (snd (start_ingestor L cfg env db)) = db_symbols db"
    if "st_order_books env = reply" for cfg env
    using that by (simp add: start_ingestor_def sync rolled_back_def split: option.split)
  with sync show ?thesis by (simp add: rolled_back_def)
qed

theorem moved_ticker_blocks_sync_witness:
  "fst (sync_symbols sync_libs (Some ''swapped'') True sample_db) = Inl (SyncUpsert UniqueViolation)
     \<and> db_symbols (snd (sync_symbols sync_libs (Some ''swapped'') True sample_db)) = sample_symbols"
proof -
  let ?doc = "markets_json [market_json 9 ''SOL'', market_json 7 ''ETH'', market_json 8 ''BTC'']"
  let ?owner = "\<lparr>sym_id = 2, sym_name = ''ETH'', sym_market_id = 8, sym_market_type = ''perp''\<rparr>"
  have doc: "json_document sync_libs ''swapped'' = Some ?doc" by (simp add: sync_libs_def sample_libs_def)
  have "map_option (\<lambda>r. (obs_code r, map (\<lambda>m. (mk_market_id m, mk_symbol m, mk_market_type m)) (obs_order_books r)))
      (de_order_books_response ?doc) = Some (200, [(9, ''SOL'', ''perp''), (7, ''ETH'', ''perp''), (8, ''BTC'', ''perp'')])"
    by code_simp
  then obtain resp s m m' where r: "de_order_books_response ?doc = Some resp" "obs_code resp = 200"
    "obs_order_books resp = [s] @ m # [m']"
    and m: "mk_market_id s = 9" "mk_symbol s = ''SOL''" "mk_market_type s = ''perp''"
      "mk_market_id m = 7" "mk_symbol m = ''ETH''" "mk_market_type m = ''perp''" "mk_market_type m' = ''perp''"
    by (auto simp: map_eq_Cons_conv)
  have "Option.bind (Option.bind (Some ''swapped'') (json_document sync_libs)) de_order_books_response = Some resp"
    using doc r by simp
  moreover have "?owner \<in> set (db_symbols sample_db)" by (simp add: sample_db_def sample_symbols_def)
  ultimately show ?thesis
    using moved_ticker_blocks_sync [of "Some ''swapped''" sync_libs resp "[s]" m "[m']" ?owner sample_db True] r m
    by (simp add: sample_db_def)
qed

section \<open>Start\<close>

text \<open>C32. Without a subcommand the service starts only when all three settings are there; with one missing it
  stops with an error before it changes anything. When it starts, the connections subscribe to exactly the
  markets of the symbol table, each once, in some order, and know the symbol of each; the poller gets exactly
  the perp markets, with their symbols, in the order of their market ids.\<close>

theorem start_needs_settings:
  "(cf_poll_interval cfg = None \<or> cf_backfill_start cfg = None \<or> cf_snapshot_interval cfg = None \<longrightarrow>
      start_ingestor L cfg env db = (Inl SettingsMissing, db))
   \<and> (start_ingestor L cfg env db = (Inr sv, db') \<longrightarrow>
        Some (sv_poll_interval sv) = cf_poll_interval cfg \<and> Some (sv_backfill_start sv) = cf_backfill_start cfg
        \<and> Some (sv_snapshot_interval sv) = cf_snapshot_interval cfg
        \<and> distinct (sv_market_ids sv) \<and> set (sv_market_ids sv) = sym_market_id ` set (db_symbols db')
        \<and> sv_symbol_cache sv = load_symbol_cache db' \<and> dom (sv_symbol_cache sv) = set (sv_market_ids sv)
        \<and> sorted (map pm_market_id (sv_perp_markets sv))
        \<and> (\<lambda>m. (pm_market_id m, pm_symbol_id m)) ` set (sv_perp_markets sv)
            = (\<lambda>r. (sym_market_id r, sym_id r)) ` {r \<in> set (db_symbols db'). sym_market_type r = ''perp''})"
proof (intro conjI impI)
  assume "cf_poll_interval cfg = None \<or> cf_backfill_start cfg = None \<or> cf_snapshot_interval cfg = None"
  then show "start_ingestor L cfg env db = (Inl SettingsMissing, db)"
    by (auto simp: start_ingestor_def split: option.splits)
next
  assume s: "start_ingestor L cfg env db = (Inr sv, db')"
  have perp: "sorted (map pm_market_id (load_perp_markets db'))"
    "(\<lambda>m. (pm_market_id m, pm_symbol_id m)) ` set (load_perp_markets db')
       = (\<lambda>r. (sym_market_id r, sym_id r)) ` {r \<in> set (db_symbols db'). sym_market_type r = ''perp''}"
    by (simp_all add: load_perp_markets_def comp_def image_image)
  have keys: "distinct (cache_keys order db')" "set (cache_keys order db') = sym_market_id ` set (db_symbols db')"
    "dom (load_symbol_cache db') = sym_market_id ` set (db_symbols db')" for order
    using cache_keys_dom [of order db'] by (simp_all add: cache_keys_def)
  have sv: "Some (sv_poll_interval sv) = cf_poll_interval cfg" "Some (sv_backfill_start sv) = cf_backfill_start cfg"
    "Some (sv_snapshot_interval sv) = cf_snapshot_interval cfg" "sv_symbol_cache sv = load_symbol_cache db'"
    "sv_market_ids sv = cache_keys (st_key_order env) db'" "sv_perp_markets sv = load_perp_markets db'"
    using s by (auto simp: start_ingestor_def Let_def split: option.splits if_splits prod.splits sum.splits)
  from sv perp keys show "Some (sv_poll_interval sv) = cf_poll_interval cfg"
    "Some (sv_backfill_start sv) = cf_backfill_start cfg" "Some (sv_snapshot_interval sv) = cf_snapshot_interval cfg"
    "distinct (sv_market_ids sv)" "set (sv_market_ids sv) = sym_market_id ` set (db_symbols db')"
    "sv_symbol_cache sv = load_symbol_cache db'" "dom (sv_symbol_cache sv) = set (sv_market_ids sv)"
    "sorted (map pm_market_id (sv_perp_markets sv))"
    "(\<lambda>m. (pm_market_id m, pm_symbol_id m)) ` set (sv_perp_markets sv)
       = (\<lambda>r. (sym_market_id r, sym_id r)) ` {r \<in> set (db_symbols db'). sym_market_type r = ''perp''}"
    by simp_all
qed

definition sample_config :: "int config" where
  "sample_config = \<lparr>cf_database_url = Some ''db'', cf_command = None, cf_poll_interval = Some 60,
     cf_backfill_start = Some 0, cf_snapshot_interval = Some 600\<rparr>"

definition sample_start :: start_env where
  "sample_start = \<lparr>st_connect = True, st_order_books = Some ''new'', st_commit = True, st_cache = True,
     st_key_order = uminus, st_markets = True, st_pool = True\<rparr>"

theorem start_needs_settings_witness:
  "start_ingestor sync_libs (sample_config\<lparr>cf_backfill_start := None\<rparr>) sample_start sample_db = (Inl SettingsMissing, sample_db)
   \<and> (\<exists>sv db'. start_ingestor sync_libs sample_config sample_start sample_db = (Inr sv, db')
        \<and> sv_market_ids sv = [9, 8, 7] \<and> distinct (sv_market_ids sv) \<and> dom (load_symbol_cache db') = {7, 8, 9})"
proof (intro conjI)
  show "start_ingestor sync_libs (sample_config\<lparr>cf_backfill_start := None\<rparr>) sample_start sample_db = (Inl SettingsMissing, sample_db)"
    by (rule start_needs_settings [THEN conjunct1, THEN mp]) simp
  let ?run = "start_ingestor sync_libs sample_config sample_start sample_db"
  have "(case fst ?run of Inr sv \<Rightarrow> sv_market_ids sv = [9, 8, 7] | _ \<Rightarrow> False)" by code_simp
  then obtain sv db' where r: "?run = (Inr sv, db')" "sv_market_ids sv = [9, 8, 7]"
    by (cases ?run) (auto split: sum.splits)
  from start_needs_settings [of sample_config sync_libs sample_start sample_db sv db', THEN conjunct2] r(1)
  have "distinct (sv_market_ids sv) \<and> dom (load_symbol_cache db') = set (sv_market_ids sv)" by metis
  moreover have "set (sv_market_ids sv) = {7, 8, 9}" using r(2) by auto
  ultimately show "\<exists>sv db'. start_ingestor sync_libs sample_config sample_start sample_db = (Inr sv, db')
        \<and> sv_market_ids sv = [9, 8, 7] \<and> distinct (sv_market_ids sv) \<and> dom (load_symbol_cache db') = {7, 8, 9}"
    using r by (intro exI [of _ sv] exI [of _ db']) simp
qed

end
