(* ===== verification/Sample_Life.thy ===== *)
theory Sample_Life
  imports Retention Funding_Props Ingestor_Props
begin

text \<open>
  A concrete life of the service, from an empty table of the sample database: a start that adds a market,
  a connection that gets one complete book, its row on the way through channel and batch into the table,
  and a poll that stores two settlements; then a snapshot tick and a drop of the row that was stored.
\<close>

definition life_answers :: "int \<Rightarrow> server \<Rightarrow> bool" where
  "life_answers k server = serves funding_libs (\<lambda>t. t) k (btc_settlements k) server"

abbreviation life_run :: "(int, int, int) life \<Rightarrow> (int, int, int) life \<Rightarrow> bool" where
  "life_run \<equiv> life_step funding_libs sample_config life_answers"

definition life_start :: start_env where
  "life_start = sample_start\<lparr>st_key_order := (\<lambda>k. k)\<rparr>"

definition db0 :: "(int, int, int) db" where
  "db0 = sample_db\<lparr>db_symbols := sample_symbols @
       [\<lparr>sym_id = 3, sym_name = ''SOL'', sym_market_id = 9, sym_market_type = ''perp''\<rparr>], db_next_symbol := 5\<rparr>"

definition others :: "perp_market list" where
  "others = [\<lparr>pm_symbol_id = 2, pm_name = ''ETH'', pm_market_id = 8\<rparr>,
     \<lparr>pm_symbol_id = 3, pm_name = ''SOL'', pm_market_id = 9\<rparr>]"

definition sv0 :: "int services" where
  "sv0 = \<lparr>sv_symbol_cache = load_symbol_cache db0, sv_market_ids = [7, 8, 9], sv_perp_markets = btc # others,
     sv_backfill_start = 0, sv_poll_interval = 60, sv_snapshot_interval = 600\<rparr>"

definition c1 :: "(int, int, int) conn" where
  "c1 = snd (ws_write_all (subscriptions (sv_market_ids sv0)) (fresh_conn True None))"

definition p1 :: "(int, int, int) process" where
  "p1 = (started sv0)\<lparr>pr_conn := Some c1\<rparr>"

definition e2 :: "(ws_error + unit) \<times> (int, int, int) conn" where
  "e2 = on_event funding_libs (sv_market_ids sv0) (sv_symbol_cache sv0) (text_event ''snapshot'') c1"

definition p2 :: "(int, int, int) process" where
  "p2 = p1\<lparr>pr_conn := (if isl (fst e2) then None else Some (snd e2)),
     pr_pending := drop (length (cn_rows c1)) (cn_rows (snd e2))\<rparr>"

definition row :: "(int, int) write_msg" where
  "row = hd (pr_pending p2)"

definition p3 :: "(int, int, int) process" where
  "p3 = p2\<lparr>pr_pending := [], pr_queue := [row]\<rparr>"

definition p4 :: "(int, int, int) process" where
  "p4 = p2\<lparr>pr_pending := [], pr_queue := [], pr_batch := [row]\<rparr>"

definition p5 :: "(int, int, int) process" where
  "p5 = p2\<lparr>pr_pending := [], pr_queue := [], pr_batch := []\<rparr>"

definition db5 :: "(int, int, int) db" where
  "db5 = stored db0 [row]"

definition p6 :: "(int, int, int) process" where
  "p6 = p5\<lparr>pr_poller := PollAt btc 0 others\<rparr>"

definition db7 :: "(int, int, int) db" where
  "db7 = snd (poll_round funding_libs btc 0 0 at_8000 db5)"

definition p7 :: "(int, int, int) process" where
  "p7 = p5\<lparr>pr_poller := PollNext others\<rparr>"

lemma synced: "sync_symbols funding_libs (st_order_books life_start) (st_commit life_start) sample_db = (Inr (), db0)"
proof -
  let ?r = "sync_symbols funding_libs (st_order_books life_start) (st_commit life_start) sample_db"
  have "\<not> isl (fst ?r)" and "snd ?r = db0" by code_simp+
  then show ?thesis by (cases "fst ?r") (simp_all add: prod_eq_iff)
qed

lemma keys0: "cache_keys (\<lambda>k. k) db0 = [7, 8, 9]" by code_simp

lemma perp0: "load_perp_markets db0 = btc # others" by code_simp

lemma boot: "life_run \<lparr>li_db = sample_db, li_proc = None\<rparr> \<lparr>li_db = db0, li_proc = Some (started sv0)\<rparr>"
proof (rule life_step.boot)
  show "start_ingestor funding_libs sample_config life_start sample_db = (Inr sv0, db0)"
    by (simp add: start_ingestor_def sample_config_def synced perp0 sv0_def Let_def)
      (simp add: life_start_def sample_start_def keys0)
qed

lemma connect: "life_run \<lparr>li_db = db0, li_proc = Some (started sv0)\<rparr> \<lparr>li_db = db0, li_proc = Some p1\<rparr>"
proof -
  have "ws_write_all (subscriptions (sv_market_ids sv0)) (fresh_conn True None) = (Inr (), c1)"
    unfolding c1_def by (subst (1 2) ws_write_all_healthy) (simp_all add: fresh_conn_def)
  then show ?thesis
    unfolding p1_def by (intro life_step.connected) (simp_all add: started_def)
qed

lemma handle: "life_run \<lparr>li_db = db0, li_proc = Some p1\<rparr> \<lparr>li_db = db0, li_proc = Some p2\<rparr>"
  unfolding p2_def
  by (rule life_step.handled [where ev = "text_event ''snapshot''"]) (simp_all add: p1_def started_def e2_def)

lemma pending2: "pr_pending p2 = [row]"
proof -
  have "length (pr_pending p2) = 1" by code_simp
  then show ?thesis by (auto simp: length_Suc_conv row_def)
qed

lemma idle2: "pr_queue p2 = [] \<and> pr_batch p2 = [] \<and> pr_services p2 = sv0 \<and> pr_poller p2 = PollNext (btc # others)"
  by (simp add: p2_def p1_def started_def sv0_def)

lemma deliver: "life_run \<lparr>li_db = db0, li_proc = Some p2\<rparr> \<lparr>li_db = db0, li_proc = Some p3\<rparr>"
  using life_step.delivered [OF pending2, of funding_libs sample_config life_answers db0] idle2
  by (simp add: p3_def WRITE_CHANNEL_CAPACITY_def)

lemma receive: "life_run \<lparr>li_db = db0, li_proc = Some p3\<rparr> \<lparr>li_db = db0, li_proc = Some p4\<rparr>"
  using life_step.received [of p3 row "[]" funding_libs sample_config life_answers db0 NoFault] idle2
  by (simp add: p3_def p4_def after_writer_def writer_of_def BATCH_CAPACITY_def)

lemma tick: "life_run \<lparr>li_db = db0, li_proc = Some p4\<rparr> \<lparr>li_db = db5, li_proc = Some p5\<rparr>"
proof -
  have "acceptable db0 row" by code_simp
  then have "flush NoFault (writer_of db0 [row]) = writer_of db5 []"
    by (simp add: flush_NoFault writer_of_def db5_def)
  with life_step.ticked [of funding_libs sample_config life_answers db0 p4 NoFault] idle2 show ?thesis
    by (simp add: p4_def p5_def after_writer_def writer_of_def)
qed

lemma poll_begin: "life_run \<lparr>li_db = db5, li_proc = Some p5\<rparr> \<lparr>li_db = db5, li_proc = Some p6\<rparr>"
proof -
  have "poll_start funding_libs btc (sv_backfill_start (pr_services p5)) True db5 = Inr 0"
    using btc_start idle2
    by (simp add: poll_start_def with_conn_def newest_funding_time_def funding_times_def db5_def stored_def db0_def
        sample_db_def p5_def sv0_def)
  with life_step.poll_begun [OF _ this, of others sample_config life_answers] idle2 show ?thesis
    by (simp add: p5_def p6_def)
qed

lemma poll_turn: "life_run \<lparr>li_db = db5, li_proc = Some p6\<rparr> \<lparr>li_db = db7, li_proc = Some p7\<rparr>"
proof -
  let ?r = "poll_round funding_libs btc 0 0 at_8000 db5"
  have "(case fst ?r of Inl Polled \<Rightarrow> True | _ \<Rightarrow> False)" by code_simp
  then have "?r = (Inl Polled, db7)"
    by (auto simp: db7_def prod_eq_iff split: sum.splits poll_outcome.splits)
  then have "poll_round funding_libs btc (sv_backfill_start (pr_services p6)) 0 at_8000 db5 = (Inl Polled, db7)"
    using idle2 by (simp add: p5_def p6_def sv0_def)
  with life_step.poll_turned [OF _ _ this, of others life_answers sample_config] show ?thesis
    by (simp add: p6_def p7_def life_answers_def btc_settlements_def btc_def at_8000_def settlement_server_serves)
qed

lemma life_sample_reach2: "life_reach funding_libs sample_config life_answers sample_db \<lparr>li_db = db0, li_proc = Some p2\<rparr>"
  by (rule life_reach.step [OF life_reach.step [OF life_reach.step [OF life_reach.initial boot] connect] handle])

lemma life_sample_reach7: "life_reach funding_libs sample_config life_answers sample_db \<lparr>li_db = db7, li_proc = Some p7\<rparr>"
  by (rule life_reach.step [OF life_reach.step [OF life_reach.step [OF life_reach.step [OF life_reach.step
      [OF life_sample_reach2 deliver] receive] tick] poll_begin] poll_turn])

lemma btc_row7: "\<lparr>sym_id = 1, sym_name = ''BTC'', sym_market_id = 7, sym_market_type = ''perp''\<rparr> \<in> set (db_symbols db7)"
proof -
  have "list_ex (\<lambda>r. sym_id r = 1 \<and> sym_name r = ''BTC'' \<and> sym_market_id r = 7 \<and> sym_market_type r = ''perp'')
    (db_symbols db7)" by code_simp
  then obtain r where r: "r \<in> set (db_symbols db7)" and "sym_id r = 1" "sym_name r = ''BTC''"
    "sym_market_id r = 7" "sym_market_type r = ''perp''"
    unfolding list_ex_iff by blast
  then have "r = \<lparr>sym_id = 1, sym_name = ''BTC'', sym_market_id = 7, sym_market_type = ''perp''\<rparr>" by simp
  with r show ?thesis by simp
qed

lemma sample_db_new: "db_orderbooks sample_db = []" "db_fundings sample_db = []"
  by (simp_all add: sample_db_def)

text \<open>A snapshot tick, and then the retention policy drops the row that is in the table.\<close>

definition e8 :: "(ws_error + unit) \<times> (int, int, int) conn" where
  "e8 = on_event funding_libs (sv_market_ids sv0) (sv_symbol_cache sv0) (SnapshotTick [7]) (snd e2)"

definition p8 :: "(int, int, int) process" where
  "p8 = p7\<lparr>pr_conn := Some (snd e8), pr_pending := drop (length (cn_rows (snd e2))) (cn_rows (snd e8))\<rparr>"

definition db9 :: "(int, int, int) db" where
  "db9 = drop_before 1000000000000 db7"

lemma snapshot_tick: "life_run \<lparr>li_db = db7, li_proc = Some p7\<rparr> \<lparr>li_db = db7, li_proc = Some p8\<rparr>"
proof -
  have c: "pr_conn p7 = Some (snd e2)"
  proof -
    have "\<not> isl (fst e2)" by code_simp
    then show ?thesis by (simp add: p7_def p5_def p2_def)
  qed
  have i: "pr_pending p7 = []" "pr_services p7 = sv0" using idle2 by (simp_all add: p7_def p5_def)
  have ok: "\<not> isl (fst e8)" by code_simp
  from life_step.handled [OF c, where ev = "SnapshotTick [7]" and L = funding_libs and r = "fst e8" and c' = "snd e8"] i ok
  show ?thesis by (simp add: e8_def p8_def)
qed

lemma kept_sample_reach9:
  "kept_reach funding_libs sample_config life_answers sample_db (db_orderbooks db7) \<lparr>li_db = db9, li_proc = Some p8\<rparr>"
proof -
  from life_reach_kept [OF life_reach.step [OF life_sample_reach7 snapshot_tick]]
  have "kept_reach funding_libs sample_config life_answers sample_db (db_orderbooks db7) \<lparr>li_db = db7, li_proc = Some p8\<rparr>"
    by simp
  from kept_reach.retention [OF this, of 1000000000000] show ?thesis by (simp add: db9_def)
qed

section \<open>Readers\<close>

lemma life_text_round_trip: "text_round_trip funding_libs"
proof -
  let ?names = "['''', ''1'', ''2'', ''12'', ''new'', ''snapshot'', ''delta'', ''bids'', ''asks'']"
  have "distinct ?names" by code_simp
  then show ?thesis
    unfolding text_round_trip_def funding_libs_def by (intro allI impI sample_text_round_trip) simp_all
qed

end
