(* ===== verification/Schema.thy ===== *)
theory Schema
  imports Ingestor
begin

text \<open>
  \<^verbatim>\<open>src/schema.rs\<close>, the columns of the four tables, and what \<^verbatim>\<open>#[derive(Insertable)]\<close> makes of the rows of
  \<^verbatim>\<open>src/models.rs\<close>: one value for each field, under the name of its column. A row fits a table when every
  column but the generated \<^verbatim>\<open>id\<close> has a value of its type. The theory shows that all rows the ingestor
  makes fit, in particular that every integer is in the range of its column.
\<close>

section \<open>Tables\<close>

datatype sql_type =
    Timestamptz
  | Int4
  | Int8
  | Float8
  | Numeric
  | Text
  | Varchar nat
  | Jsonb
  | Bool
  | Nullable sql_type

datatype ('t, 'f, 'd) sql_value =
    SqlTime 't
  | SqlInt int
  | SqlFloat 'f
  | SqlNumeric 'd
  | SqlText string
  | SqlJson json
  | SqlBool bool
  | SqlNull

record table =
  tb_name :: string
  tb_key :: "string list"
  tb_columns :: "(string \<times> sql_type) list"

definition funding_rates :: table where
  "funding_rates = \<lparr>tb_name = ''funding_rates'', tb_key = [''symbol'', ''time''], tb_columns = [
     (''time'', Timestamptz), (''symbol'', Int4), (''rate'', Numeric), (''direction'', Text)]\<rparr>"

definition orderbook_messages :: table where
  "orderbook_messages = \<lparr>tb_name = ''orderbook_messages'', tb_key = [''time'', ''id''], tb_columns = [
     (''id'', Int8), (''time'', Timestamptz), (''symbol'', Int4), (''message_type'', Text),
     (''sequence'', Nullable Int8), (''bids'', Jsonb), (''asks'', Jsonb), (''begin_nonce'', Nullable Int8)]\<rparr>"

definition symbols :: table where
  "symbols = \<lparr>tb_name = ''symbols'', tb_key = [''id''], tb_columns = [
     (''id'', Int4), (''name'', Varchar 255), (''lighter_market_id'', Int4), (''market_type'', Text)]\<rparr>"

definition trades :: table where
  "trades = \<lparr>tb_name = ''trades'', tb_key = [''time'', ''id''], tb_columns = [
     (''id'', Int8), (''time'', Timestamptz), (''symbol'', Int4), (''lighter_trade_id'', Int8),
     (''price'', Float8), (''size'', Float8), (''is_maker_ask'', Bool), (''trade_type'', Text)]\<rparr>"

text \<open>\<^verbatim>\<open>joinable!\<close>: a table, the table it refers to, and its column that does.\<close>

definition joinable :: "(string \<times> string \<times> string) list" where
  "joinable = [(''funding_rates'', ''symbols'', ''symbol''), (''orderbook_messages'', ''symbols'', ''symbol''),
     (''trades'', ''symbols'', ''symbol'')]"

definition same_query :: "table list" where
  "same_query = [funding_rates, orderbook_messages, symbols, trades]"

section \<open>Rows as values\<close>

fun fits :: "sql_type \<Rightarrow> ('t, 'f, 'd) sql_value \<Rightarrow> bool" where
  "fits Timestamptz (SqlTime t) = True"
| "fits Int4 (SqlInt n) = in_i32 n"
| "fits Int8 (SqlInt n) = in_i64 n"
| "fits Float8 (SqlFloat x) = True"
| "fits Numeric (SqlNumeric d) = True"
| "fits Text (SqlText s) = True"
| "fits (Varchar n) (SqlText s) = (length s \<le> n)"
| "fits Jsonb (SqlJson j) = True"
| "fits Bool (SqlBool b) = True"
| "fits (Nullable ty) SqlNull = True"
| "fits (Nullable ty) v = fits ty v"
| "fits _ _ = False"

type_synonym ('t, 'f, 'd) sql_row = "(string \<times> ('t, 'f, 'd) sql_value) list"

definition row_fits :: "table \<Rightarrow> ('t, 'f, 'd) sql_row \<Rightarrow> bool" where
  "row_fits table row \<longleftrightarrow>
     list_all (\<lambda>(column, ty). column = ''id'' \<or> (case map_of row column of None \<Rightarrow> False | Some v \<Rightarrow> fits ty v))
       (tb_columns table)
   \<and> list_all (\<lambda>(column, v). column \<in> fst ` set (tb_columns table)) row"

definition sql_nullable :: "('a \<Rightarrow> ('t, 'f, 'd) sql_value) \<Rightarrow> 'a option \<Rightarrow> ('t, 'f, 'd) sql_value" where
  "sql_nullable f x = (case x of None \<Rightarrow> SqlNull | Some a \<Rightarrow> f a)"

definition new_symbol_values :: "new_symbol \<Rightarrow> ('t, 'f, 'd) sql_row" where
  "new_symbol_values r = [(''name'', SqlText (new_name r)), (''market_type'', SqlText (new_market_type r)),
     (''lighter_market_id'', SqlInt (new_market_id r))]"

definition trade_values :: "('t, 'f) trade_row \<Rightarrow> ('t, 'f, 'd) sql_row" where
  "trade_values r = [(''time'', SqlTime (tw_time r)), (''symbol'', SqlInt (tw_symbol r)),
     (''lighter_trade_id'', SqlInt (tw_trade_id r)), (''price'', SqlFloat (tw_price r)),
     (''size'', SqlFloat (tw_size r)), (''is_maker_ask'', SqlBool (tw_is_maker_ask r)),
     (''trade_type'', SqlText (tw_type r))]"

definition funding_values :: "('t, 'd) funding_row \<Rightarrow> ('t, 'f, 'd) sql_row" where
  "funding_values r = [(''time'', SqlTime (fw_time r)), (''symbol'', SqlInt (fw_symbol r)),
     (''rate'', SqlNumeric (fw_rate r)), (''direction'', SqlText (fw_direction r))]"

definition orderbook_values :: "'t ob_row \<Rightarrow> ('t, 'f, 'd) sql_row" where
  "orderbook_values r = [(''time'', SqlTime (obr_time r)), (''symbol'', SqlInt (obr_symbol r)),
     (''message_type'', SqlText (obr_type r)), (''sequence'', sql_nullable SqlInt (obr_sequence r)),
     (''bids'', SqlJson (obr_bids r)), (''asks'', SqlJson (obr_asks r)),
     (''begin_nonce'', sql_nullable SqlInt (obr_begin_nonce r))]"

fun msg_fits :: "('t, 'f) write_msg \<Rightarrow> bool" where
  "msg_fits (WTrade r) = row_fits trades (trade_values r :: ('t, 'f, unit) sql_row)"
| "msg_fits (WOrderbook r) = row_fits orderbook_messages (orderbook_values r :: ('t, 'f, unit) sql_row)"

declare msg_fits.simps [simp del]

lemmas table_defs = trades_def orderbook_messages_def funding_rates_def symbols_def

lemma fits_nullable [simp]: "fits (Nullable Int8) (sql_nullable SqlInt x) \<longleftrightarrow> (\<forall>n. x = Some n \<longrightarrow> in_i64 n)"
  by (cases x) (simp_all add: sql_nullable_def)

lemma trade_row_fits [simp]:
  "row_fits trades (trade_values r) \<longleftrightarrow> in_i32 (tw_symbol r) \<and> in_i64 (tw_trade_id r)"
  by (auto simp: row_fits_def trade_values_def table_defs)

lemma orderbook_row_fits [simp]:
  "row_fits orderbook_messages (orderbook_values r) \<longleftrightarrow> in_i32 (obr_symbol r)
     \<and> (\<forall>n. obr_sequence r = Some n \<longrightarrow> in_i64 n) \<and> (\<forall>n. obr_begin_nonce r = Some n \<longrightarrow> in_i64 n)"
  by (auto simp: row_fits_def orderbook_values_def table_defs)

lemma funding_row_fits [simp]: "row_fits funding_rates (funding_values r) \<longleftrightarrow> in_i32 (fw_symbol r)"
  by (auto simp: row_fits_def funding_values_def table_defs)

lemma new_symbol_fits [simp]:
  "row_fits symbols (new_symbol_values r) \<longleftrightarrow> length (new_name r) \<le> 255 \<and> in_i32 (new_market_id r)"
  by (auto simp: row_fits_def new_symbol_values_def table_defs)

lemmas msg_fits_iff [simp] = msg_fits.simps [unfolded trade_row_fits orderbook_row_fits]

section \<open>Rows of connections\<close>

lemma de_order_book_ranges:
  assumes "de_order_book_ws_message value = Some m"
  shows "case m of ObSubscribed _ _ b \<Rightarrow> in_i64 (ob_nonce b) \<and> in_i64 (ob_begin_nonce b)
      | ObUpdate _ _ b \<Rightarrow> in_i64 (ob_nonce b) \<and> in_i64 (ob_begin_nonce b)"
proof -
  have v: "case m of ObSubscribed _ _ b \<Rightarrow> in_i64 (ob_nonce b) \<and> in_i64 (ob_begin_nonce b)
      | ObUpdate _ _ b \<Rightarrow> in_i64 (ob_nonce b) \<and> in_i64 (ob_begin_nonce b)"
    if "de_ob_variant C j = Some m" "C = ObSubscribed \<or> C = ObUpdate" for C j
    using that by (auto simp: de_ob_variant_def field_def split: option.splits dest!: de_side_levels_ranges)
  from assms show ?thesis
    by (auto simp: de_order_book_ws_message_def de_tagged_def split: json.splits list.splits prod.splits
        option.splits if_splits intro: v)
qed

lemma de_trade_range: "de_trade j = Some t \<Longrightarrow> in_i64 (trade_id t)"
  by (auto simp: de_trade_def field_def split: option.splits dest!: de_int_range)

lemma de_trade_ws_ranges:
  assumes "de_trade_ws_message value = Some m" and "tr_trades m = (ts, ls)" and "t \<in> set (ts @ ls)"
  shows "in_i64 (trade_id t)"
proof -
  have v: "in_i64 (trade_id t)" if "de_tr_variant C j = Some m" "C = TrSubscribed \<or> C = TrUpdate" for C j
    using that assms(2,3) de_vec_all [of de_trade _ _ "\<lambda>t. in_i64 (trade_id t)" t] de_trade_range
    by (auto simp: de_tr_variant_def field_def split: option.splits)
  from assms(1) show ?thesis
    by (auto simp: de_trade_ws_message_def de_tagged_def split: json.splits list.splits prod.splits
        option.splits if_splits intro: v)
qed

definition nonces_fit :: "('d, 't) markets \<Rightarrow> bool" where
  "nonces_fit markets \<longleftrightarrow> (\<forall>k mk. markets k = Some mk \<longrightarrow> in_i64 (mb_nonce mk))"

definition conn_fits :: "('d, 't, 'f) conn \<Rightarrow> bool" where
  "conn_fits c \<longleftrightarrow> (\<forall>m \<in> set (cn_rows c). msg_fits m) \<and> nonces_fit (cn_markets c)"

definition ids_fit :: "(int \<rightharpoonup> int) \<Rightarrow> bool" where
  "ids_fit cache \<longleftrightarrow> (\<forall>s \<in> ran cache. in_i32 s)"

lemma ids_fit_lookup: "ids_fit cache \<Longrightarrow> cache k = Some s \<Longrightarrow> in_i32 s"
  by (auto simp: ids_fit_def intro: ranI)

lemma apply_orderbook_fits:
  assumes "apply_orderbook_message L symbol k msg ms = (r, ms')"
    and "case msg of ObSubscribed _ _ b \<Rightarrow> in_i64 (ob_nonce b) \<and> in_i64 (ob_begin_nonce b)
      | ObUpdate _ _ b \<Rightarrow> in_i64 (ob_nonce b) \<and> in_i64 (ob_begin_nonce b)"
    and "nonces_fit ms" and "in_i32 symbol"
  shows "nonces_fit ms' \<and> (\<forall>row. r = Inr row \<longrightarrow> in_i32 (obr_symbol row)
       \<and> (\<forall>n. obr_sequence row = Some n \<longrightarrow> in_i64 n) \<and> (\<forall>n. obr_begin_nonce row = Some n \<longrightarrow> in_i64 n))"
proof (cases msg)
  case (ObSubscribed ch at b)
  with assms show ?thesis by (auto simp: nonces_fit_def orderbook_row_def split: sum.splits if_splits)
next
  case (ObUpdate ch at b)
  with assms show ?thesis
    by (fastforce simp: nonces_fit_def orderbook_row_def split: option.splits sum.splits if_splits prod.splits)
qed

lemma conn_fits_rows:
  "conn_fits c \<Longrightarrow> cn_markets c' = cn_markets c \<Longrightarrow> cn_rows c' = cn_rows c \<Longrightarrow> conn_fits c'"
  by (simp add: conn_fits_def)

lemma handle_orderbook_fits:
  assumes c: "conn_fits c" and ids: "ids_fit cache" and run: "handle_orderbook_frame L cache value c = (r, c')"
  shows "conn_fits c'"
proof (cases "\<exists>parsed k s. de_order_book_ws_message value = Some parsed \<and> ob_market_id parsed = Some k \<and> cache k = Some s")
  case True
  then obtain parsed k s where p: "de_order_book_ws_message value = Some parsed" "ob_market_id parsed = Some k"
    "cache k = Some s" by blast
  obtain ra ms where ap: "apply_orderbook_message L s k parsed (cn_markets c) = (ra, ms)" by fastforce
  have "nonces_fit (cn_markets c)" using c by (simp add: conn_fits_def)
  from apply_orderbook_fits [OF ap de_order_book_ranges [OF p(1)] this ids_fit_lookup [OF ids p(3)]] c run p ap
  show ?thesis by (auto simp: handle_orderbook_frame_def tx_send_def conn_fits_def split: sum.splits if_splits)
next
  case False
  with run have "c' = c" by (auto simp: handle_orderbook_frame_def split: option.splits)
  with c show ?thesis by simp
qed

lemma send_trades_fits:
  "conn_fits c \<Longrightarrow> \<forall>t \<in> set ts. in_i64 (trade_id t) \<Longrightarrow> in_i32 symbol \<Longrightarrow> send_trades L symbol ts c = (r, c') \<Longrightarrow>
   conn_fits c'"
proof (induction ts arbitrary: c)
  case (Cons t ts)
  show ?case
  proof (cases "trade_row L t symbol")
    case (Inr row)
    then have "msg_fits (WTrade row)" using Cons.prems by (auto simp: trade_row_def)
    then have "conn_fits (c\<lparr>cn_rows := cn_rows c @ [WTrade row]\<rparr>)" using Cons.prems(1) by (auto simp: conn_fits_def)
    with Cons Inr show ?thesis by (auto simp: tx_send_def split: if_splits)
  qed (use Cons.prems in simp)
qed simp

lemma handle_trade_fits:
  assumes c: "conn_fits c" and ids: "ids_fit cache" and run: "handle_trade_frame L cache value c = (r, c')"
  shows "conn_fits c'"
proof (cases "\<exists>parsed k s. de_trade_ws_message value = Some parsed \<and> tr_ws_market_id parsed = Some k \<and> cache k = Some s")
  case True
  then obtain parsed k s where p: "de_trade_ws_message value = Some parsed" "tr_ws_market_id parsed = Some k"
    "cache k = Some s" by blast
  obtain ts ls where t: "tr_trades parsed = (ts, ls)" by fastforce
  with run p have "send_trades L s (ts @ ls) c = (r, c')" by (simp add: handle_trade_frame_def)
  with de_trade_ws_ranges [OF p(1) t] c ids_fit_lookup [OF ids p(3)] show ?thesis by (blast intro: send_trades_fits)
next
  case False
  with run have "c' = c" by (auto simp: handle_trade_frame_def split: option.splits)
  with c show ?thesis by simp
qed

lemma periodic_fits:
  "conn_fits c \<Longrightarrow> ids_fit cache \<Longrightarrow> write_periodic_snapshots cache ks c = (r, c') \<Longrightarrow> conn_fits c'"
proof (induction ks arbitrary: c)
  case (Cons k ks)
  show ?case
  proof (cases "\<exists>mk s. cn_markets c k = Some mk \<and> cache k = Some s \<and> cn_tx_open c")
    case True
    then obtain mk s where ks: "cn_markets c k = Some mk" "cache k = Some s" "cn_tx_open c" by blast
    have "in_i64 (mb_nonce mk)" using Cons.prems(1) ks(1) by (auto simp: conn_fits_def nonces_fit_def)
    with ids_fit_lookup [OF Cons.prems(2) ks(2)] Cons.prems(1)
    have "conn_fits (c\<lparr>cn_rows := cn_rows c @ [WOrderbook (book_snapshot_row s mk)]\<rparr>)"
      by (auto simp: conn_fits_def book_snapshot_row_def)
    from Cons.IH [OF this Cons.prems(2)] Cons.prems(3) ks show ?thesis by (simp add: tx_send_def)
  qed (use Cons in \<open>auto simp: tx_send_def split: option.splits\<close>)
qed simp

lemma on_event_fits:
  assumes c: "conn_fits c" and ids: "ids_fit cache" and run: "on_event L market_ids cache ev c = (r, c')"
  shows "conn_fits c'"
proof (cases ev)
  case (Frame item)
  then show ?thesis
  proof (cases item)
    case (Item m)
    have handled: "conn_fits d" if "handle_value L cache v c = (r, d)" for v d
      using that c ids
      by (auto simp: handle_value_def Let_def split: if_splits dest!: ws_write_frame
          intro: handle_orderbook_fits handle_trade_fits conn_fits_rows)
    with Item Frame run c show ?thesis by (cases m) (auto split: option.splits)
  qed (use Frame c run in auto)
next
  case (SnapshotTick order)
  with c ids run show ?thesis by (auto intro: periodic_fits)
next
  case KeepaliveTick
  with c run show ?thesis by (auto dest!: ws_write_frame intro: conn_fits_rows)
next
  case BookCheckTick
  with c run show ?thesis by (auto dest!: ws_write_all_frame intro: conn_fits_rows)
qed

lemma run_events_fits:
  "conn_fits c \<Longrightarrow> ids_fit cache \<Longrightarrow> run_events L market_ids cache evs c = (r, c') \<Longrightarrow> conn_fits c'"
proof (induction evs arbitrary: c)
  case (Cons ev evs)
  obtain r1 c1 where "on_event L market_ids cache ev c = (r1, c1)" by fastforce
  with on_event_fits [OF Cons.prems(1,2) this] Cons show ?case by (auto split: sum.splits)
qed simp

lemma session_fits:
  assumes "ids_fit cache" and "session_run L market_ids cache s = (r, c)"
  shows "conn_fits c"
proof -
  let ?c0 = "fresh_conn (ss_tx_open s) (ss_sink s) :: ('a, 'b, 'c) conn"
  have fresh: "conn_fits ?c0" by (simp add: conn_fits_def nonces_fit_def fresh_conn_def)
  obtain r1 c1 where w: "ws_write_all (subscriptions market_ids) ?c0 = (r1, c1)" by fastforce
  with fresh have "conn_fits c1" by (auto dest!: ws_write_all_frame intro: conn_fits_rows)
  with assms w fresh show ?thesis
    by (auto simp: session_run_def run_ws_ingestion_def split: if_splits sum.splits intro: run_events_fits)
qed

lemma ws_sessions_fit: "ids_fit cache \<Longrightarrow> m \<in> set (ws_sessions L market_ids cache ss) \<Longrightarrow> msg_fits m"
proof (induction ss)
  case (Cons s ss)
  obtain r c where run: "session_run L market_ids cache s = (r, c)" by fastforce
  then have "conn_fits c" by (rule session_fits [OF Cons.prems(1)])
  with Cons run show ?case by (auto simp: conn_fits_def split: sum.splits)
qed simp

lemma session_rows_fit_columns:
  assumes "db_inv db" and "list_all (\<lambda>r. in_i32 (sym_id r)) (db_symbols db)"
  shows "list_all msg_fits (ws_sessions L market_ids (load_symbol_cache db) sessions)"
proof -
  have "symbols_inv db" using assms(1) by (simp add: db_inv_def)
  with assms(2) have "ids_fit (load_symbol_cache db)"
    by (simp add: ids_fit_def load_symbol_cache_ran symbol_ids_def list_all_iff)
  then show ?thesis by (simp add: list_all_iff ws_sessions_fit)
qed

end
