(* ===== verification/Migrations.thy ===== *)
theory Migrations
  imports Schema
begin

text \<open>
  \<^verbatim>\<open>migrations/\<close>: the statements of each \<^verbatim>\<open>up.sql\<close> and \<^verbatim>\<open>down.sql\<close>, and what they do to the catalog of the
  database, in the subset of SQL that they use. A constraint or an index that a statement leaves
  unnamed gets the name that PostgreSQL gives it (\<^verbatim>\<open><table>_<column>_key\<close>, \<^verbatim>\<open>_check\<close>, \<^verbatim>\<open>_pkey\<close>). The bodies of the two
  trigger functions that diesel sets up, which nothing here uses, are left out.
  What the statements do to the rows of the tables, and which rows forbid them, is in theory \<open>Upgrades\<close>.
\<close>

section \<open>Catalogs\<close>

datatype pg_type =
    PgSerial
  | PgBigserial
  | PgInteger
  | PgBigint
  | PgDouble
  | PgNumeric
  | PgText
  | PgVarchar nat
  | PgJsonb
  | PgBoolean
  | PgTimestamptz

record pg_column =
  co_name :: string
  co_type :: pg_type
  co_not_null :: bool
  co_default :: "string option"

datatype pg_constraint =
    PrimaryKey "string list"
  | Unique "string list"
  | OneOf string "string list" bool     \<comment> \<open>\<^verbatim>\<open>CHECK (column IN (..))\<close>, and whether it is validated\<close>
  | ForeignKey string string string     \<comment> \<open>column, table and column that it refers to\<close>

fun mentions :: "string \<Rightarrow> pg_constraint \<Rightarrow> bool" where
  "mentions column (PrimaryKey columns) \<longleftrightarrow> column \<in> set columns"
| "mentions column (Unique columns) \<longleftrightarrow> column \<in> set columns"
| "mentions column (OneOf c values valid) \<longleftrightarrow> column = c"
| "mentions column (ForeignKey c table target) \<longleftrightarrow> column = c"

record pg_table =
  pt_name :: string
  pt_columns :: "pg_column list"
  pt_constraints :: "(string \<times> pg_constraint) list"
  pt_hypertable :: "string option"      \<comment> \<open>the partition column\<close>

text \<open>The columns of an index, each with whether it is descending.\<close>

record pg_index =
  ix_name :: string
  ix_table :: string
  ix_method :: string
  ix_unique :: bool
  ix_columns :: "(string \<times> bool) list"
  ix_predicate :: "(string \<times> string) option"

record catalog =
  ca_extensions :: "string list"
  ca_functions :: "string list"
  ca_tables :: "pg_table list"
  ca_indexes :: "pg_index list"
  ca_retention :: "(string \<times> nat) list"    \<comment> \<open>table and days\<close>

definition no_catalog :: catalog where
  "no_catalog = \<lparr>ca_extensions = [], ca_functions = [], ca_tables = [], ca_indexes = [], ca_retention = []\<rparr>"

definition table_named :: "string \<Rightarrow> catalog \<Rightarrow> pg_table option" where
  "table_named name cat = find (\<lambda>t. pt_name t = name) (ca_tables cat)"

definition index_named :: "string \<Rightarrow> catalog \<Rightarrow> pg_index option" where
  "index_named name cat = find (\<lambda>i. ix_name i = name) (ca_indexes cat)"

definition change_table :: "string \<Rightarrow> (pg_table \<Rightarrow> pg_table) \<Rightarrow> catalog \<Rightarrow> catalog" where
  "change_table name f cat =
     cat\<lparr>ca_tables := map (\<lambda>t. if pt_name t = name then f t else t) (ca_tables cat)\<rparr>"

text \<open>The other tables that refer to a table.\<close>

definition referrers :: "string \<Rightarrow> catalog \<Rightarrow> string list" where
  "referrers name cat = [pt_name t. t \<leftarrow> ca_tables cat, pt_name t \<noteq> name,
     (_, c) \<leftarrow> pt_constraints t, case c of ForeignKey column table target \<Rightarrow> table = name | _ \<Rightarrow> False]"

section \<open>Statements\<close>

datatype ddl_error =
    UndefinedObject string
  | DuplicateObject string
  | DependentObjects string
  | IncompatibleIndex string

text \<open>The flag of a statement is its \<^verbatim>\<open>IF EXISTS\<close> or \<^verbatim>\<open>IF NOT EXISTS\<close>.\<close>

datatype statement =
    CreateExtension string
  | DropExtension string
  | CreateFunction string
  | DropFunction string
  | CreateTable pg_table
  | DropTable string
  | AddColumn bool string pg_column "(string \<times> pg_constraint) list"
  | DropColumn bool string string
  | DropDefault string string
  | AddConstraint string string pg_constraint
  | DropConstraint string string
  | CreateIndex bool pg_index
  | EnsureIndex pg_index                \<comment> \<open>the block of the last migration: create it, or check the one that is there\<close>
  | DropIndex string
  | AddRetention string nat

definition on_table ::
  "string \<Rightarrow> catalog \<Rightarrow> (pg_table \<Rightarrow> ddl_error + pg_table) \<Rightarrow> ddl_error + catalog" where
  "on_table name cat f =
     (case table_named name cat of
        None \<Rightarrow> Inl (UndefinedObject name)
      | Some t \<Rightarrow> and_then (f t) (\<lambda>t'. Inr (change_table name (\<lambda>_. t') cat)))"

fun exec :: "statement \<Rightarrow> catalog \<Rightarrow> ddl_error + catalog" where
  "exec (CreateExtension name) cat =
     Inr (if name \<in> set (ca_extensions cat) then cat else cat\<lparr>ca_extensions := ca_extensions cat @ [name]\<rparr>)"
| "exec (DropExtension name) cat =
     (if name = ''timescaledb'' \<and> list_ex (\<lambda>t. pt_hypertable t \<noteq> None) (ca_tables cat)
      then Inl (DependentObjects name)
      else Inr (cat\<lparr>ca_extensions := removeAll name (ca_extensions cat)\<rparr>))"
| "exec (CreateFunction name) cat = Inr (cat\<lparr>ca_functions := List.insert name (ca_functions cat)\<rparr>)"
| "exec (DropFunction name) cat = Inr (cat\<lparr>ca_functions := removeAll name (ca_functions cat)\<rparr>)"
| "exec (CreateTable t) cat =
     (if table_named (pt_name t) cat \<noteq> None then Inr cat
      else if list_ex (\<lambda>(_, c). case c of
          ForeignKey column table target \<Rightarrow> table \<noteq> pt_name t \<and> table_named table cat = None | _ \<Rightarrow> False)
          (pt_constraints t)
      then Inl (UndefinedObject (pt_name t))
      else Inr (cat\<lparr>ca_tables := ca_tables cat @ [t]\<rparr>))"
| "exec (DropTable name) cat =
     (if referrers name cat \<noteq> [] then Inl (DependentObjects name)
      else Inr (cat\<lparr>ca_tables := filter (\<lambda>t. pt_name t \<noteq> name) (ca_tables cat),
                    ca_indexes := filter (\<lambda>i. ix_table i \<noteq> name) (ca_indexes cat),
                    ca_retention := filter (\<lambda>(table, _). table \<noteq> name) (ca_retention cat)\<rparr>))"
| "exec (AddColumn if_not_exists name column cs) cat =
     on_table name cat (\<lambda>t.
       if co_name column \<in> co_name ` set (pt_columns t)
       then (if if_not_exists then Inr t else Inl (DuplicateObject (co_name column)))
       else Inr (t\<lparr>pt_columns := pt_columns t @ [column], pt_constraints := pt_constraints t @ cs\<rparr>))"
| "exec (DropColumn if_exists name column) cat =
     and_then (on_table name cat (\<lambda>t.
       if column \<in> co_name ` set (pt_columns t)
       then Inr (t\<lparr>pt_columns := filter (\<lambda>c. co_name c \<noteq> column) (pt_columns t),
                   pt_constraints := filter (\<lambda>(_, c). \<not> mentions column c) (pt_constraints t)\<rparr>)
       else if if_exists then Inr t else Inl (UndefinedObject column)))
     (\<lambda>cat'. Inr (cat'\<lparr>ca_indexes :=
        filter (\<lambda>i. \<not> (ix_table i = name \<and> column \<in> fst ` set (ix_columns i))) (ca_indexes cat')\<rparr>))"
| "exec (DropDefault name column) cat =
     on_table name cat (\<lambda>t.
       if column \<in> co_name ` set (pt_columns t)
       then Inr (t\<lparr>pt_columns := map (\<lambda>c. if co_name c = column then c\<lparr>co_default := None\<rparr> else c) (pt_columns t)\<rparr>)
       else Inl (UndefinedObject column))"
| "exec (AddConstraint name cname c) cat =
     on_table name cat (\<lambda>t.
       if cname \<in> fst ` set (pt_constraints t) then Inl (DuplicateObject cname)
       else Inr (t\<lparr>pt_constraints := pt_constraints t @ [(cname, c)]\<rparr>))"
| "exec (DropConstraint name cname) cat =
     on_table name cat (\<lambda>t. Inr (t\<lparr>pt_constraints := filter (\<lambda>(n, _). n \<noteq> cname) (pt_constraints t)\<rparr>))"
| "exec (CreateIndex if_not_exists i) cat =
     (if table_named (ix_table i) cat = None then Inl (UndefinedObject (ix_table i))
      else if index_named (ix_name i) cat \<noteq> None
      then (if if_not_exists then Inr cat else Inl (DuplicateObject (ix_name i)))
      else Inr (cat\<lparr>ca_indexes := ca_indexes cat @ [i]\<rparr>))"
| "exec (EnsureIndex i) cat =
     (if table_named (ix_table i) cat = None then Inl (UndefinedObject (ix_table i))
      else (case index_named (ix_name i) cat of
        None \<Rightarrow> Inr (cat\<lparr>ca_indexes := ca_indexes cat @ [i]\<rparr>)
      | Some j \<Rightarrow> if j\<lparr>ix_unique := ix_unique i\<rparr> = i then Inr cat else Inl (IncompatibleIndex (ix_name i))))"
| "exec (DropIndex name) cat = Inr (cat\<lparr>ca_indexes := filter (\<lambda>i. ix_name i \<noteq> name) (ca_indexes cat)\<rparr>)"
| "exec (AddRetention name days) cat =
     (if table_named name cat = None then Inl (UndefinedObject name)
      else Inr (cat\<lparr>ca_retention := (if name \<in> fst ` set (ca_retention cat) then ca_retention cat
                                   else ca_retention cat @ [(name, days)])\<rparr>))"

fun exec_all :: "statement list \<Rightarrow> catalog \<Rightarrow> ddl_error + catalog" where
  "exec_all [] cat = Inr cat"
| "exec_all (s # ss) cat = and_then (exec s cat) (exec_all ss)"

section \<open>The migrations\<close>

definition col :: "string \<Rightarrow> pg_type \<Rightarrow> pg_column" where
  "col name ty = \<lparr>co_name = name, co_type = ty, co_not_null = True, co_default = None\<rparr>"

definition nullable_col :: "string \<Rightarrow> pg_type \<Rightarrow> pg_column" where
  "nullable_col name ty = (col name ty)\<lparr>co_not_null := False\<rparr>"

definition btree :: "string \<Rightarrow> string \<Rightarrow> (string \<times> bool) list \<Rightarrow> pg_index" where
  "btree name table columns = \<lparr>ix_name = name, ix_table = table, ix_method = ''btree'', ix_unique = False,
     ix_columns = columns, ix_predicate = None\<rparr>"

definition symbols_v1 :: pg_table where
  "symbols_v1 = \<lparr>pt_name = ''symbols'',
     pt_columns = [col ''id'' PgSerial, col ''name'' (PgVarchar 255), col ''lighter_market_id'' PgInteger],
     pt_constraints = [(''symbols_pkey'', PrimaryKey [''id'']), (''symbols_name_key'', Unique [''name'']),
       (''symbols_lighter_market_id_key'', Unique [''lighter_market_id''])],
     pt_hypertable = None\<rparr>"

definition trades_v1 :: pg_table where
  "trades_v1 = \<lparr>pt_name = ''trades'',
     pt_columns = [col ''id'' PgBigserial, col ''time'' PgTimestamptz, col ''symbol'' PgInteger,
       col ''lighter_trade_id'' PgBigint, col ''price'' PgDouble, col ''size'' PgDouble, col ''is_maker_ask'' PgBoolean],
     pt_constraints = [(''trades_pkey'', PrimaryKey [''time'', ''id'']),
       (''fk_symbol_trades'', ForeignKey ''symbol'' ''symbols'' ''id'')],
     pt_hypertable = Some ''time''\<rparr>"

definition orderbook_messages_v1 :: pg_table where
  "orderbook_messages_v1 = \<lparr>pt_name = ''orderbook_messages'',
     pt_columns = [col ''id'' PgBigserial, col ''time'' PgTimestamptz, col ''symbol'' PgInteger,
       col ''message_type'' PgText, nullable_col ''sequence'' PgBigint, col ''bids'' PgJsonb, col ''asks'' PgJsonb],
     pt_constraints = [(''orderbook_messages_message_type_check'', OneOf ''message_type'' [''snapshot'', ''delta''] True),
       (''orderbook_messages_pkey'', PrimaryKey [''time'', ''id'']),
       (''fk_symbol_orderbook_messages'', ForeignKey ''symbol'' ''symbols'' ''id'')],
     pt_hypertable = Some ''time''\<rparr>"

definition funding_rates_v1 :: pg_table where
  "funding_rates_v1 = \<lparr>pt_name = ''funding_rates'',
     pt_columns = [col ''time'' PgTimestamptz, col ''symbol'' PgInteger, col ''rate'' PgNumeric, col ''direction'' PgText],
     pt_constraints = [(''funding_rates_pkey'', PrimaryKey [''symbol'', ''time'']),
       (''fk_symbol_funding_rates'', ForeignKey ''symbol'' ''symbols'' ''id'')],
     pt_hypertable = Some ''time''\<rparr>"

record migration =
  mi_up :: "statement list"
  mi_down :: "statement list"

definition initial_setup :: migration where
  "initial_setup = \<lparr>
     mi_up = [CreateFunction ''diesel_manage_updated_at'', CreateFunction ''diesel_set_updated_at''],
     mi_down = [DropFunction ''diesel_manage_updated_at'', DropFunction ''diesel_set_updated_at'']\<rparr>"

definition install_timescaledb :: migration where
  "install_timescaledb = \<lparr>mi_up = [CreateExtension ''timescaledb''], mi_down = [DropExtension ''timescaledb'']\<rparr>"

definition lighter_tables_v1 :: migration where
  "lighter_tables_v1 = \<lparr>
     mi_up = [CreateExtension ''timescaledb'', CreateTable symbols_v1, CreateTable trades_v1,
       CreateIndex True (btree ''trades_symbol_lighter_trade_id_idx'' ''trades''
         [(''symbol'', False), (''lighter_trade_id'', True)]),
       CreateTable orderbook_messages_v1,
       CreateIndex True (btree ''orderbook_messages_symbol_time_idx'' ''orderbook_messages''
         [(''symbol'', False), (''time'', True)]),
       CreateIndex True ((btree ''orderbook_messages_time_brin'' ''orderbook_messages'' [(''time'', False)])
         \<lparr>ix_method := ''brin''\<rparr>),
       AddRetention ''orderbook_messages'' 4],
     mi_down = [DropTable ''orderbook_messages'', DropTable ''trades'', DropTable ''symbols'']\<rparr>"

definition trades_ws_and_dedup :: migration where
  "trades_ws_and_dedup = \<lparr>
     mi_up = [CreateIndex True ((btree ''trades_dedup_uniq'' ''trades''
         [(''time'', False), (''symbol'', False), (''lighter_trade_id'', False)])\<lparr>ix_unique := True\<rparr>),
       AddColumn True ''trades'' ((col ''trade_type'' PgText)\<lparr>co_default := Some ''trade''\<rparr>)
         [(''trades_trade_type_check'', OneOf ''trade_type'' [''trade'', ''liquidation''] True)],
       DropDefault ''trades'' ''trade_type''],
     mi_down = [DropColumn False ''trades'' ''trade_type'', DropIndex ''trades_dedup_uniq'']\<rparr>"

definition spot_market_support :: migration where
  "spot_market_support = \<lparr>
     mi_up = [AddColumn True ''symbols'' ((col ''market_type'' PgText)\<lparr>co_default := Some ''perp''\<rparr>)
         [(''symbols_market_type_check'', OneOf ''market_type'' [''perp'', ''spot''] True)],
       DropDefault ''symbols'' ''market_type'',
       DropConstraint ''symbols'' ''symbols_name_key'',
       CreateIndex True ((btree ''symbols_market_type_name_uniq'' ''symbols''
         [(''market_type'', False), (''name'', False)])\<lparr>ix_unique := True\<rparr>)],
     mi_down = [DropIndex ''symbols_market_type_name_uniq'', DropColumn True ''symbols'' ''market_type'',
       AddConstraint ''symbols'' ''symbols_name_key'' (Unique [''name''])]\<rparr>"

definition trade_type_values :: migration where
  "trade_type_values = \<lparr>
     mi_up = [DropConstraint ''trades'' ''trades_trade_type_check'',
       AddConstraint ''trades'' ''trades_trade_type_check''
         (OneOf ''trade_type'' [''trade'', ''liquidation'', ''deleverage'', ''market-settlement''] False)],
     mi_down = [DropConstraint ''trades'' ''trades_trade_type_check'',
       AddConstraint ''trades'' ''trades_trade_type_check'' (OneOf ''trade_type'' [''trade'', ''liquidation''] True)]\<rparr>"

definition funding_rates_migration :: migration where
  "funding_rates_migration = \<lparr>mi_up = [CreateTable funding_rates_v1], mi_down = [DropTable ''funding_rates'']\<rparr>"

definition orderbook_begin_nonce :: migration where
  "orderbook_begin_nonce = \<lparr>
     mi_up = [AddColumn False ''orderbook_messages'' (nullable_col ''begin_nonce'' PgBigint) []],
     mi_down = [DropColumn False ''orderbook_messages'' ''begin_nonce'']\<rparr>"

definition orderbook_read_indexes :: migration where
  "orderbook_read_indexes = \<lparr>
     mi_up = [EnsureIndex (btree ''orderbook_messages_symbol_id_idx'' ''orderbook_messages''
         [(''symbol'', False), (''id'', False)]),
       EnsureIndex ((btree ''orderbook_messages_snapshot_symbol_id_time_idx'' ''orderbook_messages''
         [(''symbol'', False), (''id'', True), (''time'', False)])
         \<lparr>ix_predicate := Some (''message_type'', ''snapshot'')\<rparr>)],
     mi_down = [DropIndex ''orderbook_messages_snapshot_symbol_id_time_idx'',
       DropIndex ''orderbook_messages_symbol_id_idx'']\<rparr>"

text \<open>In the order of their names, as \<^verbatim>\<open>diesel migration run\<close> applies them.\<close>

definition migrations :: "migration list" where
  "migrations = [initial_setup, install_timescaledb, lighter_tables_v1, trades_ws_and_dedup, spot_market_support,
     trade_type_values, funding_rates_migration, orderbook_begin_nonce, orderbook_read_indexes]"

definition migrate :: "nat \<Rightarrow> catalog \<Rightarrow> ddl_error + catalog" where
  "migrate n cat = exec_all (concat (map mi_up (take n migrations))) cat"

definition migrated :: catalog where
  "migrated = (case migrate (length migrations) no_catalog of Inr cat \<Rightarrow> cat | Inl e \<Rightarrow> no_catalog)"

section \<open>Against the schema\<close>

text \<open>What \<^verbatim>\<open>diesel print-schema\<close> makes of a table.\<close>

fun schema_type :: "pg_type \<Rightarrow> sql_type" where
  "schema_type PgSerial = Int4"
| "schema_type PgBigserial = Int8"
| "schema_type PgInteger = Int4"
| "schema_type PgBigint = Int8"
| "schema_type PgDouble = Float8"
| "schema_type PgNumeric = Numeric"
| "schema_type PgText = Text"
| "schema_type (PgVarchar n) = Varchar n"
| "schema_type PgJsonb = Jsonb"
| "schema_type PgBoolean = Bool"
| "schema_type PgTimestamptz = Timestamptz"

definition schema_table :: "pg_table \<Rightarrow> table" where
  "schema_table t = \<lparr>tb_name = pt_name t,
     tb_key = concat [columns. (_, c) \<leftarrow> pt_constraints t, columns \<leftarrow> (case c of PrimaryKey columns \<Rightarrow> [columns] | _ \<Rightarrow> [])],
     tb_columns = map (\<lambda>c. (co_name c, if co_not_null c then schema_type (co_type c)
                                       else Nullable (schema_type (co_type c)))) (pt_columns t)\<rparr>"

definition references_of :: "catalog \<Rightarrow> (string \<times> string \<times> string) list" where
  "references_of cat = [(pt_name t, table, column). t \<leftarrow> ca_tables cat, (_, c) \<leftarrow> pt_constraints t,
     (column, table) \<leftarrow> (case c of ForeignKey column table target \<Rightarrow> [(column, table)] | _ \<Rightarrow> [])]"

definition same_table :: "pg_table \<Rightarrow> pg_table \<Rightarrow> bool" where
  "same_table s t \<longleftrightarrow> pt_name s = pt_name t \<and> pt_columns s = pt_columns t \<and> pt_hypertable s = pt_hypertable t
     \<and> set (pt_constraints s) = set (pt_constraints t)"

text \<open>Equal catalogs, up to the order in which their objects were made.\<close>

definition same_catalog :: "catalog \<Rightarrow> catalog \<Rightarrow> bool" where
  "same_catalog a b \<longleftrightarrow> set (ca_extensions a) = set (ca_extensions b) \<and> set (ca_functions a) = set (ca_functions b)
     \<and> list_all2 same_table (ca_tables a) (ca_tables b) \<and> set (ca_indexes a) = set (ca_indexes b)
     \<and> set (ca_retention a) = set (ca_retention b)"

lemma migrated_eq: "migrate (length migrations) no_catalog = Inr migrated"
proof -
  have "\<not> isl (migrate (length migrations) no_catalog)" by code_simp
  then show ?thesis by (cases "migrate (length migrations) no_catalog") (simp_all add: migrated_def)
qed

lemma migrated_schema:
  "map (\<lambda>name. map_option schema_table (table_named name migrated)) (map tb_name same_query) = map Some same_query"
  by code_simp

lemma migrated_references: "set (references_of migrated) = set joinable"
  by code_simp

lemma migrated_tables:
  "map (\<lambda>t. (pt_name t, pt_columns t, map snd (pt_constraints t))) (ca_tables migrated) =
     [(''symbols'', pt_columns symbols_v1 @ [col ''market_type'' PgText],
        [PrimaryKey [''id''], Unique [''lighter_market_id''], OneOf ''market_type'' [''perp'', ''spot''] True]),
      (''trades'', pt_columns trades_v1 @ [col ''trade_type'' PgText],
        [PrimaryKey [''time'', ''id''], ForeignKey ''symbol'' ''symbols'' ''id'', OneOf ''trade_type'' trade_types False]),
      (''orderbook_messages'', pt_columns orderbook_messages_v1 @ [nullable_col ''begin_nonce'' PgBigint],
        [OneOf ''message_type'' [''snapshot'', ''delta''] True, PrimaryKey [''time'', ''id''],
         ForeignKey ''symbol'' ''symbols'' ''id'']),
      (''funding_rates'', pt_columns funding_rates_v1,
        [PrimaryKey [''symbol'', ''time''], ForeignKey ''symbol'' ''symbols'' ''id''])]"
  by code_simp

lemma migrated_unique_indexes:
  "map (\<lambda>i. (ix_table i, map fst (ix_columns i), ix_predicate i)) (filter ix_unique (ca_indexes migrated)) =
     [(''trades'', [''time'', ''symbol'', ''lighter_trade_id''], None), (''symbols'', [''market_type'', ''name''], None)]"
  by code_simp

end
