(* ===== verification/Constraints.thy ===== *)
theory Constraints
  imports Migrations Life
begin

text \<open>
  The constraints that the migrated catalog declares, as a predicate on the contents of its tables, and the
  invariant of theory \<open>Store\<close> against it: what the statements of the model keep is what the migrations
  declare, types and ranges included. At every moment of a life of the service all of it holds.
\<close>

section \<open>What a catalog demands\<close>

text \<open>Columns that are \<open>NULL\<close> pass a \<^verbatim>\<open>CHECK\<close> and a foreign key. A check that is not validated binds every
  row that was written since it was added.\<close>

definition column_ok :: "pg_column \<Rightarrow> ('t, 'f, 'd) sql_row \<Rightarrow> bool" where
  "column_ok c row = (case map_of row (co_name c) of
     None \<Rightarrow> False
   | Some v \<Rightarrow> fits (if co_not_null c then schema_type (co_type c) else Nullable (schema_type (co_type c))) v)"

definition key_ok :: "string list \<Rightarrow> ('t, 'f, 'd) sql_row list \<Rightarrow> bool" where
  "key_ok columns rows = distinct (map (\<lambda>row. map (map_of row) columns) rows)"

fun constraint_ok ::
  "(string \<Rightarrow> ('t, 'f, 'd) sql_row list) \<Rightarrow> ('t, 'f, 'd) sql_row list \<Rightarrow> pg_constraint \<Rightarrow> bool" where
  "constraint_ok data rows (PrimaryKey columns) = key_ok columns rows"
| "constraint_ok data rows (Unique columns) = key_ok columns rows"
| "constraint_ok data rows (OneOf column values valid) =
     list_all (\<lambda>row. case map_of row column of Some (SqlText s) \<Rightarrow> s \<in> set values | _ \<Rightarrow> True) rows"
| "constraint_ok data rows (ForeignKey column table target) =
     list_all (\<lambda>row. map_of row column = Some SqlNull
        \<or> map_of row column \<in> (\<lambda>r. map_of r target) ` set (data table)) rows"

definition satisfies :: "catalog \<Rightarrow> (string \<Rightarrow> ('t, 'f, 'd) sql_row list) \<Rightarrow> bool" where
  "satisfies cat data \<longleftrightarrow>
     list_all (\<lambda>t. list_all (\<lambda>row. list_all (\<lambda>c. column_ok c row) (pt_columns t)) (data (pt_name t))
        \<and> list_all (\<lambda>(_, c). constraint_ok data (data (pt_name t)) c) (pt_constraints t)) (ca_tables cat)
   \<and> list_all (\<lambda>i. key_ok (map fst (ix_columns i)) (data (ix_table i))) (filter ix_unique (ca_indexes cat))"

section \<open>The contents of the tables\<close>

definition symbol_values :: "symbol_row \<Rightarrow> ('t, 'f, 'd) sql_row" where
  "symbol_values r = [(''id'', SqlInt (sym_id r)), (''name'', SqlText (sym_name r)),
     (''lighter_market_id'', SqlInt (sym_market_id r)), (''market_type'', SqlText (sym_market_type r))]"

text \<open>The rows of a table with a generated id have it from their place in the table.\<close>

definition numbered :: "('r \<Rightarrow> ('t, 'f, 'd) sql_row) \<Rightarrow> 'r list \<Rightarrow> ('t, 'f, 'd) sql_row list" where
  "numbered values rows = map (\<lambda>(i, r). (''id'', SqlInt (int i)) # values r) (enumerate 1 rows)"

definition table_data :: "('t, 'f, 'd) db \<Rightarrow> string \<Rightarrow> ('t, 'f, 'd) sql_row list" where
  "table_data db name =
     (if name = ''symbols'' then map symbol_values (db_symbols db)
      else if name = ''trades'' then numbered trade_values (db_trades db)
      else if name = ''orderbook_messages'' then numbered orderbook_values (db_orderbooks db)
      else if name = ''funding_rates'' then map funding_values (db_fundings db)
      else [])"

text \<open>Every value has the type of its column; the sequences of generated ids have not run out.\<close>

definition rows_typed :: "('t, 'f, 'd) db \<Rightarrow> bool" where
  "rows_typed db \<longleftrightarrow>
     (\<forall>r \<in> set (db_symbols db). in_i32 (sym_id r) \<and> row_fits symbols (symbol_values r :: ('t, 'f, 'd) sql_row))
   \<and> (\<forall>r \<in> set (db_trades db). row_fits trades (trade_values r :: ('t, 'f, 'd) sql_row))
   \<and> (\<forall>r \<in> set (db_orderbooks db). row_fits orderbook_messages (orderbook_values r :: ('t, 'f, 'd) sql_row))
   \<and> (\<forall>r \<in> set (db_fundings db). row_fits funding_rates (funding_values r :: ('t, 'f, 'd) sql_row))"

definition ids_left :: "('t, 'f, 'd) db \<Rightarrow> bool" where
  "ids_left db \<longleftrightarrow> length (db_trades db) < 2 ^ 63 \<and> length (db_orderbooks db) < 2 ^ 63"

lemma symbol_row_fits [simp]:
  "row_fits symbols (symbol_values r) \<longleftrightarrow> length (sym_name r) \<le> 255 \<and> in_i32 (sym_market_id r)"
  by (auto simp: row_fits_def symbol_values_def table_defs)

lemma table_data_simps [simp]:
  "table_data db ''symbols'' = map symbol_values (db_symbols db)"
  "table_data db ''trades'' = numbered trade_values (db_trades db)"
  "table_data db ''orderbook_messages'' = numbered orderbook_values (db_orderbooks db)"
  "table_data db ''funding_rates'' = map funding_values (db_fundings db)"
  by (simp_all add: table_data_def)

section \<open>Against the invariant\<close>

lemma nth_numbered [simp]:
  "k < length rows \<Longrightarrow> numbered values rows ! k = (''id'', SqlInt (int (Suc k))) # values (rows ! k)"
  by (simp add: numbered_def nth_enumerate_eq)

lemma length_numbered [simp]: "length (numbered values rows) = length rows"
  by (simp add: numbered_def)

lemma numbered_all:
  assumes "length rows < 2 ^ 63" and "\<And>i r. r \<in> set rows \<Longrightarrow> in_i64 i \<Longrightarrow> P ((''id'', SqlInt i) # values r) = Q r"
  shows "list_all P (numbered values rows) \<longleftrightarrow> (\<forall>r \<in> set rows. Q r)"
proof -
  have "P ((''id'', SqlInt (int (Suc k))) # values (rows ! k)) = Q (rows ! k)" if "k < length rows" for k
    using assms that by (intro assms(2)) (simp_all add: in_i64_def)
  then show ?thesis by (auto simp: list_all_length all_set_conv_all_nth)
qed

lemma numbered_key:
  assumes "\<And>i r. r \<in> set rows \<Longrightarrow> map (map_of ((''id'', SqlInt i) # values r)) columns = f r"
  shows "key_ok columns (numbered values rows) \<longleftrightarrow> distinct (map f rows)"
proof -
  have "map (\<lambda>row. map (map_of row) columns) (numbered values rows) = map f rows"
    using assms by (intro nth_equalityI) (simp_all del: map_of.simps)
  then show ?thesis by (simp add: key_ok_def)
qed

text \<open>A key with the generated id is no constraint.\<close>

lemma numbered_id_key:
  assumes "''id'' \<in> set columns"
  shows "key_ok columns (numbered values rows)"
proof -
  have "map (map_of (numbered values rows ! i)) columns \<noteq> map (map_of (numbered values rows ! j)) columns"
    if "i < length rows" "j < length rows" "i \<noteq> j" for i j
    using that assms by (auto simp del: map_of.simps) (auto dest: map_eq_conv [THEN iffD1, rule_format])
  then show ?thesis by (simp add: key_ok_def distinct_conv_nth)
qed

text \<open>The four tables, column by column and constraint by constraint.\<close>

lemma symbol_columns_ok:
  "list_all (\<lambda>c. column_ok c (symbol_values r)) (pt_columns symbols_v1 @ [col ''market_type'' PgText]) \<longleftrightarrow>
     in_i32 (sym_id r) \<and> length (sym_name r) \<le> 255 \<and> in_i32 (sym_market_id r)"
  by (auto simp: column_ok_def symbol_values_def symbols_v1_def col_def)

lemma trade_columns_ok:
  "list_all (\<lambda>c. column_ok c ((''id'', SqlInt i) # trade_values r)) (pt_columns trades_v1 @ [col ''trade_type'' PgText]) \<longleftrightarrow>
     in_i64 i \<and> in_i32 (tw_symbol r) \<and> in_i64 (tw_trade_id r)"
  by (auto simp: column_ok_def trade_values_def trades_v1_def col_def)

lemma orderbook_columns_ok:
  "list_all (\<lambda>c. column_ok c ((''id'', SqlInt i) # orderbook_values r))
       (pt_columns orderbook_messages_v1 @ [nullable_col ''begin_nonce'' PgBigint]) \<longleftrightarrow>
     in_i64 i \<and> in_i32 (obr_symbol r)
     \<and> (\<forall>n. obr_sequence r = Some n \<longrightarrow> in_i64 n) \<and> (\<forall>n. obr_begin_nonce r = Some n \<longrightarrow> in_i64 n)"
  by (auto simp: column_ok_def orderbook_values_def orderbook_messages_v1_def col_def nullable_col_def)

lemma funding_columns_ok:
  "list_all (\<lambda>c. column_ok c (funding_values r)) (pt_columns funding_rates_v1) \<longleftrightarrow>
     in_i32 (fw_symbol r)"
  by (auto simp: column_ok_def funding_values_def funding_rates_v1_def col_def)

lemma symbol_reference:
  "v \<in> (\<lambda>r. map_of r ''id'') ` set (map symbol_values rs) \<longleftrightarrow> v \<in> (\<lambda>r. Some (SqlInt (sym_id r))) ` set rs"
  by (simp add: image_image symbol_values_def)

lemma symbol_keys:
  "key_ok [''id''] (map symbol_values rs) \<longleftrightarrow> distinct (map sym_id rs)"
  "key_ok [''lighter_market_id''] (map symbol_values rs) \<longleftrightarrow> distinct (map sym_market_id rs)"
  "key_ok [''market_type'', ''name''] (map symbol_values rs) \<longleftrightarrow> distinct (map (\<lambda>r. (sym_market_type r, sym_name r)) rs)"
  by (auto simp: key_ok_def symbol_values_def distinct_map inj_on_def comp_def)


text \<open>With ids drawn from the sequence, the model's invariant and its types are exactly what the migrations
  declare.\<close>

lemma satisfies_symbols:
  "list_all (\<lambda>row. list_all (\<lambda>c. column_ok c row) (pt_columns symbols_v1 @ [col ''market_type'' PgText]))
       (map symbol_values rs :: ('t, 'f, 'd) sql_row list)
   \<longleftrightarrow> (\<forall>r \<in> set rs. in_i32 (sym_id r) \<and> row_fits symbols (symbol_values r :: ('t, 'f, 'd) sql_row))"
  for rs :: "symbol_row list"
  by (simp only: list.pred_map comp_def symbol_columns_ok symbol_row_fits) (simp only: list_all_iff)

lemma satisfies_trades:
  assumes "length rs < 2 ^ 63"
  shows "list_all (\<lambda>row. list_all (\<lambda>c. column_ok c row) (pt_columns trades_v1 @ [col ''trade_type'' PgText]))
       (numbered trade_values rs :: ('t, 'f, 'd) sql_row list)
   \<longleftrightarrow> (\<forall>r \<in> set rs. row_fits trades (trade_values r :: ('t, 'f, 'd) sql_row))"
  by (rule numbered_all [OF assms]) (simp only: trade_columns_ok trade_row_fits simp_thms)

lemma satisfies_orderbooks:
  assumes "length rs < 2 ^ 63"
  shows "list_all (\<lambda>row. list_all (\<lambda>c. column_ok c row)
         (pt_columns orderbook_messages_v1 @ [nullable_col ''begin_nonce'' PgBigint]))
       (numbered orderbook_values rs :: ('t, 'f, 'd) sql_row list)
   \<longleftrightarrow> (\<forall>r \<in> set rs. row_fits orderbook_messages (orderbook_values r :: ('t, 'f, 'd) sql_row))"
  by (rule numbered_all [OF assms]) (simp only: orderbook_columns_ok orderbook_row_fits simp_thms)

lemma satisfies_fundings:
  "list_all (\<lambda>row. list_all (\<lambda>c. column_ok c row) (pt_columns funding_rates_v1))
       (map funding_values rs :: ('t, 'f, 'd) sql_row list)
   \<longleftrightarrow> (\<forall>r \<in> set rs. row_fits funding_rates (funding_values r :: ('t, 'f, 'd) sql_row))"
  by (simp only: list.pred_map comp_def funding_columns_ok funding_row_fits) (simp only: list_all_iff)

text \<open>The other constraints of a row whose id is generated look past the id.\<close>

lemma numbered_others [simp]:
  "constraint_ok data (numbered trade_values rs) (OneOf ''trade_type'' vs valid)
     = constraint_ok data (map trade_values rs) (OneOf ''trade_type'' vs valid)"
  "constraint_ok data (numbered orderbook_values os) (OneOf ''message_type'' vs valid)
     = constraint_ok data (map orderbook_values os) (OneOf ''message_type'' vs valid)"
  "constraint_ok data (numbered trade_values rs) (ForeignKey ''symbol'' table target)
     = constraint_ok data (map trade_values rs) (ForeignKey ''symbol'' table target)"
  "constraint_ok data (numbered orderbook_values os) (ForeignKey ''symbol'' table target)
     = constraint_ok data (map orderbook_values os) (ForeignKey ''symbol'' table target)"
  by (simp_all add: list_all_length)

lemma numbered_trade_key:
  "key_ok [''time'', ''symbol'', ''lighter_trade_id''] (numbered trade_values rs :: ('t, 'f, 'd) sql_row list)
     \<longleftrightarrow> distinct (map trade_key rs)"
proof -
  have "key_ok [''time'', ''symbol'', ''lighter_trade_id''] (numbered trade_values rs :: ('t, 'f, 'd) sql_row list) \<longleftrightarrow>
      distinct (map (\<lambda>r. [Some (SqlTime (tw_time r)), Some (SqlInt (tw_symbol r)),
         Some (SqlInt (tw_trade_id r) :: ('t, 'f, 'd) sql_value)]) rs)"
    by (rule numbered_key) (simp add: trade_values_def)
  then show ?thesis by (auto simp: distinct_map inj_on_def trade_key_def)
qed

lemmas value_defs = symbol_values_def trade_values_def orderbook_values_def funding_values_def

lemma references_symbols:
  "constraint_ok (table_data db) (map trade_values rs) (ForeignKey ''symbol'' ''symbols'' ''id'')
     \<longleftrightarrow> (\<forall>r \<in> set rs. tw_symbol r \<in> symbol_ids db)"
  "constraint_ok (table_data db) (map orderbook_values os) (ForeignKey ''symbol'' ''symbols'' ''id'')
     \<longleftrightarrow> (\<forall>r \<in> set os. obr_symbol r \<in> symbol_ids db)"
  "constraint_ok (table_data db) (map funding_values fs) (ForeignKey ''symbol'' ''symbols'' ''id'')
     \<longleftrightarrow> (\<forall>r \<in> set fs. fw_symbol r \<in> symbol_ids db)"
  by (auto simp: list_all_iff value_defs image_image symbol_ids_def)

lemma checks:
  "constraint_ok data (map symbol_values ss) (OneOf ''market_type'' vs valid) \<longleftrightarrow> (\<forall>r \<in> set ss. sym_market_type r \<in> set vs)"
  "constraint_ok data (map trade_values rs) (OneOf ''trade_type'' vs valid) \<longleftrightarrow> (\<forall>r \<in> set rs. tw_type r \<in> set vs)"
  "constraint_ok data (map orderbook_values os) (OneOf ''message_type'' vs valid) \<longleftrightarrow> (\<forall>r \<in> set os. obr_type r \<in> set vs)"
  by (simp_all add: list_all_iff value_defs)

lemma funding_keys: "key_ok [''symbol'', ''time''] (map funding_values fs) \<longleftrightarrow> distinct (map funding_key fs)"
  by (auto simp: key_ok_def value_defs distinct_map inj_on_def comp_def funding_key_def)

definition ids_drawn :: "('t, 'f, 'd) db \<Rightarrow> bool" where
  "ids_drawn db \<longleftrightarrow> (\<forall>r \<in> set (db_symbols db). sym_id r < db_next_symbol db)"

lemma unique_indexes_ok:
  "list_all (\<lambda>i. key_ok (map fst (ix_columns i)) (data (ix_table i))) (filter ix_unique (ca_indexes migrated)) \<longleftrightarrow>
     key_ok [''time'', ''symbol'', ''lighter_trade_id''] (data ''trades'')
   \<and> key_ok [''market_type'', ''name''] (data ''symbols'')"
proof -
  have "list_all (\<lambda>i. key_ok (map fst (ix_columns i)) (data (ix_table i))) (filter ix_unique (ca_indexes migrated))
      = list_all (\<lambda>(t, cs, p). key_ok cs (data t))
          (map (\<lambda>i. (ix_table i, map fst (ix_columns i), ix_predicate i)) (filter ix_unique (ca_indexes migrated)))"
    by (simp only: list.pred_map comp_def prod.case)
  then show ?thesis by (simp only: migrated_unique_indexes list.pred_inject prod.case simp_thms)
qed

text \<open>What the catalog demands of each table.\<close>

lemma table_demands:
  "satisfies migrated data \<longleftrightarrow>
     (list_all (\<lambda>row. list_all (\<lambda>c. column_ok c row) (pt_columns symbols_v1 @ [col ''market_type'' PgText])) (data ''symbols'')
        \<and> key_ok [''id''] (data ''symbols'') \<and> key_ok [''lighter_market_id''] (data ''symbols'')
        \<and> constraint_ok data (data ''symbols'') (OneOf ''market_type'' [''perp'', ''spot''] True)
        \<and> key_ok [''market_type'', ''name''] (data ''symbols''))
   \<and> (list_all (\<lambda>row. list_all (\<lambda>c. column_ok c row) (pt_columns trades_v1 @ [col ''trade_type'' PgText])) (data ''trades'')
        \<and> key_ok [''time'', ''id''] (data ''trades'')
        \<and> constraint_ok data (data ''trades'') (ForeignKey ''symbol'' ''symbols'' ''id'')
        \<and> constraint_ok data (data ''trades'') (OneOf ''trade_type'' trade_types False)
        \<and> key_ok [''time'', ''symbol'', ''lighter_trade_id''] (data ''trades''))
   \<and> (list_all (\<lambda>row. list_all (\<lambda>c. column_ok c row)
          (pt_columns orderbook_messages_v1 @ [nullable_col ''begin_nonce'' PgBigint])) (data ''orderbook_messages'')
        \<and> constraint_ok data (data ''orderbook_messages'') (OneOf ''message_type'' [''snapshot'', ''delta''] True)
        \<and> key_ok [''time'', ''id''] (data ''orderbook_messages'')
        \<and> constraint_ok data (data ''orderbook_messages'') (ForeignKey ''symbol'' ''symbols'' ''id''))
   \<and> (list_all (\<lambda>row. list_all (\<lambda>c. column_ok c row) (pt_columns funding_rates_v1)) (data ''funding_rates'')
        \<and> key_ok [''symbol'', ''time''] (data ''funding_rates'')
        \<and> constraint_ok data (data ''funding_rates'') (ForeignKey ''symbol'' ''symbols'' ''id''))"
proof -
  have "satisfies migrated data \<longleftrightarrow>
      list_all (\<lambda>(t, columns, cs). list_all (\<lambda>row. list_all (\<lambda>c. column_ok c row) columns) (data t)
          \<and> list_all (constraint_ok data (data t)) cs)
        (map (\<lambda>t. (pt_name t, pt_columns t, map snd (pt_constraints t))) (ca_tables migrated))
    \<and> list_all (\<lambda>i. key_ok (map fst (ix_columns i)) (data (ix_table i))) (filter ix_unique (ca_indexes migrated))"
    by (simp only: satisfies_def list.pred_map comp_def prod.case case_prod_unfold fst_conv snd_conv)
  then show ?thesis
    unfolding migrated_tables unique_indexes_ok
    by (simp only: list.pred_inject prod.case constraint_ok.simps(1,2) simp_thms) blast
qed

lemma satisfies_iff:
  fixes db :: "('t, 'f, 'd) db"
  assumes "ids_left db" and "ids_drawn db"
  shows "satisfies migrated (table_data db) \<longleftrightarrow> db_inv db \<and> rows_typed db"
proof -
  have len: "length (db_trades db) < 2 ^ 63" "length (db_orderbooks db) < 2 ^ 63"
    using assms(1) by (simp_all add: ids_left_def)
  have id: "key_ok [''time'', ''id''] (numbered vals rows)" for vals and rows :: "'x list"
    by (rule numbered_id_key) simp
  have "satisfies migrated (table_data db) \<longleftrightarrow>
     ((\<forall>r \<in> set (db_symbols db). in_i32 (sym_id r) \<and> row_fits symbols (symbol_values r :: ('t, 'f, 'd) sql_row))
        \<and> distinct (map sym_id (db_symbols db)) \<and> distinct (map sym_market_id (db_symbols db))
        \<and> (\<forall>r \<in> set (db_symbols db). sym_market_type r \<in> set [''perp'', ''spot''])
        \<and> distinct (map (\<lambda>r. (sym_market_type r, sym_name r)) (db_symbols db)))
   \<and> ((\<forall>r \<in> set (db_trades db). row_fits trades (trade_values r :: ('t, 'f, 'd) sql_row))
        \<and> (\<forall>r \<in> set (db_trades db). tw_symbol r \<in> symbol_ids db) \<and> (\<forall>r \<in> set (db_trades db). tw_type r \<in> set trade_types)
        \<and> distinct (map trade_key (db_trades db)))
   \<and> ((\<forall>r \<in> set (db_orderbooks db). row_fits orderbook_messages (orderbook_values r :: ('t, 'f, 'd) sql_row))
        \<and> (\<forall>r \<in> set (db_orderbooks db). obr_type r \<in> set [''snapshot'', ''delta''])
        \<and> (\<forall>r \<in> set (db_orderbooks db). obr_symbol r \<in> symbol_ids db))
   \<and> ((\<forall>r \<in> set (db_fundings db). row_fits funding_rates (funding_values r :: ('t, 'f, 'd) sql_row))
        \<and> distinct (map funding_key (db_fundings db)) \<and> (\<forall>r \<in> set (db_fundings db). fw_symbol r \<in> symbol_ids db))"
    unfolding table_demands table_data_simps
    by (simp only: id simp_thms satisfies_symbols satisfies_trades [OF len(1)] satisfies_orderbooks [OF len(2)]
        satisfies_fundings symbol_keys funding_keys numbered_trade_key numbered_others checks
        references_symbols)
  with assms(2) show ?thesis
    by (auto simp: db_inv_def symbols_inv_def rows_typed_def ids_drawn_def simp del: symbol_row_fits trade_row_fits
        orderbook_row_fits funding_row_fits)
qed

end
