(* ===== verification/Upgrades.thy ===== *)
theory Upgrades
  imports Constraints
begin

text \<open>
  The migrations on a database that has rows. Beside what a statement does to the catalog (theory
  \<open>Migrations\<close>) it may change the rows of its table, and it fails when they violate what it adds: a \<^verbatim>\<open>CHECK\<close> that is
  validated, a \<^verbatim>\<open>UNIQUE\<close> constraint or index, a \<^verbatim>\<open>NOT NULL\<close> column without a default.
\<close>

section \<open>Statements on rows\<close>

type_synonym ('t, 'f, 'd) contents = "string \<Rightarrow> ('t, 'f, 'd) sql_row list"

definition default_value :: "pg_column \<Rightarrow> ('t, 'f, 'd) sql_value" where
  "default_value c = (case co_default c of None \<Rightarrow> SqlNull | Some s \<Rightarrow> SqlText s)"

definition has_column :: "string \<Rightarrow> string \<Rightarrow> catalog \<Rightarrow> bool" where
  "has_column name column cat \<longleftrightarrow>
     (case table_named name cat of None \<Rightarrow> False | Some t \<Rightarrow> column \<in> co_name ` set (pt_columns t))"

text \<open>The rows after a statement, for the catalog before it. A new column is the last of its table.\<close>

fun rows_after :: "statement \<Rightarrow> catalog \<Rightarrow> ('t, 'f, 'd) contents \<Rightarrow> ('t, 'f, 'd) contents" where
  "rows_after (CreateTable t) cat data =
     (if table_named (pt_name t) cat \<noteq> None then data else data(pt_name t := []))"
| "rows_after (DropTable name) cat data = data(name := [])"
| "rows_after (AddColumn if_not_exists name column cs) cat data =
     (if has_column name (co_name column) cat then data
      else data(name := map (\<lambda>row. row @ [(co_name column, default_value column)]) (data name)))"
| "rows_after (DropColumn if_exists name column) cat data =
     data(name := map (filter (\<lambda>(c, _). c \<noteq> column)) (data name))"
| "rows_after _ cat data = data"

text \<open>Whether the rows, as the statement leaves them, pass what it adds. A \<^verbatim>\<open>CHECK\<close> that is \<^verbatim>\<open>NOT VALID\<close> does not look at them.\<close>

fun scanned :: "pg_constraint \<Rightarrow> bool" where
  "scanned (OneOf column values valid) \<longleftrightarrow> valid"
| "scanned _ \<longleftrightarrow> True"

fun rows_pass :: "statement \<Rightarrow> catalog \<Rightarrow> ('t, 'f, 'd) contents \<Rightarrow> bool" where
  "rows_pass (AddColumn if_not_exists name column cs) cat data \<longleftrightarrow>
     has_column name (co_name column) cat
   \<or> list_all (column_ok column) (data name)
     \<and> list_all (\<lambda>(_, c). scanned c \<longrightarrow> constraint_ok data (data name) c) cs"
| "rows_pass (AddConstraint name cname c) cat data \<longleftrightarrow> (scanned c \<longrightarrow> constraint_ok data (data name) c)"
| "rows_pass (CreateIndex if_not_exists i) cat data \<longleftrightarrow>
     index_named (ix_name i) cat \<noteq> None \<or> (ix_unique i \<longrightarrow> key_ok (map fst (ix_columns i)) (data (ix_table i)))"
| "rows_pass (EnsureIndex i) cat data \<longleftrightarrow>
     index_named (ix_name i) cat \<noteq> None \<or> (ix_unique i \<longrightarrow> key_ok (map fst (ix_columns i)) (data (ix_table i)))"
| "rows_pass _ cat data \<longleftrightarrow> True"

datatype sql_error =
    DdlError ddl_error
  | RowsViolate statement

definition exec_on ::
  "statement \<Rightarrow> catalog \<times> ('t, 'f, 'd) contents \<Rightarrow> sql_error + catalog \<times> ('t, 'f, 'd) contents" where
  "exec_on s w = (case exec s (fst w) of
     Inl e \<Rightarrow> Inl (DdlError e)
   | Inr cat \<Rightarrow> let data = rows_after s (fst w) (snd w)
       in if rows_pass s (fst w) data then Inr (cat, data) else Inl (RowsViolate s))"

fun exec_all_on ::
  "statement list \<Rightarrow> catalog \<times> ('t, 'f, 'd) contents \<Rightarrow> sql_error + catalog \<times> ('t, 'f, 'd) contents" where
  "exec_all_on [] w = Inr w"
| "exec_all_on (s # ss) w = and_then (exec_on s w) (exec_all_on ss)"

text \<open>\<^verbatim>\<open>diesel migration revert\<close>, \<open>n\<close> times: each \<^verbatim>\<open>down.sql\<close>, from the last migration back.\<close>

definition undo :: "nat \<Rightarrow> statement list" where
  "undo n = concat (map mi_down (take n (rev migrations)))"

section \<open>Reverting\<close>

text \<open>What a statement of a \<^verbatim>\<open>down.sql\<close> does to rows does not depend on the catalog.\<close>

fun takes_back :: "statement \<Rightarrow> bool" where
  "takes_back (CreateTable t) = False"
| "takes_back (AddColumn if_not_exists name column cs) = False"
| "takes_back (CreateIndex if_not_exists i) = False"
| "takes_back (EnsureIndex i) = False"
| "takes_back _ = True"

fun rows_undone :: "statement list \<Rightarrow> ('t, 'f, 'd) contents \<Rightarrow> ('t, 'f, 'd) contents" where
  "rows_undone [] data = data"
| "rows_undone (s # ss) data = rows_undone ss (rows_after s no_catalog data)"

fun all_pass :: "statement list \<Rightarrow> ('t, 'f, 'd) contents \<Rightarrow> bool" where
  "all_pass [] data = True"
| "all_pass (s # ss) data =
     (rows_pass s no_catalog (rows_after s no_catalog data) \<and> all_pass ss (rows_after s no_catalog data))"

lemma takes_back_any:
  assumes "takes_back s"
  shows "rows_after s cat data = rows_after s no_catalog data" and "rows_pass s cat data = rows_pass s no_catalog data"
  using assms by (cases s; simp)+

lemma exec_all_on_undo:
  assumes "list_all takes_back ss"
  shows "exec_all_on ss (cat, data) = Inr w \<longleftrightarrow>
     exec_all ss cat = Inr (fst w) \<and> snd w = rows_undone ss data \<and> all_pass ss data"
  using assms
proof (induction ss arbitrary: cat data)
  case Nil
  show ?case by (cases w) auto
next
  case (Cons s ss)
  then have tb: "takes_back s" by simp
  show ?case
  proof (cases "exec s cat")
    case (Inl e)
    then show ?thesis by (simp add: exec_on_def)
  next
    case (Inr cat')
    with Cons.IH [of cat' "rows_after s no_catalog data"] Cons.prems show ?thesis
      by (auto simp: exec_on_def Let_def takes_back_any [OF tb, of cat])
  qed
qed

lemma all_pass_append: "all_pass (xs @ ys) data \<longleftrightarrow> all_pass xs data \<and> all_pass ys (rows_undone xs data)"
  by (induction xs arbitrary: data) auto

lemma rows_undone_append: "rows_undone (xs @ ys) data = rows_undone ys (rows_undone xs data)"
  by (induction xs arbitrary: data) auto

text \<open>The catalog, as if it had no rows.\<close>

lemma undo_catalog:
  assumes "n \<le> length migrations"
  shows "list_all takes_back (undo n)"
    and "\<exists>cat before. exec_all (undo n) migrated = Inr cat \<and> migrate (length migrations - n) no_catalog = Inr before
       \<and> same_catalog cat before"
proof -
  have all: "list_all (\<lambda>n. list_all takes_back (undo n)
      \<and> (case (exec_all (undo n) migrated, migrate (length migrations - n) no_catalog) of
           (Inr cat, Inr before) \<Rightarrow> same_catalog cat before | _ \<Rightarrow> False)) [0..<Suc (length migrations)]"
    by code_simp
  then have "list_all takes_back (undo n) \<and> (case (exec_all (undo n) migrated, migrate (length migrations - n) no_catalog) of
           (Inr cat, Inr before) \<Rightarrow> same_catalog cat before | _ \<Rightarrow> False)"
    using assms by (intro list_all_upt [OF all]) simp_all
  then show "list_all takes_back (undo n)"
    and "\<exists>cat before. exec_all (undo n) migrated = Inr cat \<and> migrate (length migrations - n) no_catalog = Inr before
       \<and> same_catalog cat before" by (auto split: sum.splits)
qed

section \<open>Which rows allow it\<close>

fun adds_constraint :: "statement \<Rightarrow> bool" where
  "adds_constraint (AddConstraint name cname c) = True"
| "adds_constraint _ = False"

lemma all_pass_quiet: "list_all (\<lambda>s. takes_back s \<and> \<not> adds_constraint s) ss \<Longrightarrow> all_pass ss data"
proof (induction ss arbitrary: data)
  case (Cons s ss)
  then show ?case by (cases s) simp_all
qed simp

lemma undo_3: "undo 3 = [DropIndex ''orderbook_messages_snapshot_symbol_id_time_idx'', DropIndex ''orderbook_messages_symbol_id_idx'',
    DropColumn False ''orderbook_messages'' ''begin_nonce'', DropTable ''funding_rates'']"
  by code_simp

lemma undo_5: "undo 4 = undo 3 @ mi_down trade_type_values" "undo 5 = undo 4 @ mi_down spot_market_support"
  by code_simp+

lemma undo_early: "n \<le> 3 \<Longrightarrow> list_all (\<lambda>s. takes_back s \<and> \<not> adds_constraint s) (undo n)"
proof -
  assume "n \<le> 3"
  have "list_all (\<lambda>n. list_all (\<lambda>s. takes_back s \<and> \<not> adds_constraint s) (undo n)) [0..<4]" by code_simp
  from list_all_upt [OF this] \<open>n \<le> 3\<close> show ?thesis by simp
qed

lemma undo_late:
  assumes "5 \<le> n" and "n \<le> length migrations"
  obtains rest where "undo n = undo 5 @ rest" and "list_all (\<lambda>s. takes_back s \<and> \<not> adds_constraint s) rest"
proof -
  have all: "list_all (\<lambda>n. undo n = undo 5 @ drop (length (undo 5)) (undo n)
      \<and> list_all (\<lambda>s. takes_back s \<and> \<not> adds_constraint s) (drop (length (undo 5)) (undo n))) [5..<Suc (length migrations)]"
    by code_simp
  show thesis
    using list_all_upt [OF all, of n] assms that by (metis le_imp_less_Suc)
qed

lemma names_key:
  "key_ok [''name''] (map (filter (\<lambda>(c, _). c \<noteq> ''market_type'')) (map symbol_values rs)) \<longleftrightarrow> distinct (map sym_name rs)"
  by (auto simp: key_ok_def symbol_values_def distinct_map inj_on_def comp_def)

lemma undo_passes:
  fixes db :: "('t, 'f, 'd) db"
  assumes "n \<le> length migrations"
  shows "all_pass (undo n) (table_data db) \<longleftrightarrow>
     (4 \<le> n \<longrightarrow> (\<forall>r \<in> set (db_trades db). tw_type r \<in> {''trade'', ''liquidation''}))
   \<and> (5 \<le> n \<longrightarrow> distinct (map sym_name (db_symbols db)))"
proof -
  let ?data = "table_data db :: ('t, 'f, 'd) contents"
  have three: "all_pass (undo 3) ?data" by (rule all_pass_quiet [OF undo_early]) simp
  have kept: "rows_undone (undo 3) ?data ''trades'' = ?data ''trades''" "rows_undone (undo 3) ?data ''symbols'' = ?data ''symbols''"
    by (simp_all add: undo_3)
  have four: "all_pass (undo 4) ?data \<longleftrightarrow> (\<forall>r \<in> set (db_trades db). tw_type r \<in> {''trade'', ''liquidation''})"
    using checks(2) [of "rows_undone (undo 3) ?data" "db_trades db" "[''trade'', ''liquidation'']" True]
    by (simp add: undo_5(1) all_pass_append three trade_type_values_def kept del: constraint_ok.simps)
  have same: "rows_undone (undo 4) ?data ''symbols'' = ?data ''symbols''"
    by (simp add: undo_5(1) rows_undone_append trade_type_values_def kept)
  have five: "all_pass (undo 5) ?data \<longleftrightarrow> all_pass (undo 4) ?data \<and> distinct (map sym_name (db_symbols db))"
    by (simp add: undo_5(2) all_pass_append spot_market_support_def same names_key del: list.map_comp map_map)
  consider "n \<le> 3" | "n = 4" | "5 \<le> n" by linarith
  then show ?thesis
  proof cases
    case 1
    with all_pass_quiet [OF undo_early] show ?thesis by simp
  next
    case 2
    with four show ?thesis by simp
  next
    case 3
    from undo_late [OF this assms] obtain rest where rest: "undo n = undo 5 @ rest"
      "list_all (\<lambda>s. takes_back s \<and> \<not> adds_constraint s) rest" .
    with 3 four five show ?thesis by (simp add: all_pass_append all_pass_quiet)
  qed
qed

text \<open>No row of a table that stays is lost.\<close>

lemma rows_undone_length:
  "list_all takes_back ss \<Longrightarrow> DropTable name \<notin> set ss \<Longrightarrow> length (rows_undone ss data name) = length (data name)"
proof (induction ss arbitrary: data)
  case (Cons s ss)
  then show ?case by (cases s) auto
qed simp

lemma undo_tables:
  assumes "n \<le> length migrations" and "exec_all (undo n) migrated = Inr cat" and "t \<in> set (ca_tables cat)"
  shows "DropTable (pt_name t) \<notin> set (undo n)"
proof -
  have all: "list_all (\<lambda>n. case exec_all (undo n) migrated of Inl e \<Rightarrow> True
      | Inr cat \<Rightarrow> list_all (\<lambda>t. \<not> List.member (undo n) (DropTable (pt_name t))) (ca_tables cat)) [0..<Suc (length migrations)]"
    by code_simp
  show ?thesis
    using list_all_upt [OF all, of n] assms by (auto simp: list_all_iff)
qed

text \<open>The last \<^verbatim>\<open>down.sql\<close> drops its two indexes also when its \<^verbatim>\<open>up.sql\<close> found them there.\<close>

lemma read_indexes_undone:
  assumes "exec_all (mi_up orderbook_read_indexes) cat = Inr cat'"
  shows "exec_all (mi_down orderbook_read_indexes) cat' = Inr (cat\<lparr>ca_indexes := filter (\<lambda>i. ix_name i \<notin>
     {''orderbook_messages_symbol_id_idx'', ''orderbook_messages_snapshot_symbol_id_time_idx''}) (ca_indexes cat)\<rparr>)"
proof -
  have ensure: "\<exists>new. set new \<subseteq> {i} \<and> c' = c\<lparr>ca_indexes := ca_indexes c @ new\<rparr>" if "exec (EnsureIndex i) c = Inr c'" for i c c'
    using that by (auto split: if_splits option.splits intro: exI [of _ "[]"] exI [of _ "[i]"])
  from assms obtain c1 where one: "exec (EnsureIndex (btree ''orderbook_messages_symbol_id_idx'' ''orderbook_messages''
         [(''symbol'', False), (''id'', False)])) cat = Inr c1"
    and two: "exec (EnsureIndex ((btree ''orderbook_messages_snapshot_symbol_id_time_idx'' ''orderbook_messages''
         [(''symbol'', False), (''id'', True), (''time'', False)])\<lparr>ix_predicate := Some (''message_type'', ''snapshot'')\<rparr>)) c1 = Inr cat'"
    by (auto simp: orderbook_read_indexes_def simp del: exec.simps)
  from ensure [OF one] ensure [OF two] obtain new1 new2 where
    cat': "cat' = cat\<lparr>ca_indexes := ca_indexes cat @ new1 @ new2\<rparr>"
    and new: "\<forall>i \<in> set new1. ix_name i = ''orderbook_messages_symbol_id_idx''"
      "\<forall>i \<in> set new2. ix_name i = ''orderbook_messages_snapshot_symbol_id_time_idx''"
    by (elim exE conjE) (fastforce simp: btree_def)
  have "filter (\<lambda>i. ix_name i \<noteq> ''orderbook_messages_symbol_id_idx'' \<and> ix_name i \<noteq> ''orderbook_messages_snapshot_symbol_id_time_idx'')
      (new1 @ new2) = []"
    using new by (auto simp: filter_empty_conv)
  then show ?thesis by (simp add: cat' orderbook_read_indexes_def conj_commute)
qed

end
