(* ===== verification/Life_Types.thy ===== *)
theory Life_Types
  imports Constraints
begin

text \<open>
  Types over a life of the service: whatever the exchange sends, every value that reaches a table has the type of
  its column. One lemma for each operation that writes, and one invariant for the steps of a life.
\<close>

section \<open>Operations\<close>

lemma rows_typed_ids: "rows_typed db \<Longrightarrow> s \<in> symbol_ids db \<Longrightarrow> in_i32 s"
  by (auto simp: rows_typed_def symbol_ids_def)

text \<open>Only the tables that change have to be looked at.\<close>

lemma rows_typed_tables:
  assumes "rows_typed db" and "db_symbols db' = db_symbols db"
    and "set (db_trades db') \<subseteq> set (db_trades db) \<union> ts" and "\<forall>r \<in> ts. in_i32 (tw_symbol r) \<and> in_i64 (tw_trade_id r)"
    and "set (db_orderbooks db') \<subseteq> set (db_orderbooks db) \<union> os"
    and "\<forall>r \<in> os. in_i32 (obr_symbol r)
       \<and> (\<forall>n. obr_sequence r = Some n \<longrightarrow> in_i64 n) \<and> (\<forall>n. obr_begin_nonce r = Some n \<longrightarrow> in_i64 n)"
    and "set (db_fundings db') \<subseteq> set (db_fundings db) \<union> fs" and "\<forall>r \<in> fs. in_i32 (fw_symbol r)"
  shows "rows_typed db'"
  using assms unfolding rows_typed_def trade_row_fits funding_row_fits orderbook_row_fits
  by (simp only: symbol_row_fits) blast

lemma insert_fundings_typed:
  assumes "rows_typed db" and "insert_funding_rates rs db = Inr (n, db')"
  shows "rows_typed db'"
proof -
  obtain new where new: "db_fundings db' = db_fundings db @ new" "set new \<subseteq> set rs"
    using fundings_tbl.appends [OF assms(2)] by blast
  have "\<forall>r \<in> set rs. fw_symbol r \<in> symbol_ids db"
    using assms(2) by (auto simp: insert_funding_rates_def split: if_splits)
  then have "\<forall>r \<in> set new. in_i32 (fw_symbol r)" using new(2) rows_typed_ids [OF assms(1)] by blast
  moreover have "db_symbols db' = db_symbols db \<and> db_trades db' = db_trades db \<and> db_orderbooks db' = db_orderbooks db"
    by (subst (1 2 3) insert_fundings_rest [OF assms(2)]) simp
  ultimately show ?thesis
    using new(1) by (intro rows_typed_tables [OF assms(1), where ts = "{}" and os = "{}" and fs = "set new"]) auto
qed

lemma poll_round_typed:
  assumes "rows_typed db" and "poll_round L market backfill start rd db = (r, db')"
  shows "rows_typed db'"
proof -
  have "db' = db \<or> (\<exists>rs n. insert_funding_rates rs db = Inr (n, db'))"
    using assms(2) by (auto simp: poll_round_def with_conn_def split: sum.splits if_splits prod.splits)
  with assms(1) show ?thesis by (auto intro: insert_fundings_typed)
qed

lemma msgs_fit_rows:
  assumes "\<forall>m \<in> set ms. msg_fits m"
  shows "\<forall>r \<in> set (trades_of ms). in_i32 (tw_symbol r) \<and> in_i64 (tw_trade_id r)"
    and "\<forall>r \<in> set (orderbooks_of ms). in_i32 (obr_symbol r)
       \<and> (\<forall>n. obr_sequence r = Some n \<longrightarrow> in_i64 n) \<and> (\<forall>n. obr_begin_nonce r = Some n \<longrightarrow> in_i64 n)"
proof -
  have "(\<forall>r \<in> set (trades_of ms). in_i32 (tw_symbol r) \<and> in_i64 (tw_trade_id r))
      \<and> (\<forall>r \<in> set (orderbooks_of ms). in_i32 (obr_symbol r)
       \<and> (\<forall>n. obr_sequence r = Some n \<longrightarrow> in_i64 n) \<and> (\<forall>n. obr_begin_nonce r = Some n \<longrightarrow> in_i64 n))"
    using assms
  proof (induction ms)
    case (Cons m ms)
    then show ?case by (cases m) simp_all
  qed simp
  then show "\<forall>r \<in> set (trades_of ms). in_i32 (tw_symbol r) \<and> in_i64 (tw_trade_id r)"
    "\<forall>r \<in> set (orderbooks_of ms). in_i32 (obr_symbol r)
       \<and> (\<forall>n. obr_sequence r = Some n \<longrightarrow> in_i64 n) \<and> (\<forall>n. obr_begin_nonce r = Some n \<longrightarrow> in_i64 n)" by blast+
qed

lemma insert_skip_set: "set (insert_skip key rs table) \<subseteq> set table \<union> set rs"
proof -
  obtain new where "insert_skip key rs table = table @ new" "set new \<subseteq> set rs"
    using insert_skip_spec [of key rs table] by blast
  then show ?thesis by auto
qed

lemma flush_typed:
  fixes w :: "('t, 'f, 'd) writer"
  assumes "rows_typed (wr_db w)" and "\<forall>m \<in> set (wr_batch w). msg_fits m"
  shows "rows_typed (wr_db (flush f w)) \<and> db_next_symbol (wr_db (flush f w)) = db_next_symbol (wr_db w)
     \<and> set (wr_batch (flush f w)) \<subseteq> set (wr_batch w)"
proof -
  let ?ts = "trades_of (wr_batch w)" and ?os = "orderbooks_of (wr_batch w)"
  note fit = msgs_fit_rows [OF assms(2)]
  have typed: "rows_typed ((wr_db w)\<lparr>db_trades := insert_skip trade_key ?ts (db_trades (wr_db w)), db_orderbooks := bs\<rparr>)"
    if "set bs \<subseteq> set (db_orderbooks (wr_db w)) \<union> set ?os" for bs
    using that fit
    by (intro rows_typed_tables [OF assms(1), where ts = "set ?ts" and os = "set ?os" and fs = "{}"])
      (simp_all add: insert_skip_set)
  show ?thesis
  proof (cases rule: flush_cases [of w f])
    case empty
    with assms(1) show ?thesis by simp
  next
    case ok
    with typed [of "db_orderbooks (wr_db w) @ ?os"] show ?thesis by (simp add: stored_def)
  next
    case (failed db)
    from flush_rows_tables [OF failed(2)] show ?thesis
    proof
      assume "db = wr_db w"
      with failed(3) assms(1) show ?thesis by simp
    next
      assume "db = (wr_db w)\<lparr>db_trades := insert_skip trade_key ?ts (db_trades (wr_db w))\<rparr>"
      with failed(3) typed [of "db_orderbooks (wr_db w)"] show ?thesis by simp
    qed
  qed
qed

section \<open>Symbols\<close>

lemma upsert_typed:
  assumes "rows_typed db" and "0 < db_next_symbol db" and "in_i32 m" and "upsert_symbol nm ty m db = Inr (i, db')"
  shows "rows_typed db' \<and> 0 < db_next_symbol db'"
proof -
  note checks = upsert_symbol_checks(2,3) [OF assms(4)]
  show ?thesis
    using assms(4)
  proof (cases rule: upsert_symbol_cases)
    case (update old)
    with assms(1,2,3) checks show ?thesis
      by (auto simp: rows_typed_def)
  next
    case insert
    have "in_i32 i" using insert(2) assms(2) checks(2) by (simp add: in_i32_def)
    with insert assms(1,2,3) checks show ?thesis by (auto simp: rows_typed_def)
  qed
qed

lemma upsert_all_typed:
  "rows_typed db \<Longrightarrow> 0 < db_next_symbol db \<Longrightarrow> \<forall>m \<in> set ms. in_i32 (mk_market_id m) \<Longrightarrow>
   upsert_all ms db = (Inr (), db') \<Longrightarrow> rows_typed db' \<and> 0 < db_next_symbol db'"
proof (induction ms arbitrary: db)
  case (Cons m ms)
  from Cons.prems(4) obtain i db1 where
    one: "upsert_symbol (mk_symbol m) (mk_market_type m) (mk_market_id m) db = Inr (i, db1)"
    and rest: "upsert_all ms db1 = (Inr (), db')"
    by (auto split: sum.splits prod.splits)
  have "in_i32 (mk_market_id m)" using Cons.prems(3) by simp
  from upsert_typed [OF Cons.prems(1,2) this one] Cons.IH [OF _ _ _ rest] Cons.prems(3) show ?case by simp
qed simp

lemma de_order_books_ranges:
  assumes "de_order_books_response j = Some resp" and "m \<in> set (obs_order_books resp)"
  shows "in_i32 (mk_market_id m)"
proof -
  have "in_i32 (mk_market_id i)" if "de_order_book_info j = Some i" for i j
    using that by (auto simp: de_order_book_info_def field_def split: option.splits dest!: de_int_range)
  with assms de_vec_all [of de_order_book_info _ _ "\<lambda>m. in_i32 (mk_market_id m)" m] show ?thesis
    by (auto simp: de_order_books_response_def field_def split: option.splits)
qed

lemma sync_typed:
  assumes "rows_typed db" and "0 < db_next_symbol db" and "sync_symbols L reply commit_ok db = (r, db')"
  shows "rows_typed db' \<and> 0 < db_next_symbol db'"
  using assms(3)
proof (cases rule: sync_symbols_cases)
  case (failed e)
  have "rows_typed (rolled_back db db1) \<and> 0 < db_next_symbol (rolled_back db db1)"
    if "db_next_symbol db \<le> db_next_symbol db1" for db1
    using that assms(1,2) by (simp add: rolled_back_def rows_typed_def)
  with failed assms(1,2) upsert_all_next [of db] show ?thesis by blast
next
  case (synced body doc resp)
  from de_order_books_ranges [OF synced(4)] show ?thesis
    by (intro upsert_all_typed [OF assms(1,2) _ synced(8)]) blast
qed

lemma start_typed:
  assumes "rows_typed db" and "0 < db_next_symbol db" and "start_ingestor L cfg env db = (r, db')"
  shows "rows_typed db' \<and> 0 < db_next_symbol db'"
  using assms(3)
proof (cases rule: start_ingestor_cases)
  case (early e)
  with assms(1,2) show ?thesis by simp
next
  case (synced r1)
  from sync_typed [OF assms(1,2) synced(1)] show ?thesis .
qed

section \<open>Every reachable state\<close>

definition proc_typed :: "('d, 't, 'f) process \<Rightarrow> bool" where
  "proc_typed p \<longleftrightarrow> (\<forall>m \<in> set (in_flight p). msg_fits m)
     \<and> (case pr_conn p of None \<Rightarrow> True | Some c \<Rightarrow> conn_fits c)"

definition life_typed :: "('d, 't, 'f) life \<Rightarrow> bool" where
  "life_typed l \<longleftrightarrow> rows_typed (li_db l) \<and> 0 < db_next_symbol (li_db l)
     \<and> (case li_proc l of None \<Rightarrow> True | Some p \<Rightarrow> proc_typed p)"

lemma fresh_conn_fits:
  assumes "ws_write_all frames (fresh_conn open sink) = (r, c)"
  shows "conn_fits c"
  using assms
  by (auto simp: fresh_conn_def nonces_fit_def conn_fits_def dest!: ws_write_all_frame)

lemma ids_fit_cache: "rows_typed db \<Longrightarrow> symbols_inv db \<Longrightarrow> ids_fit (load_symbol_cache db)"
  by (auto simp: ids_fit_def load_symbol_cache_ran intro: rows_typed_ids)

lemma handled_typed:
  assumes "proc_typed p" and "pr_conn p = Some c" and "pr_pending p = []" and "ids_fit (sv_symbol_cache (pr_services p))"
    and ev: "on_event L ids (sv_symbol_cache (pr_services p)) ev c = (r, c')"
  shows "proc_typed (p\<lparr>pr_conn := (if isl r then None else Some c'),
     pr_pending := drop (length (cn_rows c)) (cn_rows c')\<rparr>)"
proof -
  have "conn_fits c" using assms(1,2) by (simp add: proc_typed_def)
  from on_event_fits [OF this assms(4) ev] have c': "conn_fits c'" .
  then have "\<forall>m \<in> set (drop (length (cn_rows c)) (cn_rows c')). msg_fits m"
    by (auto simp: conn_fits_def dest: in_set_dropD)
  with c' assms(1,3) show ?thesis by (auto simp: proc_typed_def in_flight_def)
qed

lemma writer_typed:
  assumes "rows_typed (wr_db w) \<and> db_next_symbol (wr_db w) = db_next_symbol db \<and> set (wr_batch w @ q) \<subseteq> set (pr_batch p @ pr_queue p)"
    and "proc_typed p" and "0 < db_next_symbol db"
  shows "life_typed (after_writer (p\<lparr>pr_queue := q\<rparr>) w)"
  using assms by (auto simp: life_typed_def after_writer_def proc_typed_def in_flight_def)

lemma received_typed:
  assumes "rows_typed db" and "0 < db_next_symbol db" and p: "proc_typed p" and q: "pr_queue p = m # q"
  shows "life_typed (after_writer (p\<lparr>pr_queue := q\<rparr>) (writer_step f (Received m) (writer_of db (pr_batch p))))"
proof (rule writer_typed [OF _ p assms(2)])
  let ?w1 = "writer_of db (pr_batch p @ [m])"
  have w1: "(writer_of db (pr_batch p))\<lparr>wr_batch := wr_batch (writer_of db (pr_batch p)) @ [m]\<rparr> = ?w1"
    by (simp add: writer_of_def)
  have fit: "\<forall>m' \<in> set (wr_batch ?w1). msg_fits m'"
    using p q by (auto simp: writer_of_def proc_typed_def in_flight_def simp del: msg_fits_iff)
  have "rows_typed (wr_db ?w1)" using assms(1) by (simp add: writer_of_def)
  note fl = flush_typed [OF this fit, of f]
  let ?w = "writer_step f (Received m) (writer_of db (pr_batch p))"
  have "?w = flush f ?w1 \<or> ?w = ?w1" using w1 by (simp add: Let_def)
  then show "rows_typed (wr_db ?w) \<and> db_next_symbol (wr_db ?w) = db_next_symbol db
      \<and> set (wr_batch ?w @ q) \<subseteq> set (pr_batch p @ pr_queue p)"
    using fl assms(1) q by (auto simp: writer_of_def simp del: writer_step.simps)
qed

lemma ticked_typed:
  assumes "rows_typed db" and "0 < db_next_symbol db" and p: "proc_typed p"
  shows "life_typed (after_writer p (writer_step f Tick (writer_of db (pr_batch p))))"
proof -
  have fit: "\<forall>m \<in> set (wr_batch (writer_of db (pr_batch p))). msg_fits m"
    using p by (auto simp: writer_of_def proc_typed_def in_flight_def simp del: msg_fits_iff)
  have "rows_typed (wr_db (writer_of db (pr_batch p)))" using assms(1) by (simp add: writer_of_def)
  from flush_typed [OF this fit, of f]
  have "life_typed (after_writer (p\<lparr>pr_queue := pr_queue p\<rparr>) (flush f (writer_of db (pr_batch p))))"
    by (intro writer_typed [OF _ p assms(2)]) (auto simp: writer_of_def)
  then show ?thesis by simp
qed

lemma after_poll_typed:
  assumes "proc_typed p"
  shows "case after_poll p m ms r of None \<Rightarrow> True | Some q \<Rightarrow> proc_typed q"
proof -
  have "proc_typed (p\<lparr>pr_poller := poller\<rparr>)" for poller
    using assms by (simp add: proc_typed_def in_flight_def)
  then show ?thesis by (cases "(p, m, ms, r)" rule: after_poll.cases) auto
qed

lemma poll_round_next:
  assumes "poll_round L market backfill start rd db = (r, db')"
  shows "db_next_symbol db' = db_next_symbol db"
proof -
  have "db' = db \<or> (\<exists>rs n. insert_funding_rates rs db = Inr (n, db'))"
    using assms by (auto simp: poll_round_def with_conn_def split: sum.splits if_splits prod.splits)
  then show ?thesis by (auto simp: insert_funding_rates_def Let_def split: if_splits)
qed

lemma life_step_typed:
  assumes "life_step L cfg answers l l'" and "life_typed l" and "life_inv False L nanos backfill S l"
  shows "life_typed l'"
  using assms
proof (induction rule: life_step.induct)
  case (boot env db sv db')
  then show ?case
    using start_typed [OF _ _ boot(1)] by (simp add: life_typed_def proc_typed_def started_def in_flight_def)
next
  case (boot_failed env db e db')
  then show ?case using start_typed [OF _ _ boot_failed(1)] by (simp add: life_typed_def)
next
  case (connected p sink c db)
  then show ?case
    using fresh_conn_fits [OF connected(3)] by (simp add: life_typed_def proc_typed_def in_flight_def)
next
  case (handled p c ev r c' db)
  then have "rows_typed db" and inv: "proc_inv False L nanos backfill S db p" "symbols_inv db" and p: "proc_typed p"
    by (auto simp: life_typed_def life_inv_def intro: symbols_of)
  then have "ids_fit (sv_symbol_cache (pr_services p))"
    by (simp add: proc_inv_rows(3) [OF inv(1)] ids_fit_cache)
  from handled_typed [OF p handled(1,2) this handled(3)] handled(4) show ?case by (simp add: life_typed_def)
next
  case (received p m q db f)
  then show ?case by (intro received_typed) (simp_all add: life_typed_def)
next
  case (ticked db p f)
  then show ?case by (intro ticked_typed) (simp_all add: life_typed_def)
next
  case (poll_turned p m start ms rd db r db')
  then show ?case
    using poll_round_typed [OF _ poll_turned(3)] poll_round_next [OF poll_turned(3)] after_poll_typed [of p m ms r]
    by (simp add: life_typed_def)
next
  case (poll_begun p m ms newest_ok db r)
  then show ?case using after_poll_typed [of p] by (simp add: life_typed_def)
qed (auto simp: life_typed_def proc_typed_def in_flight_def simp del: msg_fits_iff)

text \<open>From a database without order-book rows and settlements on, the migrated catalog is satisfied.\<close>

lemma life_reach_typed:
  assumes "life_reach L cfg answers db l" and "db_inv db" and "db_orderbooks db = []" and "db_fundings db = []"
    and "rows_typed db" and "0 < db_next_symbol db"
  shows "life_typed l"
  using assms(1)
proof (induction rule: life_reach.induct)
  case initial
  from assms(5,6) show ?case by (simp add: life_typed_def)
next
  case (step l l')
  from life_logs [OF step(1) assms(2-4)] life_step_typed [OF step(2,3)] show ?case by blast
qed

lemma life_satisfies:
  assumes "life_reach L cfg answers db l" and "db_inv db" and "db_orderbooks db = []" and "db_fundings db = []"
    and "rows_typed db" and "0 < db_next_symbol db" and "ids_left (li_db l)"
  shows "satisfies migrated (table_data (li_db l))"
proof -
  have "db_inv (li_db l)" using life_logs [OF assms(1-4)] by (auto simp: life_inv_def db_ok_def)
  moreover from this have "ids_drawn (li_db l)" by (simp add: db_inv_def symbols_inv_def ids_drawn_def)
  moreover have "rows_typed (li_db l)" using life_reach_typed [OF assms(1-6)] by (simp add: life_typed_def)
  ultimately show ?thesis using satisfies_iff [OF assms(7)] by blast
qed

end
