(* ===== verification/Life_Fundings.thy ===== *)
theory Life_Fundings
  imports Life
begin

text \<open>
  Settled funding over a life of the service, from the other side: every stored settlement is one of the market's,
  at or after the backfill instant. Together with the absence of gaps the table holds exactly an initial
  segment of the settlements that are due.
\<close>

definition known_settlement :: "('t \<Rightarrow> int) \<Rightarrow> 't \<Rightarrow> int list \<Rightarrow> 't \<Rightarrow> bool" where
  "known_settlement nanos backfill S t \<longleftrightarrow> nanos backfill \<le> nanos t \<and> nanos t \<in> (\<lambda>s. s * 1000000000) ` set S"

definition fundings_sound :: "('t \<Rightarrow> int) \<Rightarrow> 't \<Rightarrow> (int \<Rightarrow> int list) \<Rightarrow> ('t, 'f, 'd) db \<Rightarrow> bool" where
  "fundings_sound nanos backfill S db \<longleftrightarrow>
     (\<forall>(k, s) \<in> market_pairs db. \<forall>t \<in> set (funding_times s db). known_settlement nanos backfill (S k) t)"

definition life_sound :: "('t \<Rightarrow> int) \<Rightarrow> 't \<Rightarrow> (int \<Rightarrow> int list) \<Rightarrow> ('d, 't, 'f) life \<Rightarrow> bool" where
  "life_sound nanos backfill S l \<longleftrightarrow> fundings_sound nanos backfill S (li_db l)
     \<and> (case li_proc l of
          Some p \<Rightarrow> (case pr_poller p of PollAt m start ms \<Rightarrow> nanos backfill \<le> nanos start | _ \<Rightarrow> True)
        | None \<Rightarrow> True)"

lemma fundings_soundD:
  "fundings_sound nanos backfill S db \<Longrightarrow> (k, s) \<in> market_pairs db \<Longrightarrow> t \<in> set (funding_times s db) \<Longrightarrow>
   known_settlement nanos backfill (S k) t"
  by (auto simp: fundings_sound_def)

section \<open>Turns of the poller\<close>

lemma fetched_known:
  assumes "serves L nanos k S server" and "fetch_page L server k start e = Inr rows"
    and "validate_page start now rows = Inr ()" and L: "chrono_ok L nanos" and b: "nanos backfill \<le> nanos start"
    and r: "r \<in> set rows"
  shows "known_settlement nanos backfill S (sf_time r)"
proof -
  let ?rq = "funding_request_of L k start e"
  obtain body where body: "server ?rq = Some body" "parse_fundings_response L body = Inr rows"
    using assms(2) by (auto simp: fetch_page_def split: option.splits)
  have "rq_market_id ?rq = k" "rq_resolution ?rq = FUNDING_RESOLUTION" by (simp_all add: funding_request_of_def)
  with assms(1) body have "map (\<lambda>r. nanos (sf_time r)) rows = map (\<lambda>s. s * 1000000000) (settlement_page S ?rq)"
    by (simp add: serves_def)
  then have "nanos (sf_time r) \<in> set (map (\<lambda>s. s * 1000000000) (settlement_page S ?rq))"
    using r by (metis (mono_tags, lifting) image_eqI list.set_map)
  then have "nanos (sf_time r) \<in> (\<lambda>s. s * 1000000000) ` set S"
    by (auto simp: settlement_page_def dest: in_set_takeD)
  moreover have "nanos start \<le> nanos (sf_time r)"
    using assms(3) r by (simp add: validate_page_ok chrono_le [OF L])
  ultimately show ?thesis using b by (simp add: known_settlement_def)
qed

lemma poll_round_known:
  assumes L: "chrono_ok L nanos" and sv: "serves L nanos (pm_market_id m) S (rd_server rd)"
    and b: "nanos backfill \<le> nanos start"
    and run: "poll_round L m backfill0 start rd db = (r, db')"
  shows "\<forall>t \<in> set (funding_times (pm_symbol_id m) db'). t \<in> set (funding_times (pm_symbol_id m) db)
       \<or> known_settlement nanos backfill S t"
    and "r = Inr start' \<Longrightarrow> nanos backfill \<le> nanos start'"
proof -
  consider "db' = db" "\<And>start'. r \<noteq> Inr start'"
    | rows n where "fetch_page L (rd_server rd) (pm_market_id m) start (rd_end rd) = Inr rows"
        "validate_page start (rd_validate rd) rows = Inr ()" "rows \<noteq> []"
        "insert_funding_rates (funding_rows (pm_symbol_id m) rows) db = Inr (n, db')"
        "\<And>start'. r = Inr start' \<Longrightarrow> next_request_start L (Some (sf_time (last rows))) backfill0 = Inr start'"
    using run by (auto simp: poll_round_def with_conn_def split: sum.splits if_splits prod.splits)
  then have "(\<forall>t \<in> set (funding_times (pm_symbol_id m) db'). t \<in> set (funding_times (pm_symbol_id m) db)
       \<or> known_settlement nanos backfill S t) \<and> (r = Inr start' \<longrightarrow> nanos backfill \<le> nanos start')"
  proof cases
    case 2
    note known = fetched_known [OF sv 2(1,2) L b]
    have "nanos backfill \<le> nanos start'" if "r = Inr start'"
    proof -
      have "nanos backfill \<le> nanos (sf_time (last rows))"
        using known [of "last rows"] 2(3) by (simp add: known_settlement_def)
      with next_request_start_nanos(2) [OF L 2(5) [OF that]] show ?thesis by simp
    qed
    with insert_fundings_times(1) [OF 2(4)] known show ?thesis by auto
  qed auto
  then show "\<forall>t \<in> set (funding_times (pm_symbol_id m) db'). t \<in> set (funding_times (pm_symbol_id m) db)
       \<or> known_settlement nanos backfill S t" and "r = Inr start' \<Longrightarrow> nanos backfill \<le> nanos start'" by blast+
qed

lemma poll_turned_sound:
  assumes L: "chrono_ok L nanos" and sv: "serves L nanos (pm_market_id m) (S (pm_market_id m)) (rd_server rd)"
    and inv: "proc_inv False L nanos0 backfill S0 db p" and ok: "db_ok False L nanos0 backfill S0 db"
    and sound: "life_sound nanos backfill S \<lparr>li_db = db, li_proc = Some p\<rparr>" and p: "pr_poller p = PollAt m start ms"
    and run: "poll_round L m (sv_backfill_start (pr_services p)) start rd db = (r, db')"
  shows "life_sound nanos backfill S \<lparr>li_db = db', li_proc = after_poll p m ms r\<rparr>"
proof -
  have db: "db_inv db" and sym: "symbols_inv db" using ok by (auto simp: db_ok_def intro: symbols_of [OF ok])
  have b: "nanos backfill \<le> nanos start" using sound p by (simp add: life_sound_def)
  note new = poll_round_known [OF L sv b run]
  have same: "market_pairs db' = market_pairs db"
    using poll_round_db(1) [OF run db] by (simp add: grown_def market_pairs_def)
  have pair: "(pm_market_id m, pm_symbol_id m) \<in> market_pairs db"
    using inv p by (auto simp: proc_inv_def poller_ok_def markets_ok_def)
  have "known_settlement nanos backfill (S k) t" if q: "(k, s) \<in> market_pairs db" "t \<in> set (funding_times s db')" for k s t
  proof (cases "s = pm_symbol_id m")
    case True
    then have "k = pm_market_id m" using pairs_by_symbol [OF sym pair] q(1) by simp
    with True q new(1) sound show ?thesis by (auto simp: life_sound_def dest: fundings_soundD)
  next
    case False
    with q poll_round_db(2) [OF run db, of s] sound show ?thesis by (auto simp: life_sound_def dest: fundings_soundD)
  qed
  then have "fundings_sound nanos backfill S db'" by (auto simp: fundings_sound_def same)
  moreover have "case pr_poller q of PollAt m start ms \<Rightarrow> nanos backfill \<le> nanos start | _ \<Rightarrow> True"
    if "after_poll p m ms r = Some q" for q
    using that new(2) by (cases "(p, m, ms, r)" rule: after_poll.cases) auto
  ultimately show ?thesis by (simp add: life_sound_def split: option.split)
qed

lemma poll_begun_sound:
  assumes L: "chrono_ok L nanos" and inv: "proc_inv False L nanos0 backfill S0 db p"
    and sound: "life_sound nanos backfill S \<lparr>li_db = db, li_proc = Some p\<rparr>" and p: "pr_poller p = PollNext (m # ms)"
    and run: "poll_start L m (sv_backfill_start (pr_services p)) newest_ok db = r"
  shows "life_sound nanos backfill S
     \<lparr>li_db = db, li_proc = after_poll p m ms (case r of Inl e \<Rightarrow> Inl (PollFailed e) | Inr start \<Rightarrow> Inr start)\<rparr>"
proof -
  have pair: "(pm_market_id m, pm_symbol_id m) \<in> market_pairs db"
    using inv p by (auto simp: proc_inv_def poller_ok_def markets_ok_def)
  have "nanos backfill \<le> nanos start" if r: "r = Inr start" for start
  proof -
    have n: "next_request_start L (newest_funding_time (pm_symbol_id m) db) backfill = Inr start"
      using run r inv by (auto simp: poll_start_def with_conn_def proc_inv_def split: if_splits)
    show ?thesis
    proof (cases "newest_funding_time (pm_symbol_id m) db")
      case None
      with n ceil_hour_nanos(2) [OF L] show ?thesis by (simp add: next_request_start_def)
    next
      case (Some t)
      have "t \<in> set (funding_times (pm_symbol_id m) db)" using newest_funding_time_Some [OF Some] by blast
      with sound pair have "nanos backfill \<le> nanos t"
        by (auto simp: life_sound_def fundings_sound_def known_settlement_def)
      with next_request_start_nanos(2) [OF L n [unfolded Some]] show ?thesis by simp
    qed
  qed
  with sound show ?thesis
    by (cases r; cases "projl r") (auto simp: life_sound_def)
qed

section \<open>Every reachable state\<close>

lemma fundings_sound_symbols:
  assumes "fundings_sound nanos backfill S db" and inv: "db_inv db" and "db_fundings db' = db_fundings db"
    and new: "\<forall>q \<in> market_pairs db'. q \<in> market_pairs db \<or> db_next_symbol db \<le> snd q"
  shows "fundings_sound nanos backfill S db'"
proof -
  have "funding_times s db = []" if "db_next_symbol db \<le> s" for s
    using inv that by (fastforce simp: db_inv_def symbols_inv_def symbol_ids_def funding_times_def filter_empty_conv)
  moreover have "funding_times s db' = funding_times s db" for s using assms(3) by (simp add: funding_times_def)
  ultimately show ?thesis
    using new assms(1) unfolding fundings_sound_def by (fastforce dest: bspec)
qed

lemma start_sound:
  assumes "fundings_sound nanos backfill S db" and "db_inv db" and "start_ingestor L cfg env db = (r, db')"
  shows "fundings_sound nanos backfill S db'"
  using assms(3)
proof (cases rule: start_ingestor_cases)
  case (early e)
  with assms(1) show ?thesis by simp
next
  case (synced r1)
  with sync_effect [OF synced(1)] show ?thesis by (intro fundings_sound_symbols [OF assms(1,2)]) auto
qed

lemma writer_sound:
  assumes "life_sound nanos backfill S \<lparr>li_db = db, li_proc = Some p\<rparr>"
    and "db_fundings (wr_db w) = db_fundings db" and "db_symbols (wr_db w) = db_symbols db" and "pr_poller p' = pr_poller p"
  shows "life_sound nanos backfill S (after_writer p' w)"
  using assms
  by (auto simp: life_sound_def fundings_sound_def after_writer_def market_pairs_def funding_times_def)

lemma life_step_sound:
  assumes "life_step L cfg answers l l'" and "life_inv False L nanos0 backfill S0 l" and "life_sound nanos backfill S l"
    and L: "chrono_ok L nanos" and sv: "\<And>k server. answers k server \<Longrightarrow> serves L nanos k (S k) server"
  shows "life_sound nanos backfill S l'"
  using assms(1-3)
proof (induction rule: life_step.induct)
  case (boot env db sv db')
  then have "fundings_sound nanos backfill S db'"
    using start_sound [OF _ _ boot(1)] by (simp add: life_sound_def life_inv_def db_ok_def)
  then show ?case by (simp add: life_sound_def started_def)
next
  case (boot_failed env db e db')
  then have "fundings_sound nanos backfill S db'"
    using start_sound [OF _ _ boot_failed(1)] by (simp add: life_sound_def life_inv_def db_ok_def)
  then show ?case by (simp add: life_sound_def)
next
  case (received p m q db f)
  then have "db_inv db" by (simp add: life_inv_def db_ok_def)
  then have fl: "db_fundings (wr_db (flush f (writer_of db b))) = db_fundings db"
    "db_symbols (wr_db (flush f (writer_of db b))) = db_symbols db" for b
    using flush_db [of "writer_of db b" f] by (simp_all add: writer_of_def)
  have w1: "(writer_of db (pr_batch p))\<lparr>wr_batch := wr_batch (writer_of db (pr_batch p)) @ [m]\<rparr> = writer_of db (pr_batch p @ [m])"
    by (simp add: writer_of_def)
  show ?case
    using fl by (intro writer_sound [OF received(3)]) (simp_all add: Let_def w1, simp_all add: writer_of_def)
next
  case (ticked db p f)
  then have "db_inv db" by (simp add: life_inv_def db_ok_def)
  then have fl: "db_fundings (wr_db (flush f (writer_of db b))) = db_fundings db"
    "db_symbols (wr_db (flush f (writer_of db b))) = db_symbols db" for b
    using flush_db [of "writer_of db b" f] by (simp_all add: writer_of_def)
  show ?case using fl by (intro writer_sound [OF ticked(2)]) simp_all
next
  case (poll_begun p m ms newest_ok db r)
  then show ?case by (intro poll_begun_sound [OF L]) (auto simp: life_inv_def)
next
  case (poll_turned p m start ms rd db r db')
  then show ?case using sv by (intro poll_turned_sound [OF L]) (auto simp: life_inv_def)
qed (auto simp: life_sound_def)

lemma life_reach_sound:
  assumes "life_reach L cfg answers db l" and "chrono_ok L nanos"
    and "\<And>k server. answers k server \<Longrightarrow> serves L nanos k (S k) server"
    and "cf_backfill_start cfg = Some backfill"
    and "db_inv db" and "db_orderbooks db = []" and "db_fundings db = []"
  shows "life_sound nanos backfill S l"
  using assms(1)
proof (induction rule: life_reach.induct)
  case initial
  then show ?case using assms(7) by (simp add: life_sound_def fundings_sound_def funding_times_def)
next
  case (step l l')
  have "life_inv False L (\<lambda>t. 0) backfill (\<lambda>m. []) l"
    using assms(4) by (intro life_reach_inv [OF step(1)]) (simp_all add: hourly_def db_ok_new [OF assms(5-7)])
  from life_step_sound [OF step(2) this step(3) assms(2,3)] show ?case by simp
qed

text \<open>No gap and nothing else: the stored times are the due settlements up to the newest one.\<close>

lemma exact_fundings:
  assumes "no_gap nanos backfill S k db" and "\<And>t. t \<in> set (funding_times k db) \<Longrightarrow> known_settlement nanos backfill S t"
  shows "nanos ` set (funding_times k db) = (\<lambda>s. s * 1000000000) `
     {s \<in> set S. nanos backfill \<le> s * 1000000000 \<and> (\<exists>t \<in> set (funding_times k db). s * 1000000000 \<le> nanos t)}"
  (is "?stored = ?due")
proof
  show "?stored \<subseteq> ?due"
  proof
    fix x assume "x \<in> ?stored"
    then obtain t where t: "t \<in> set (funding_times k db)" "x = nanos t" by blast
    with assms(2) [OF t(1)] obtain s where "s \<in> set S" "x = s * 1000000000" "nanos backfill \<le> x"
      by (auto simp: known_settlement_def)
    with t show "x \<in> ?due" by force
  qed
  show "?due \<subseteq> ?stored"
  proof
    fix x assume "x \<in> ?due"
    then obtain s t where s: "s \<in> set S" "x = s * 1000000000" "nanos backfill \<le> x" "t \<in> set (funding_times k db)" "x \<le> nanos t"
      by blast
    with assms(1) have "has_settlement nanos k db s" by (auto simp: no_gap_def)
    with s(2) show "x \<in> ?stored" by (force simp: has_settlement_def)
  qed
qed

end
