(* ===== verification/Feed_Props.thy ===== *)
theory Feed_Props
  imports Sample
begin

text \<open>
  The properties of one WebSocket connection: its books, the rows it hands to the writer and the
  frames it sends. Each is stated for the connections the loop can reach.
\<close>

section \<open>Rows and books\<close>

text \<open>C3. A reader who replays the order-book rows of a symbol, in the order in which a connection
  handed them to the writer, holds at every moment exactly the nonce and the book that the
  connection holds for that market, periodic snapshot rows included.\<close>

theorem rows_replay_to_book:
  assumes "reach L market_ids symbol_cache c" and "inj_on symbol_cache (dom symbol_cache)"
    and "symbol_cache market_id = Some symbol"
  shows "read_rows L (rows_of symbol (cn_rows c)) = Some (map_option market_state (cn_markets c market_id))"
  using feed_inv_market [OF reach_inv [OF assms(1,2)] assms(3)] by (simp add: market_ok_def)

theorem rows_replay_to_book_witness:
  "read_rows sample (rows_of 1 (cn_rows sample_conn)) = Some (map_option market_state (cn_markets sample_conn 7))
   \<and> map_option mb_nonce (cn_markets sample_conn 7) = Some 12 \<and> length (rows_of 1 (cn_rows sample_conn)) = 3"
  by (intro conjI rows_replay_to_book [OF sample_reach sample_cache_inj], simp add: sample_cache_def, code_simp+)

text \<open>Any snapshot row of a symbol is an anchor: a reader who starts at that row, ignoring all
  rows before it, arrives at the connection's nonce and book.\<close>

lemma snapshot_rows_are_anchors:
  assumes "reach L market_ids symbol_cache c" and "inj_on symbol_cache (dom symbol_cache)"
    and "symbol_cache market_id = Some symbol"
    and "rows_of symbol (cn_rows c) = before @ row # later" and "obr_type row = ''snapshot''"
  shows "read_rows L (row # later) = Some (map_option market_state (cn_markets c market_id))"
proof -
  have all: "read_rows L (before @ row # later) = Some (map_option market_state (cn_markets c market_id))"
    using feed_inv_market [OF reach_inv [OF assms(1,2)] assms(3)] assms(4) by (simp add: market_ok_def)
  then obtain l1 lr l2 where l: "to_log row = Some lr" "seq_opt to_log later = Some l2"
    and r: "replay (from_snapshot L) (apply_delta L) None (l1 @ lr # l2)
        = Inr (map_option market_state (cn_markets c market_id))"
    by (auto simp: read_rows_def seq_opt_append split: option.splits sum.splits)
  have "is_snap lr" using l(1) assms(5) by (auto simp: to_log_def split: option.splits if_splits)
  from replay_restart [OF r this] l show ?thesis by (auto simp: read_rows_def)
qed

lemma snapshot_rows_are_anchors_witness:
  "read_rows sample [last (rows_of 1 (cn_rows sample_conn))]
     = Some (map_option market_state (cn_markets sample_conn 7))"
proof (rule snapshot_rows_are_anchors [OF sample_reach sample_cache_inj])
  show "sample_cache 7 = Some 1" by (simp add: sample_cache_def)
  show "rows_of 1 (cn_rows sample_conn) = butlast (rows_of 1 (cn_rows sample_conn)) @ [last (rows_of 1 (cn_rows sample_conn))]"
    by code_simp
  show "obr_type (last (rows_of 1 (cn_rows sample_conn))) = ''snapshot''" by code_simp
qed

text \<open>Over any number of connections, each of which ends in any way, the order-book rows of a
  symbol form one chain: the first row is a snapshot, a snapshot has no \<^verbatim>\<open>begin_nonce\<close>, and a delta has
  the \<^verbatim>\<open>sequence\<close> of the row before it as \<^verbatim>\<open>begin_nonce\<close> and is not older than that row. A reader of
  all of them never meets a row that it cannot apply.\<close>

lemma reconnects_keep_chain:
  assumes "inj_on symbol_cache (dom symbol_cache)" and "symbol_cache market_id = Some symbol"
  shows "chained (rows_of symbol (ws_sessions L market_ids symbol_cache sessions))
     \<and> read_rows L (rows_of symbol (ws_sessions L market_ids symbol_cache sessions)) \<noteq> None"
proof -
  from assms(2) have "symbol \<in> ran symbol_cache" by (rule ranI)
  with ws_sessions_logs [OF assms(1), of L market_ids sessions] show ?thesis
    by (simp add: logs_ok_def log_ok_def)
qed

definition sample_sessions :: "session list" where
  "sample_sessions =
     [\<lparr>ss_connect = True, ss_tx_open = True, ss_sink = None,
       ss_events = [text_event ''snapshot'', text_event ''delta'', text_event ''late'']\<rparr>,
      \<lparr>ss_connect = False, ss_tx_open = True, ss_sink = None, ss_events = []\<rparr>,
      \<lparr>ss_connect = True, ss_tx_open = True, ss_sink = None, ss_events = sample_events\<rparr>]"

text \<open>C23. A snapshot tick on a reachable connection whose writer still receives never fails. It
  hands over one row for each book, in the map's order: a snapshot with the book's nonce, source time
  and levels, and nothing else of the connection changes.\<close>

theorem snapshot_tick_writes_each_book:
  assumes "reach L market_ids symbol_cache c" and "inj_on symbol_cache (dom symbol_cache)"
    and "cn_tx_open c" and "iteration_order order (cn_markets c)"
  shows "on_event L market_ids symbol_cache (SnapshotTick order) c = (Inr (), c\<lparr>cn_rows := cn_rows c
     @ map (\<lambda>k. WOrderbook (book_snapshot_row (the (symbol_cache k)) (the (cn_markets c k)))) order\<rparr>)"
  using reach_inv [OF assms(1,2)] assms(3,4) periodic_ok [of c symbol_cache order]
  by (simp add: feed_inv_def iteration_order_def)

theorem snapshot_tick_writes_each_book_witness:
  "on_event sample [7, 8] sample_cache (SnapshotTick [7]) sample_conn = (Inr (), sample_conn\<lparr>cn_rows :=
     cn_rows sample_conn @ map (\<lambda>k. WOrderbook (book_snapshot_row (the (sample_cache k))
       (the (cn_markets sample_conn k)))) [7]\<rparr>)"
proof (rule snapshot_tick_writes_each_book [OF sample_reach sample_cache_inj sample_open])
  show "iteration_order [7] (cn_markets sample_conn)" by (simp add: iteration_order_def sample_markets)
qed

section \<open>Order-book messages\<close>

text \<open>C22. Every book a connection holds lists its bids in strictly descending and its asks in strictly
  ascending price, and each listed level parses, with a size that is not zero.\<close>

theorem books_are_sorted:
  assumes "reach L market_ids symbol_cache c" and "inj_on symbol_cache (dom symbol_cache)"
    and "cn_markets c market_id = Some market"
  shows "\<exists>ps qs. level_prices L (bids (mb_book market)) = map Some ps \<and> sorted_wrt (>) ps
     \<and> level_prices L (asks (mb_book market)) = map Some qs \<and> sorted_wrt (<) qs
     \<and> list_all (\<lambda>l. \<exists>p. level_at L p l) (bids (mb_book market) @ asks (mb_book market))"
proof -
  note inv = reach_inv [OF assms(1,2)]
  then obtain symbol where "symbol_cache market_id = Some symbol"
    using assms(3) by (auto simp: feed_inv_def)
  from feed_inv_market [OF inv this] assms(3) have "book_inv L (mb_book market)" by (simp add: market_ok_def)
  then have b: "side_inv L (book_bids (mb_book market))" and a: "side_inv L (book_asks (mb_book market))"
    by (simp_all add: book_inv_def)
  let ?ps = "rev (map fst (book_bids (mb_book market)))" let ?qs = "map fst (book_asks (mb_book market))"
  have "level_prices L (bids (mb_book market)) = map Some ?ps" "level_prices L (asks (mb_book market)) = map Some ?qs"
    using side_prices [OF b] side_prices [OF a] by (simp_all add: bids_def asks_def level_prices_rev rev_map)
  moreover have "sorted_wrt (>) ?ps" "sorted_wrt (<) ?qs"
    using a b by (simp_all add: side_inv_def bt_wf_def sorted_wrt_rev)
  moreover have "list_all (\<lambda>l. \<exists>p. level_at L p l) (bids (mb_book market) @ asks (mb_book market))"
    using a b by (fastforce simp: side_inv_def list_all_iff bids_def asks_def bt_values_def)
  ultimately show ?thesis by blast
qed

theorem books_are_sorted_witness:
  "\<exists>ps qs. level_prices sample (bids (mb_book (the (cn_markets sample_conn 7)))) = map Some ps \<and> sorted_wrt (>) ps
     \<and> level_prices sample (asks (mb_book (the (cn_markets sample_conn 7)))) = map Some qs \<and> sorted_wrt (<) qs
     \<and> list_all (\<lambda>l. \<exists>p. level_at sample p l)
         (bids (mb_book (the (cn_markets sample_conn 7))) @ asks (mb_book (the (cn_markets sample_conn 7))))"
proof (rule books_are_sorted [OF sample_reach sample_cache_inj])
  show "cn_markets sample_conn 7 = Some (the (cn_markets sample_conn 7))"
    using sample_markets by (metis domIff insertI1 option.collapse)
qed

text \<open>C19. A delta is accepted exactly when the market has a book, \<^verbatim>\<open>begin_nonce\<close> is the book's nonce, the
  time is representable and not before the book's, and every level parses; nothing else is asked.\<close>

theorem delta_accepted_iff:
  "(\<exists>row markets'. apply_orderbook_message L symbol market_id (ObUpdate channel at ob) markets = (Inr row, markets'))
   \<longleftrightarrow> (\<exists>market time bs as. markets market_id = Some market \<and> ob_begin_nonce ob = mb_nonce market
        \<and> from_micros L at = Some time \<and> mb_source_time market \<le> time
        \<and> collect_res (level_edit L) (ob_bids ob) = Inr bs \<and> collect_res (level_edit L) (ob_asks ob) = Inr as)"
proof (cases "markets market_id")
  case (Some market)
  obtain r book where d: "apply_delta L (mb_book market) (ob_bids ob) (ob_asks ob) = (r, book)" by fastforce
  have "r = Inr () \<longleftrightarrow> (\<exists>es. collect_res (level_edit L) (ob_bids ob) = Inr es)
      \<and> (\<exists>es. collect_res (level_edit L) (ob_asks ob) = Inr es)"
    using apply_delta_accepts [of L "mb_book market" "ob_bids ob" "ob_asks ob"] d by simp
  with Some d show ?thesis
    by (cases "from_micros L at"; cases r)
      (auto simp: micros_to_datetime_def orderbook_row_def not_less)
qed simp

text \<open>C20. An accepted delta makes the market's nonce and source time those of the message, and leaves at
  each price what the last level of that price says: nothing when its size is zero, that level
  otherwise; prices the message does not name keep their level. The row carries the message's own
  levels, nonces and time, and no other market changes.\<close>

theorem delta_effect:
  assumes "apply_orderbook_message L symbol market_id (ObUpdate channel at ob) markets = (Inr row, markets')"
    and "markets market_id = Some market" and "book_inv L (mb_book market)"
  shows "\<exists>book time. from_micros L at = Some time
     \<and> markets' = markets(market_id \<mapsto> \<lparr>mb_nonce = ob_nonce ob, mb_source_time = time, mb_book = book\<rparr>)
     \<and> map_of (book_bids book) = side_after L (map_of (book_bids (mb_book market))) (ob_bids ob)
     \<and> map_of (book_asks book) = side_after L (map_of (book_asks (mb_book market))) (ob_asks ob)
     \<and> row = \<lparr>obr_time = time, obr_symbol = symbol, obr_type = ''delta'', obr_sequence = Some (ob_nonce ob),
          obr_bids = ser_levels (ob_bids ob), obr_asks = ser_levels (ob_asks ob),
          obr_begin_nonce = Some (ob_begin_nonce ob)\<rparr>"
proof -
  obtain time book where t: "from_micros L at = Some time"
    and d: "apply_delta L (mb_book market) (ob_bids ob) (ob_asks ob) = (Inr (), book)"
    and rest: "markets' = markets(market_id \<mapsto> market\<lparr>mb_book := book, mb_nonce := ob_nonce ob, mb_source_time := time\<rparr>)"
      "orderbook_row L symbol ''delta'' (Some (ob_begin_nonce ob)) at ob = Inr row"
    using assms(1,2) by (auto simp: micros_to_datetime_def split: sum.splits prod.splits if_splits)
  have "bt_wf (book_bids (mb_book market))" "bt_wf (book_asks (mb_book market))"
    using assms(3) by (simp_all add: book_inv_def side_inv_def)
  with d have "map_of (book_bids book) = side_after L (map_of (book_bids (mb_book market))) (ob_bids ob)"
    "map_of (book_asks book) = side_after L (map_of (book_asks (mb_book market))) (ob_asks ob)"
    by (auto simp: apply_delta_ok intro: apply_side_after)
  moreover have "market\<lparr>mb_book := book, mb_nonce := ob_nonce ob, mb_source_time := time\<rparr>
      = \<lparr>mb_nonce = ob_nonce ob, mb_source_time = time, mb_book = book\<rparr>"
    by (cases market) simp
  ultimately show ?thesis
    using t rest by (intro exI [of _ book] exI [of _ time]) (auto simp: orderbook_row_def micros_to_datetime_def)
qed

definition sample_level :: "string \<Rightarrow> string \<Rightarrow> price_level" where
  "sample_level p s = \<lparr>level_price = p, level_size = s\<rparr>"

definition sample_delta :: order_book_side_levels where
  "sample_delta = \<lparr>ob_offset = 1, ob_nonce = 13, ob_begin_nonce = 12,
     ob_asks = [sample_level ''100.0'' ''0''], ob_bids = [sample_level ''99.75'' ''0'', sample_level ''99.75'' ''7'']\<rparr>"

definition sample_market :: "(int, int) market_book" where
  "sample_market = the (cn_markets sample_conn 7)"

lemma sample_market_inv: "cn_markets sample_conn 7 = Some sample_market" "book_inv sample (mb_book sample_market)"
proof -
  show m: "cn_markets sample_conn 7 = Some sample_market"
    using sample_markets by (metis domIff insertI1 option.collapse sample_market_def)
  have "sample_cache 7 = Some 1" by (simp add: sample_cache_def)
  from feed_inv_market [OF reach_inv [OF sample_reach sample_cache_inj] this] m
  show "book_inv sample (mb_book sample_market)" by (simp add: market_ok_def)
qed

definition sample_delta_result :: "(ws_error + int ob_row) \<times> (int, int) markets" where
  "sample_delta_result = apply_orderbook_message sample 1 7 (ObUpdate ''order_book:7'' 2500 sample_delta) (cn_markets sample_conn)"

lemma sample_delta_ok:
  "apply_orderbook_message sample 1 7 (ObUpdate ''order_book:7'' 2500 sample_delta) (cn_markets sample_conn)
     = (Inr (projr (fst sample_delta_result)), snd sample_delta_result)"
proof -
  have "isl (fst sample_delta_result) = False" by code_simp
  then show ?thesis by (simp add: sample_delta_result_def prod_eq_iff sum.expand)
qed

theorem delta_effect_witness:
  "\<exists>book time. from_micros sample 2500 = Some time
     \<and> snd sample_delta_result = (cn_markets sample_conn)(7 \<mapsto> \<lparr>mb_nonce = ob_nonce sample_delta, mb_source_time = time, mb_book = book\<rparr>)
     \<and> map_of (book_bids book) = side_after sample (map_of (book_bids (mb_book sample_market))) (ob_bids sample_delta)
     \<and> map_of (book_asks book) = side_after sample (map_of (book_asks (mb_book sample_market))) (ob_asks sample_delta)
     \<and> projr (fst sample_delta_result) = \<lparr>obr_time = time, obr_symbol = 1, obr_type = ''delta'', obr_sequence = Some (ob_nonce sample_delta),
          obr_bids = ser_levels (ob_bids sample_delta), obr_asks = ser_levels (ob_asks sample_delta),
          obr_begin_nonce = Some (ob_begin_nonce sample_delta)\<rparr>"
  by (rule delta_effect [OF sample_delta_ok sample_market_inv])

text \<open>A complete book is accepted exactly when its time is representable and each of its levels
  parses with a size that is not zero, whatever the connection held before.\<close>

lemma snapshot_accepted_iff:
  "(\<exists>row markets'. apply_orderbook_message L symbol market_id (ObSubscribed channel at ob) markets = (Inr row, markets'))
   \<longleftrightarrow> from_micros L at \<noteq> None \<and> list_all (\<lambda>l. \<exists>p. level_at L p l) (ob_bids ob @ ob_asks ob)"
proof -
  have "(\<exists>book. from_snapshot L (ob_bids ob) (ob_asks ob) = Inr book)
    \<longleftrightarrow> list_all (\<lambda>l. \<exists>p. level_at L p l) (ob_bids ob @ ob_asks ob)"
    using side_from_snapshot_accepts [of L "ob_bids ob"] side_from_snapshot_accepts [of L "ob_asks ob"]
    by (auto simp: from_snapshot_def)
  then show ?thesis
    by (cases "from_micros L at"; cases "from_snapshot L (ob_bids ob) (ob_asks ob)")
      (auto simp: micros_to_datetime_def orderbook_row_def)
qed

text \<open>Its row gives a reader the book that the market then has.\<close>

lemma snapshot_row_read:
  assumes "apply_orderbook_message L symbol market_id (ObSubscribed channel at ob) markets = (Inr row, markets')"
  obtains m where "markets' market_id = Some m" and "read_rows L [row] = Some (Some (ob_nonce ob, mb_book m))"
proof -
  obtain time book where "from_snapshot L (ob_bids ob) (ob_asks ob) = Inr book"
    and "markets' market_id = Some \<lparr>mb_nonce = ob_nonce ob, mb_source_time = time, mb_book = book\<rparr>"
    and "orderbook_row L symbol ''snapshot'' None at ob = Inr row"
    using assms by (auto simp: micros_to_datetime_def split: sum.splits)
  then show thesis by (intro that) (auto simp: orderbook_row_def read_rows_def to_log_def)
qed

text \<open>C21. An accepted complete book replaces what the market had: at each price the last level of that
  price, nothing elsewhere. A reader of the one row that is handed over gets this book and nonce.\<close>

theorem snapshot_effect:
  assumes "apply_orderbook_message L symbol market_id (ObSubscribed channel at ob) markets = (Inr row, markets')"
  shows "\<exists>book time. from_micros L at = Some time
     \<and> markets' = markets(market_id \<mapsto> \<lparr>mb_nonce = ob_nonce ob, mb_source_time = time, mb_book = book\<rparr>)
     \<and> map_of (book_bids book) = side_after L Map.empty (ob_bids ob)
     \<and> map_of (book_asks book) = side_after L Map.empty (ob_asks ob)
     \<and> read_rows L [row] = Some (Some (ob_nonce ob, book))"
proof -
  obtain time book where t: "from_micros L at = Some time"
    and b: "from_snapshot L (ob_bids ob) (ob_asks ob) = Inr book"
    and rest: "markets' = markets(market_id \<mapsto> \<lparr>mb_nonce = ob_nonce ob, mb_source_time = time, mb_book = book\<rparr>)"
      "orderbook_row L symbol ''snapshot'' None at ob = Inr row"
    using assms by (auto simp: micros_to_datetime_def split: sum.splits)
  have side: "map_of side = side_after L Map.empty levels" if "side_from_snapshot L levels = Inr side" for side levels
    using that apply_side_after [of "[]" L levels side]
    by (simp add: side_from_snapshot_def side_from_levels_ok bt_wf_def)
  have "map_of (book_bids book) = side_after L Map.empty (ob_bids ob)"
    "map_of (book_asks book) = side_after L Map.empty (ob_asks ob)"
    using b side by (simp_all add: from_snapshot_Inr)
  moreover have "read_rows L [row] = Some (Some (ob_nonce ob, book))"
    using rest(2) b by (auto simp: orderbook_row_def read_rows_def to_log_def)
  ultimately show ?thesis using t rest(1) by blast
qed

definition sample_snapshot_result :: "(ws_error + int ob_row) \<times> (int, int) markets" where
  "sample_snapshot_result = apply_orderbook_message sample 1 7 (ObSubscribed ''order_book:7'' 2500
     (sample_delta\<lparr>ob_asks := [], ob_bids := [sample_level ''1'' ''2'', sample_level ''1.0'' ''3'']\<rparr>)) Map.empty"

theorem snapshot_effect_witness:
  "\<exists>book time. from_micros sample 2500 = Some time
     \<and> snd sample_snapshot_result = [7 \<mapsto> \<lparr>mb_nonce = 13, mb_source_time = time, mb_book = book\<rparr>]
     \<and> map_of (book_bids book) = side_after sample Map.empty [sample_level ''1'' ''2'', sample_level ''1.0'' ''3'']
     \<and> read_rows sample [projr (fst sample_snapshot_result)] = Some (Some (13, book))"
proof -
  have "isl (fst sample_snapshot_result) = False" by code_simp
  then have "apply_orderbook_message sample 1 7 (ObSubscribed ''order_book:7'' 2500
     (sample_delta\<lparr>ob_asks := [], ob_bids := [sample_level ''1'' ''2'', sample_level ''1.0'' ''3'']\<rparr>)) Map.empty
     = (Inr (projr (fst sample_snapshot_result)), snd sample_snapshot_result)"
    by (simp add: sample_snapshot_result_def prod_eq_iff sum.expand)
  from snapshot_effect [OF this] show ?thesis by (auto simp: sample_delta_def)
qed


end
