(* ===== verification/Session_Props.thy ===== *)
theory Session_Props
  imports Feed_Props
begin

text \<open>
  The properties of a connection's frames: which end it, which leave it alone, what it sends.
\<close>

section \<open>Frames that carry order books\<close>

lemma order_book_frame:
  assumes "json_from_str L text = Some (JObj kvs)" and "map_of kvs ''error'' = None"
    and "de_order_book_ws_message (JObj kvs) = Some m"
  shows "on_event L ids cache (text_event text) c = handle_orderbook_frame L cache (JObj kvs) c"
proof -
  from de_order_book_type [OF assms(3)]
  obtain p where "map_of kvs ''type'' = Some (JStr (p @ ''order_book''))"
    by (metis append.simps(1,2))
  with assms(1,2) show ?thesis
    by (simp add: text_event_def handle_value_def frame_type_def Let_def)
qed

text \<open>C24. A delta of a known market that does not continue the nonce of its book, or comes before any
  book, ends the connection with a report of the gap; no row is handed over and no book changes.\<close>

theorem gap_ends_connection:
  assumes "json_from_str L text = Some (JObj kvs)" and "map_of kvs ''error'' = None"
    and "de_order_book_ws_message (JObj kvs) = Some (ObUpdate channel at ob)"
    and "channel_market_id channel = Some market_id" and "market_id \<in> dom symbol_cache"
    and "map_option mb_nonce (cn_markets c market_id) \<noteq> Some (ob_begin_nonce ob)"
  shows "on_event L market_ids symbol_cache (text_event text) c =
     (Inl (case cn_markets c market_id of None \<Rightarrow> DeltaBeforeSnapshot market_id
           | Some market \<Rightarrow> NonceGap market_id (ob_begin_nonce ob) (mb_nonce market)), c)"
proof -
  obtain symbol where "symbol_cache market_id = Some symbol" using assms(5) by blast
  with assms(3,4,6) order_book_frame [OF assms(1-3)] show ?thesis
    by (cases "cn_markets c market_id") (auto simp: handle_orderbook_frame_def ob_market_id_def)
qed

theorem gap_ends_connection_witness:
  "\<exists>e. on_event sample [7, 8] sample_cache (text_event ''late'') sample_conn = (Inl e, sample_conn)"
proof -
  obtain kvs where j: "late_delta_json = JObj kvs" and e: "map_of kvs ''error'' = None"
    by (simp add: late_delta_json_def ob_json_def)
  have t: "json_from_str sample ''late'' = Some (JObj kvs)" using j by (simp add: sample_def sample_libs_def)
  have d: "de_order_book_ws_message late_delta_json = Some (ObUpdate ''order_book:7'' 3000
      \<lparr>ob_offset = 1, ob_nonce = 13, ob_begin_nonce = 11, ob_asks = [], ob_bids = []\<rparr>)"
    by code_simp
  have k: "channel_market_id ''order_book:7'' = Some 7" by code_simp
  have s: "(7::int) \<in> dom sample_cache" by (simp add: sample_cache_def)
  have "map_option mb_nonce (cn_markets sample_conn 7) = Some 12" by code_simp
  then have n: "map_option mb_nonce (cn_markets sample_conn 7) \<noteq> Some (ob_begin_nonce
      \<lparr>ob_offset = 1, ob_nonce = 13, ob_begin_nonce = 11, ob_asks = [], ob_bids = []\<rparr>)" by auto
  from gap_ends_connection [OF t e d [unfolded j] k s n] show ?thesis by blast
qed

text \<open>C25. A frame that ends the connection hands over no order-book row: the rows of every symbol are
  those from before the frame, also when the book was already changed in part.\<close>

theorem failed_frame_emits_no_book_row:
  assumes "on_event L market_ids symbol_cache (Frame item) c = (Inl e, c')"
  shows "rows_of symbol (cn_rows c') = rows_of symbol (cn_rows c)"
proof -
  have "orderbooks_of (cn_rows c') = orderbooks_of (cn_rows c)"
  proof (cases item)
    case (Item m)
    with assms show ?thesis by (cases m) (auto split: option.splits dest: handle_value_failed)
  qed (use assms in auto)
  then show ?thesis by (simp add: rows_of_def)
qed

theorem failed_frame_emits_no_book_row_witness:
  "rows_of 1 (cn_rows (snd (on_event sample [7, 8] sample_cache (text_event ''bad trade'') sample_conn)))
     = rows_of 1 (cn_rows sample_conn)"
proof -
  have "fst (on_event sample [7, 8] sample_cache (text_event ''bad trade'') sample_conn) = Inl (TradePrice ''x'')"
    by code_simp
  then have "on_event sample [7, 8] sample_cache (Frame (Item (MsgText ''bad trade''))) sample_conn
      = (Inl (TradePrice ''x''), snd (on_event sample [7, 8] sample_cache (text_event ''bad trade'') sample_conn))"
    by (simp add: text_event_def prod_eq_iff del: on_event.simps)
  then show ?thesis by (rule failed_frame_emits_no_book_row)
qed

section \<open>What the connection sends\<close>

text \<open>A connection that reaches its loop has sent, before anything else and in the order of the
  market ids, a subscription to the order-book channel and one to the trade channel of each market.\<close>

lemma subscribes_to_every_market:
  assumes "reach L market_ids symbol_cache c"
  shows "\<exists>later. cn_frames c = concat (map (\<lambda>k. [sub_frame ''subscribe'' (''order_book/'' @ show_int k),
      sub_frame ''subscribe'' (''trade/'' @ show_int k)]) market_ids) @ later"
proof -
  have "map snd (subscriptions market_ids) = concat (map (\<lambda>k. [sub_frame ''subscribe'' (''order_book/'' @ show_int k),
      sub_frame ''subscribe'' (''trade/'' @ show_int k)]) market_ids)"
    by (simp add: subscriptions_def map_concat comp_def orderbook_channel_def trade_channel_def)
  with reach_frames [OF assms] show ?thesis by metis
qed

text \<open>C27. A book check on a working socket sends an unsubscription and then a subscription to the
  order-book channel of exactly the markets without a book, in the order of the market ids, and changes
  nothing else; with a book for every market it sends nothing.\<close>

theorem book_check_resubscribes:
  assumes "cn_sink c = None"
  shows "on_event L market_ids symbol_cache BookCheckTick c = (Inr (), c\<lparr>cn_frames := cn_frames c
     @ concat (map (\<lambda>k. [sub_frame ''unsubscribe'' (''order_book/'' @ show_int k),
         sub_frame ''subscribe'' (''order_book/'' @ show_int k)])
         (filter (\<lambda>k. k \<notin> dom (cn_markets c)) market_ids))\<rparr>)"
proof -
  have "missing_books market_ids (cn_markets c) = filter (\<lambda>k. k \<notin> dom (cn_markets c)) market_ids"
    by (simp add: missing_books_def domIff)
  moreover have "map snd (resubscriptions ks) = concat (map (\<lambda>k. [sub_frame ''unsubscribe'' (''order_book/'' @ show_int k),
         sub_frame ''subscribe'' (''order_book/'' @ show_int k)]) ks)" for ks
    by (simp add: resubscriptions_def map_concat comp_def orderbook_channel_def Let_def)
  ultimately show ?thesis by (simp add: ws_write_all_healthy [OF assms])
qed

theorem book_check_resubscribes_witness:
  "on_event sample [7, 8] sample_cache BookCheckTick sample_conn = (Inr (), sample_conn\<lparr>cn_frames := cn_frames sample_conn
     @ concat (map (\<lambda>k. [sub_frame ''unsubscribe'' (''order_book/'' @ show_int k),
         sub_frame ''subscribe'' (''order_book/'' @ show_int k)])
         (filter (\<lambda>k. k \<notin> dom (cn_markets sample_conn)) [7, 8]))\<rparr>)"
  by (rule book_check_resubscribes) code_simp

section \<open>Messages\<close>

text \<open>C28. The market id of a channel name \<^verbatim>\<open>kind:id\<close>, as a message of either type and of either variant reads it,
  is the \<^verbatim>\<open>i32\<close> that the name was made from; whatever any message reads as its market id is in the range
  of \<^verbatim>\<open>i32\<close>.\<close>

theorem market_id_roundtrip:
  assumes "in_i32 n"
  shows "ob_market_id (ObSubscribed (''order_book:'' @ show_int n) at ob) = Some n
     \<and> ob_market_id (ObUpdate (''order_book:'' @ show_int n) at ob) = Some n
     \<and> tr_ws_market_id (TrSubscribed (''trade:'' @ show_int n) nonce ts ls) = Some n
     \<and> tr_ws_market_id (TrUpdate (''trade:'' @ show_int n) nonce ts ls) = Some n
     \<and> (\<forall>msg k. ob_market_id msg = Some k \<longrightarrow> in_i32 k) \<and> (\<forall>msg k. tr_ws_market_id msg = Some k \<longrightarrow> in_i32 k)"
  using channel_market_id_show [of "''order_book''" n] channel_market_id_show [of "''trade''" n] assms
  by (simp add: ob_market_id_def tr_ws_market_id_def channel_market_id_range)

theorem market_id_roundtrip_witness:
  "ob_market_id (ObSubscribed (''order_book:'' @ show_int (-2147483648)) 5 sample_delta) = Some (-2147483648)
     \<and> tr_ws_market_id (TrSubscribed (''trade:'' @ show_int (-2147483648)) 1 [] []) = Some (-2147483648)"
  using market_id_roundtrip [of "-2147483648" 5 sample_delta 1 "[]" "[]"] by (simp add: in_i32_def)

text \<open>C26. A trade frame of a known market hands over one row for each trade, regular trades first, then
  liquidations, each in the order of the frame, up to the first trade that is no row; the connection
  goes on exactly when every trade is one.\<close>

theorem trade_frame_rows:
  assumes "de_trade_ws_message frame = Some msg" and "tr_ws_market_id msg = Some market_id"
    and "symbol_cache market_id = Some symbol" and "cn_tx_open c" and "tr_trades msg = (ts, ls)"
  shows "handle_trade_frame L symbol_cache frame c =
     (and_then (collect_res (\<lambda>t. trade_row L t symbol) (ts @ ls)) (\<lambda>rows. Inr ()),
      c\<lparr>cn_rows := cn_rows c @ map WTrade (row_prefix L symbol (ts @ ls))\<rparr>)"
  using assms by (simp add: handle_trade_frame_def send_trades_rows)

definition sample_trades :: trade_ws_message where
  "sample_trades = the (de_trade_ws_message (trades_json
     [trade_json 1 ''trade'' ''99.5''] [trade_json 2 ''liquidation'' ''99'']))"

theorem trade_frame_rows_witness:
  "handle_trade_frame sample sample_cache (trades_json [trade_json 1 ''trade'' ''99.5''] [trade_json 2 ''liquidation'' ''99'']) sample_conn
   = (Inr (), sample_conn\<lparr>cn_rows := cn_rows sample_conn
       @ map WTrade (row_prefix sample 1 (fst (tr_trades sample_trades) @ snd (tr_trades sample_trades)))\<rparr>)
   \<and> length (row_prefix sample 1 (fst (tr_trades sample_trades) @ snd (tr_trades sample_trades))) = 2"
proof -
  have "\<not> Option.is_none (de_trade_ws_message (trades_json [trade_json 1 ''trade'' ''99.5''] [trade_json 2 ''liquidation'' ''99'']))"
    by code_simp
  then have d: "de_trade_ws_message (trades_json [trade_json 1 ''trade'' ''99.5''] [trade_json 2 ''liquidation'' ''99''])
      = Some sample_trades"
    by (auto simp: sample_trades_def Option.is_none_def)
  have k: "tr_ws_market_id sample_trades = Some 7" by code_simp
  have s: "sample_cache 7 = Some 1" by (simp add: sample_cache_def)
  have "\<not> isl (collect_res (\<lambda>t. trade_row sample t 1)
      (fst (tr_trades sample_trades) @ snd (tr_trades sample_trades)))"
    by code_simp
  then obtain rows where "collect_res (\<lambda>t. trade_row sample t 1)
      (fst (tr_trades sample_trades) @ snd (tr_trades sample_trades)) = Inr rows"
    by (metis isl_def old.sum.exhaust)
  moreover have "length (row_prefix sample 1 (fst (tr_trades sample_trades) @ snd (tr_trades sample_trades))) = 2"
    by code_simp
  ultimately show ?thesis
    using trade_frame_rows [OF d k, of sample_cache 1 sample_conn, OF s sample_open, of "fst (tr_trades sample_trades)" "snd (tr_trades sample_trades)" sample]
    by auto
qed


end
