(* ===== verification/Export_Props.thy ===== *)
theory Export_Props
  imports Query Sample
begin

text \<open>
  The properties of the Parquet export: what a finished file holds, what the query asks for, which files an
  export may touch.
\<close>

section \<open>What is written\<close>

definition sample_view :: "(int, int) trade_view" where
  "sample_view = \<lparr>tv_time = 5000, tv_symbol = ''BTC'', tv_id = 1, tv_price = 3, tv_size = 4, tv_maker = True,
     tv_kind = ''trade''\<rparr>"

definition sample_book_view :: "int book_view" where
  "sample_book_view = \<lparr>bv_time = 5000, bv_symbol = ''BTC'', bv_type = ''snapshot'', bv_sequence = Some 3,
     bv_bids = JArr [], bv_asks = JArr [JNull]\<rparr>"

definition sample_env :: "(int, int) export_env" where
  "sample_env = \<lparr>ev_connect = True, ev_names = (\<lambda>names. Some [''BTC'', ''O'' @ [CHR 0x27] @ ''X'']), ev_mkdir = True,
     ev_others = Map.empty, ev_open = (\<lambda>p. True), ev_room = (\<lambda>p. None),
     ev_trades = (\<lambda>sql. Some [Some sample_view, Some sample_view]), ev_books = (\<lambda>sql. Some [Some sample_book_view])\<rparr>"

text \<open>A database that answers the two queries, from the text that they have.\<close>

definition clause_of :: "(string \<Rightarrow> string) \<Rightarrow> string \<Rightarrow> string" where
  "clause_of sql text = (let before = length (takeWhile (\<lambda>c. c \<noteq> CHR ''#'') (sql ''#'')) in
     take (length text - length (sql [])) (drop before text))"

definition answering :: "(nat \<Rightarrow> int) \<Rightarrow> (int, int, int) db \<Rightarrow> (int, int) export_env" where
  "answering ago db = sample_env\<lparr>ev_names := (\<lambda>names. Some (map sym_name (db_symbols db))),
     ev_trades := (\<lambda>text. map_option (\<lambda>sel. map Some (select_trades ago sel db))
        (read_where ''t.time'' (clause_of trades_sql text))),
     ev_books := (\<lambda>text. map_option (\<lambda>sel. map Some (select_orderbooks ago sel db))
        (read_where ''o.time'' (clause_of orderbooks_sql text)))\<rparr>"

lemma clause_of_trades: "clause_of trades_sql (trades_sql filt) = filt"
  by (simp add: clause_of_def trades_sql_def)

lemma clause_of_orderbooks: "clause_of orderbooks_sql (orderbooks_sql filt) = filt"
  by (simp add: clause_of_def orderbooks_sql_def)

lemma answering_answers: "answers_trades ago db (answering ago db)" "answers_orderbooks ago db (answering ago db)"
  by (auto simp: answers_trades_def answers_orderbooks_def answering_def clause_of_trades clause_of_orderbooks streams_def)

text \<open>A database with rows of two symbols.\<close>

definition trades_db :: "(int, int, int) db" where
  "trades_db = \<lparr>db_symbols = [\<lparr>sym_id = 1, sym_name = ''BTC'', sym_market_id = 7, sym_market_type = ''perp''\<rparr>,
       \<lparr>sym_id = 2, sym_name = ''O'' @ [CHR 0x27] @ ''X'', sym_market_id = 8, sym_market_type = ''spot''\<rparr>],
     db_next_symbol = 3,
     db_trades = map (\<lambda>(at, s, n). \<lparr>tw_time = at, tw_symbol = s, tw_trade_id = n, tw_price = 3, tw_size = 4,
       tw_is_maker_ask = True, tw_type = ''trade''\<rparr>) [(7000, 1, 11), (5000, 1, 12), (6000, 2, 13), (1000, 1, 14)],
     db_orderbooks = [\<lparr>obr_time = 5000, obr_symbol = 1, obr_type = ''snapshot'', obr_sequence = Some 3,
       obr_bids = JArr [], obr_asks = JArr [JNull], obr_begin_nonce = None\<rparr>],
     db_fundings = []\<rparr>"

text \<open>C36. An export that succeeds leaves a complete file for each selected dataset. The file holds exactly the
  stored rows of the symbols that were asked for, no older than the hours that were asked for, each once, in
  the order of time and id, with times in microseconds and JSON as text, in row groups of 8192 rows of which
  only the last may be shorter. The database answers the two queries that the code sends, or fails.\<close>

theorem exported_files_hold_selection:
  assumes "export_parquet L env dir symbols hours trades orderbooks overwrite files = (Inr (), files')"
    and "answers_trades ago db env" and "answers_orderbooks ago' db' env"
  defines "sel \<equiv> (if symbols = [] then None else Some symbols, hours)"
  shows "(trades \<longrightarrow> (\<exists>out. files' (path_join dir ''trades.parquet'') = Some (TradesFile out True)
          \<and> concat (map trade_lines out) = map (trade_line L) (select_trades ago sel db)
          \<and> well_cut (map trade_lines out)))
     \<and> (orderbooks \<longrightarrow> (\<exists>out. files' (path_join dir ''orderbook_messages.parquet'') = Some (BooksFile out True)
          \<and> map Inr (concat (map book_lines out)) = map (book_line L) (select_orderbooks ago' sel db')
          \<and> well_cut (map book_lines out)))"
  using exported_trades_selected [of L env dir symbols hours orderbooks overwrite files files' ago db]
    exported_books_selected [of L env dir symbols hours trades overwrite files files' ago' db'] assms(1-3)
  unfolding sel_def by (cases trades; cases orderbooks) simp_all

theorem exported_files_hold_selection_witness:
  "\<exists>files' out. export_parquet sample (answering (\<lambda>h. 5000) trades_db) ''d'' [''BTC''] (Some 48) True True False Map.empty
       = (Inr (), files')
     \<and> files' ''d/trades.parquet'' = Some (TradesFile out True)
     \<and> map (\<lambda>(at, name, n, rest). (at, name, n)) (concat (map trade_lines out)) = [(5, ''BTC'', 12), (7, ''BTC'', 11)]"
proof -
  let ?run = "export_parquet sample (answering (\<lambda>h. 5000) trades_db) ''d'' [''BTC''] (Some 48) True True False Map.empty"
  have "\<not> isl (fst ?run)" by code_simp
  then obtain files' where e: "?run = (Inr (), files')" by (elim fst_Inr_E) simp
  have "path_join ''d'' ''trades.parquet'' = ''d/trades.parquet''" by (simp add: path_join_def ends_with_def)
  with exported_files_hold_selection [OF e answering_answers] obtain out where
    "files' ''d/trades.parquet'' = Some (TradesFile out True)"
    "concat (map trade_lines out) = map (trade_line sample) (select_trades (\<lambda>h. 5000) (Some [''BTC''], Some 48) trades_db)"
    by auto
  moreover have "map (\<lambda>(at, name, n, rest). (at, name, n))
      (map (trade_line sample) (select_trades (\<lambda>h. 5000) (Some [''BTC''], Some 48) trades_db)) = [(5, ''BTC'', 12), (7, ''BTC'', 11)]"
    by code_simp
  ultimately show ?thesis using e by metis
qed

section \<open>The query\<close>

text \<open>C37. The \<^verbatim>\<open>WHERE\<close> clause of an export, read the way SQL reads it, asks for exactly the requested symbols in
  their order, whatever characters they contain (a quote in a name does not end its literal), and for
  exactly the requested hours. Every symbol that is named is one that the database knows.\<close>

theorem clause_says_what_was_asked:
  assumes "symbol_condition names symbols = Inr cond" and "column \<in> {''t.time'', ''o.time''}"
  shows "read_where column (where_clause cond hours column) = Some (if symbols = [] then None else Some symbols, hours)
     \<and> (symbols \<noteq> [] \<longrightarrow> (\<exists>known. names symbols = Some known \<and> set symbols \<subseteq> set known))"
  using read_where_clause [OF assms] symbol_condition_names_symbols [OF assms(1)] by blast

theorem clause_says_what_was_asked_witness:
  "\<exists>cond. symbol_condition (ev_names sample_env) [''O'' @ [CHR 0x27] @ ''X'', ''BTC''] = Inr cond
     \<and> read_where ''t.time'' (where_clause cond (Some 48) ''t.time'') = Some (Some [''O'' @ [CHR 0x27] @ ''X'', ''BTC''], Some 48)"
proof -
  obtain cond where c: "symbol_condition (ev_names sample_env) [''O'' @ [CHR 0x27] @ ''X'', ''BTC''] = Inr cond"
    by (simp add: symbol_condition_def sample_env_def Let_def)
  from clause_says_what_was_asked [OF c, of "''t.time''" "Some 48"] c show ?thesis by auto
qed

section \<open>Files\<close>

text \<open>C40. Without overwriting, an export never changes a file that is there, not even one that appears after
  its check of the output files; and when a selected output file is there at the start, it stops before it
  touches anything.\<close>

theorem no_overwrite_keeps_files:
  assumes "export_parquet L env dir symbols hours trades orderbooks False files = (r, files')"
  shows "((files ++ ev_others env) path = Some f \<longrightarrow> files' path = Some f \<or> files' = files)
     \<and> ((trades \<and> files (path_join dir ''trades.parquet'') \<noteq> None
          \<or> orderbooks \<and> files (path_join dir ''orderbook_messages.parquet'') \<noteq> None)
        \<longrightarrow> files' = files \<and> isl r)"
proof (intro conjI impI)
  assume "(files ++ ev_others env) path = Some f"
  then show "files' path = Some f \<or> files' = files"
    using assms export_trades_keeps [of L env _ _ "files ++ ev_others env"] export_orderbooks_keeps [of L env]
    by (auto simp: export_parquet_def Let_def split: if_splits sum.splits prod.splits)
next
  assume "trades \<and> files (path_join dir ''trades.parquet'') \<noteq> None
          \<or> orderbooks \<and> files (path_join dir ''orderbook_messages.parquet'') \<noteq> None"
  with assms show "files' = files" "isl r"
    by (auto simp: export_parquet_def Let_def split: if_splits)
qed

theorem no_overwrite_keeps_files_witness:
  "snd (export_parquet sample sample_env ''d'' [] None True True False [''d/trades.parquet'' \<mapsto> OtherFile ''x''])
     = [''d/trades.parquet'' \<mapsto> OtherFile ''x'']"
proof -
  let ?files = "[''d/trades.parquet'' \<mapsto> OtherFile ''x''] :: int files"
  obtain r files' where run: "export_parquet sample sample_env ''d'' [] None True True False ?files = (r, files')"
    by fastforce
  from no_overwrite_keeps_files [OF run] run show ?thesis by (simp add: path_join_def ends_with_def)
qed

section \<open>Markets of the same ticker\<close>

text \<open>A ticker is unique only within a market type. Two databases that keep every constraint, with a perpetual and
  a spot market of one ticker, whose rows belong to the other market in the one than in the other: an
  export of the ticker is the same.\<close>

definition twin_db :: "int \<Rightarrow> int \<Rightarrow> (int, int, int) db" where
  "twin_db first second = \<lparr>db_symbols = [\<lparr>sym_id = 1, sym_name = ''ETH'', sym_market_id = 7, sym_market_type = ''perp''\<rparr>,
       \<lparr>sym_id = 2, sym_name = ''ETH'', sym_market_id = 8, sym_market_type = ''spot''\<rparr>], db_next_symbol = 3,
     db_trades = [],
     db_orderbooks = map (\<lambda>(at, s). \<lparr>obr_time = at, obr_symbol = s, obr_type = ''snapshot'', obr_sequence = Some at,
       obr_bids = JArr [], obr_asks = JArr [], obr_begin_nonce = None\<rparr>) [(5000, first), (6000, second)],
     db_fundings = []\<rparr>"

lemma ticker_does_not_identify_market:
  "db_inv (twin_db 1 2) \<and> db_inv (twin_db 2 1) \<and> db_orderbooks (twin_db 1 2) \<noteq> db_orderbooks (twin_db 2 1)
   \<and> select_orderbooks ago (Some [''ETH''], None) (twin_db 1 2) = select_orderbooks ago (Some [''ETH''], None) (twin_db 2 1)"
  by (simp add: twin_db_def db_inv_def symbols_inv_def symbol_ids_def select_orderbooks_def names_match_def recent_def
      view_of_book_def)

end
