(* ===== verification/Test_Support.thy ===== *)
theory Test_Support
  imports Sample
begin

text \<open>
  What the translated unit tests share. A test is a bool: a panic of \<^verbatim>\<open>unwrap\<close> or of an index fails it, and
  so does a false assertion. The instance \<open>tu\<close> of the third-party functions reads JSON texts and has
  decimals as integers scaled by \<open>10 ^ 12\<close>, with signs and exponents.
\<close>

definition unwrap :: "'a option \<Rightarrow> ('a \<Rightarrow> bool) \<Rightarrow> bool" where
  "unwrap x rest = (case x of None \<Rightarrow> False | Some a \<Rightarrow> rest a)"

definition unwrap_ok :: "'e + 'a \<Rightarrow> ('a \<Rightarrow> bool) \<Rightarrow> bool" where
  "unwrap_ok r rest = (case r of Inl e \<Rightarrow> False | Inr a \<Rightarrow> rest a)"

definition unwrap_err :: "'e + 'a \<Rightarrow> ('e \<Rightarrow> bool) \<Rightarrow> bool" where
  "unwrap_err r rest = (case r of Inl e \<Rightarrow> rest e | Inr a \<Rightarrow> False)"

definition index :: "'a list \<Rightarrow> nat \<Rightarrow> ('a \<Rightarrow> bool) \<Rightarrow> bool" where
  "index xs i rest = unwrap (nth_opt i xs) rest"

text \<open>\<^verbatim>\<open>serde_json::from_str\<close> at a type with a decoder.\<close>

definition from_text :: "('d, 't, 'f) libs \<Rightarrow> 'a decoder \<Rightarrow> string \<Rightarrow> 'a option" where
  "from_text L d text = Option.bind (json_document L text) d"

section \<open>Decimals of the instance\<close>

definition dec12_plain :: "string \<Rightarrow> int option" where
  "dec12_plain s = (case str_split (CHR ''.'') s of
     [a] \<Rightarrow> map_option (\<lambda>n. n * 10 ^ 12) (parse_int a)
   | [a, b] \<Rightarrow>
       (case (parse_int a, parse_digits 0 b) of
          (Some n, Some f) \<Rightarrow>
            if b \<noteq> [] \<and> length b \<le> 12
            then Some (n * 10 ^ 12 + (if hd a = CHR ''-'' then - 1 else 1) * f * 10 ^ (12 - length b)) else None
        | _ \<Rightarrow> None)
   | _ \<Rightarrow> None)"

definition dec12 :: "string \<Rightarrow> int option" where
  "dec12 s = (case str_split (CHR ''e'') s of
     [m] \<Rightarrow> dec12_plain m
   | [m, e] \<Rightarrow>
       (case (dec12_plain m, parse_int e) of
          (Some n, Some k) \<Rightarrow> if 0 \<le> k then Some (n * 10 ^ nat k) else None
        | _ \<Rightarrow> None)
   | _ \<Rightarrow> None)"

definition tu :: "(int, int, int) libs" where
  "tu = (sample_libs [])\<lparr>dec_from_str := dec12, parse_f64 := dec12\<rparr>"

end
