(* ===== verification/Wire_Account.thy ===== *)
theory Wire_Account
  imports Wire
begin

text \<open>
  \<^verbatim>\<open>account.rs\<close> of the crate \<^verbatim>\<open>lighter-rs-types\<close>: the account types of the REST API and the
  \<^verbatim>\<open>account_all\<close> messages of the WebSocket API, with their decoders and accessors. The ingestor itself
  does not use them; they are part of what the crate promises its users.
\<close>

section \<open>REST\<close>

record account_position =
  ap_market_id :: int
  ap_symbol :: string
  ap_sign :: int               \<comment> \<open>1 for long, -1 for short, 0 for flat\<close>
  ap_position :: string
  avg_entry_price :: string
  unrealized_pnl :: string
  realized_pnl :: string

record detailed_account =
  ac_index :: int
  ac_collateral :: string
  ac_available_balance :: "string option"
  ac_positions :: "account_position list"

record detailed_accounts_response =
  dar_code :: int
  dar_message :: "string option"
  dar_accounts :: "detailed_account list"

definition position_fields :: "string list" where
  "position_fields = [''market_id'', ''symbol'', ''sign'', ''position'', ''avg_entry_price'',
     ''unrealized_pnl'', ''realized_pnl'']"

definition de_account_position :: "account_position decoder" where
  "de_account_position j =
     (case struct_fields position_fields j of
        None \<Rightarrow> None
      | Some fs \<Rightarrow>
          (case (field de_i32 ''market_id'' fs, field de_string ''symbol'' fs,
                 field de_i32 ''sign'' fs, field de_string ''position'' fs,
                 field de_string ''avg_entry_price'' fs, field de_string ''unrealized_pnl'' fs,
                 field de_string ''realized_pnl'' fs) of
             (Some m_id, Some symbol, Some sg, Some pos, Some avg, Some upnl, Some rpnl) \<Rightarrow>
               Some \<lparr>ap_market_id = m_id, ap_symbol = symbol, ap_sign = sg, ap_position = pos,
                     avg_entry_price = avg, unrealized_pnl = upnl, realized_pnl = rpnl\<rparr>
           | _ \<Rightarrow> None))"

definition de_detailed_account :: "detailed_account decoder" where
  "de_detailed_account j =
     (case struct_fields [''index'', ''collateral'', ''available_balance'', ''positions''] j of
        None \<Rightarrow> None
      | Some fs \<Rightarrow>
          (case (field de_i64 ''index'' fs, field de_string ''collateral'' fs,
                 opt_field de_string ''available_balance'' fs,
                 field (de_vec de_account_position) ''positions'' fs) of
             (Some idx, Some coll, Some avail, Some ps) \<Rightarrow>
               Some \<lparr>ac_index = idx, ac_collateral = coll, ac_available_balance = avail,
                     ac_positions = ps\<rparr>
           | _ \<Rightarrow> None))"

definition de_detailed_accounts_response :: "detailed_accounts_response decoder" where
  "de_detailed_accounts_response j =
     (case struct_fields [''code'', ''message'', ''accounts''] j of
        None \<Rightarrow> None
      | Some fs \<Rightarrow>
          (case (field de_i64 ''code'' fs, opt_field de_string ''message'' fs,
                 field (de_vec de_detailed_account) ''accounts'' fs) of
             (Some c, Some msg, Some acs) \<Rightarrow>
               Some \<lparr>dar_code = c, dar_message = msg, dar_accounts = acs\<rparr>
           | _ \<Rightarrow> None))"

section \<open>WebSocket\<close>

datatype account_all_ws_message =
    AccSubscribed string int "string \<rightharpoonup> account_position" "string \<rightharpoonup> trade list"
      \<comment> \<open>channel, account, positions, trades\<close>
  | AccUpdate string int "string \<rightharpoonup> account_position" "string \<rightharpoonup> trade list"

fun acc_account :: "account_all_ws_message \<Rightarrow> int" where
  "acc_account (AccSubscribed _ account _ _) = account"
| "acc_account (AccUpdate _ account _ _) = account"

fun acc_positions :: "account_all_ws_message \<Rightarrow> (string \<rightharpoonup> account_position)" where
  "acc_positions (AccSubscribed _ _ positions _) = positions"
| "acc_positions (AccUpdate _ _ positions _) = positions"

fun acc_trades :: "account_all_ws_message \<Rightarrow> (string \<rightharpoonup> trade list)" where
  "acc_trades (AccSubscribed _ _ _ trades) = trades"
| "acc_trades (AccUpdate _ _ _ trades) = trades"

definition de_acc_variant ::
  "(string \<Rightarrow> int \<Rightarrow> (string \<rightharpoonup> account_position) \<Rightarrow> (string \<rightharpoonup> trade list) \<Rightarrow> account_all_ws_message)
   \<Rightarrow> account_all_ws_message decoder" where
  "de_acc_variant C j =
     (case struct_fields [''channel'', ''account'', ''positions'', ''trades''] j of
        None \<Rightarrow> None
      | Some fs \<Rightarrow>
          (case (field de_string ''channel'' fs, field de_i64 ''account'' fs,
                 field (de_map de_account_position) ''positions'' fs,
                 field (de_map (de_vec de_trade)) ''trades'' fs) of
             (Some channel, Some account, Some ps, Some ts) \<Rightarrow> Some (C channel account ps ts)
           | _ \<Rightarrow> None))"

definition de_account_all_ws_message :: "account_all_ws_message decoder" where
  "de_account_all_ws_message =
     de_tagged [''subscribed/account_all'' \<mapsto> de_acc_variant AccSubscribed,
                ''update/account_all'' \<mapsto> de_acc_variant AccUpdate]"

section \<open>Facts\<close>

text \<open>A member that is absent or \<^verbatim>\<open>null\<close> is the same to an \<^verbatim>\<open>Option\<close> field.\<close>

lemma opt_field_null: "map_of kvs name = Some JNull \<Longrightarrow> opt_field d name kvs = Some None"
  by (simp add: opt_field_def de_option_def)

lemma opt_field_absent: "map_of kvs name = None \<Longrightarrow> opt_field d name kvs = Some None"
  by (simp add: opt_field_def)

text \<open>A decoded map has an entry for each key of the object, and each entry is the decoded member.\<close>

lemma seq_opt_lookup:
  "seq_opt d (map snd kvs) = Some vs \<Longrightarrow> map_of (rev (zip (map fst kvs) vs)) k = Some v \<Longrightarrow>
   \<exists>j. (k, j) \<in> set kvs \<and> d j = Some v"
proof (drule map_of_SomeD)
  assume s: "seq_opt d (map snd kvs) = Some vs" and m: "(k, v) \<in> set (rev (zip (map fst kvs) vs))"
  from m obtain i where i: "i < length kvs" "i < length vs" "k = fst (kvs ! i)" "v = vs ! i"
    by (auto simp: in_set_zip)
  moreover have "d (snd (kvs ! i)) = Some (vs ! i)"
    using s i by (auto simp: seq_opt_Some list_all2_conv_all_nth)
  ultimately show ?thesis by (metis nth_mem prod.collapse)
qed

lemma de_map_lookup:
  "de_map d (JObj kvs) = Some f \<Longrightarrow> f k = Some v \<Longrightarrow> \<exists>j. (k, j) \<in> set kvs \<and> d j = Some v"
  by (auto simp: de_map_def intro: seq_opt_lookup)

lemma de_map_dom:
  assumes "de_map d (JObj kvs) = Some f"
  shows "dom f = fst ` set kvs"
proof -
  obtain vs where vs: "seq_opt d (map snd kvs) = Some vs" "f = map_of (rev (zip (map fst kvs) vs))"
    using assms by (auto simp: de_map_def)
  then have "length vs = length kvs" by (auto simp: seq_opt_Some dest: list_all2_lengthD)
  then have "map fst (zip (map fst kvs) vs) = map fst kvs" by (simp add: map_fst_zip)
  then show ?thesis by (metis vs(2) dom_map_of_conv_image_fst set_map set_rev)
qed

end
