(* ===== verification/Wire_Tests.thy ===== *)
theory Wire_Tests
  imports Test_Support Wire_Account
begin

text \<open>
  The unit tests of the crate \<^verbatim>\<open>lighter-rs-types\<close>, on the model: each test is a definition over the
  third-party functions, on the text that the test holds, and the lemma of its name says that it passes on
  the concrete instance \<open>tu\<close>. They check that the decoders of the model read the captured messages as the
  derived ones do.
\<close>

section \<open>orderbook.rs\<close>

definition ob_subscribed_text :: string where
  \<open>ob_subscribed_text =
     ''{"type":"subscribed/order_book","channel":"order_book:0","offset":30563230,'' @
     ''"last_updated_at":1790015233367788,"order_book":{"code":0,"offset":30563230,'' @
     ''"nonce":2180232924,"begin_nonce":0,"asks":[{"price":"2750.29","size":"0.3778"}],'' @
     ''"bids":[{"price":"2750.03","size":"0.3778"}]}}''\<close>

definition parses_a_subscribed_message :: "('d, 't, 'f) libs \<Rightarrow> bool" where
  "parses_a_subscribed_message L =
     unwrap (from_text L de_order_book_ws_message ob_subscribed_text) (\<lambda>msg.
       ob_market_id msg = Some 0
       \<and> (case msg of
            ObSubscribed _ last_updated_at order_book \<Rightarrow>
              index (ob_asks order_book) 0 (\<lambda>l. level_price l = ''2750.29'')
              \<and> ob_nonce order_book = 2180232924 \<and> last_updated_at = 1790015233367788
          | _ \<Rightarrow> False))"

lemma parses_a_subscribed_message: "parses_a_subscribed_message tu" by code_simp

definition ob_update_text :: string where
  \<open>ob_update_text =
     ''{"type":"update/order_book","channel":"order_book:0","offset":30563238,'' @
     ''"last_updated_at":1790015233665075,"order_book":{"code":0,"offset":30563238,'' @
     ''"nonce":2180233131,"begin_nonce":2180233095,"asks":[{"price":"2755.52","size":"0"}],'' @
     ''"bids":[]}}''\<close>

definition parses_an_update_message_with_a_zero_size_removal :: "('d, 't, 'f) libs \<Rightarrow> bool" where
  "parses_an_update_message_with_a_zero_size_removal L =
     unwrap (from_text L de_order_book_ws_message ob_update_text) (\<lambda>msg.
       ob_market_id msg = Some 0
       \<and> (case msg of
            ObUpdate _ last_updated_at order_book \<Rightarrow>
              index (ob_asks order_book) 0 (\<lambda>l. level_size l = ''0'')
              \<and> ob_begin_nonce order_book = 2180233095 \<and> last_updated_at = 1790015233665075
          | _ \<Rightarrow> False))"

lemma parses_an_update_message_with_a_zero_size_removal:
  "parses_an_update_message_with_a_zero_size_removal tu" by code_simp

definition ob_first_text :: string where
  \<open>ob_first_text =
     ''{"type":"update/order_book","channel":"order_book:0","offset":30563234,'' @
     ''"last_updated_at":0,"order_book":{"code":0,"offset":30563234,"nonce":2180233095,'' @
     ''"begin_nonce":2180233011,"asks":[],"bids":[]}}''\<close>

definition ob_second_text :: string where
  \<open>ob_second_text =
     ''{"type":"update/order_book","channel":"order_book:0","offset":30563238,'' @
     ''"last_updated_at":0,"order_book":{"code":0,"offset":30563238,"nonce":2180233131,'' @
     ''"begin_nonce":2180233095,"asks":[],"bids":[]}}''\<close>

definition consecutive_updates_chain_by_nonce :: "('d, 't, 'f) libs \<Rightarrow> bool" where
  "consecutive_updates_chain_by_nonce L =
     unwrap (from_text L de_order_book_ws_message ob_first_text) (\<lambda>first.
     unwrap (from_text L de_order_book_ws_message ob_second_text) (\<lambda>second.
       case (first, second) of
         (ObUpdate _ _ first, ObUpdate _ _ second) \<Rightarrow> ob_nonce first = ob_begin_nonce second
       | _ \<Rightarrow> False))"

lemma consecutive_updates_chain_by_nonce: "consecutive_updates_chain_by_nonce tu" by code_simp

section \<open>trade\_ws.rs\<close>

definition tr_subscribed_text :: string where
  \<open>tr_subscribed_text =
     ''{"type":"subscribed/trade","channel":"trade:0","nonce":2180216777,'' @
     ''"trades":[{"trade_id":886492467,'' @
     ''"tx_hash":"3d86ca74de66d8dc2c15ff2ee71d8204d871d74b03994cefeacd790f372bf2c8e7871a3153db402f",'' @
     ''"type":"trade","market_id":0,"size":"0.0500","price":"2749.83",'' @
     ''"usd_amount":"137.491500","ask_id":281475066736111,"bid_id":562949856754209,'' @
     ''"ask_client_id":667509946090,"bid_client_id":36284421607817,"ask_account_id":30597,'' @
     ''"bid_account_id":27160,"is_maker_ask":false,"block_height":25653864,'' @
     ''"timestamp":1790015210729}],"liquidation_trades":[{"trade_id":882932008,'' @
     ''"tx_hash":"00000000ec885d57000001a0c4cf786c000000000000000000000000000000000000000000000000",'' @
     ''"type":"liquidation","market_id":0,"size":"1.0034","price":"2769.77",'' @
     ''"usd_amount":"2779.187218","ask_id":281475066529203,"bid_id":562949857055916,'' @
     ''"ask_client_id":238695887555499,"bid_client_id":0,"ask_account_id":7806,'' @
     ''"bid_account_id":3220,"is_maker_ask":true,"block_height":25598797,'' @
     ''"timestamp":1790008326252,"taker_fee":10000,"taker_position_sign_changed":true}]}''\<close>

definition parses_a_subscribed_trade_message :: "('d, 't, 'f) libs \<Rightarrow> bool" where
  "parses_a_subscribed_trade_message L =
     unwrap (from_text L de_trade_ws_message tr_subscribed_text) (\<lambda>msg.
       tr_ws_market_id msg = Some 0
       \<and> (case msg of
            TrSubscribed _ _ trades liquidation_trades \<Rightarrow>
              index trades 0 (\<lambda>t. tr_type t = ''trade'')
              \<and> index liquidation_trades 0 (\<lambda>t. tr_type t = ''liquidation'')
          | _ \<Rightarrow> False))"

lemma parses_a_subscribed_trade_message: "parses_a_subscribed_trade_message tu" by code_simp

definition tr_update_text :: string where
  \<open>tr_update_text =
     ''{"type":"update/trade","channel":"trade:0","nonce":2180216806,'' @
     ''"trades":[{"trade_id":886492488,'' @
     ''"tx_hash":"2ee776a51acfcf70676ef6f0ac837f8498eb5414b950795d539f2ecd358602e86e07842442845218",'' @
     ''"type":"trade","market_id":0,"size":"0.2350","price":"2750.40",'' @
     ''"usd_amount":"646.344000","ask_id":281475066736107,"bid_id":562949856754201,'' @
     ''"ask_client_id":8301417026,"bid_client_id":3231440947,"ask_account_id":2304,'' @
     ''"bid_account_id":27972,"is_maker_ask":true,"block_height":25653865,'' @
     ''"timestamp":1790015211009}],"liquidation_trades":[]}''\<close>

definition parses_an_update_trade_message :: "('d, 't, 'f) libs \<Rightarrow> bool" where
  "parses_an_update_trade_message L =
     unwrap (from_text L de_trade_ws_message tr_update_text) (\<lambda>msg.
       tr_ws_market_id msg = Some 0
       \<and> (case msg of
            TrUpdate _ nonce trades liquidation_trades \<Rightarrow>
              nonce = 2180216806 \<and> index trades 0 (\<lambda>t. tr_price t = ''2750.40'') \<and> liquidation_trades = []
          | _ \<Rightarrow> False))"

lemma parses_an_update_trade_message: "parses_an_update_trade_message tu" by code_simp

definition typed_trade_json :: "string \<Rightarrow> json" where
  "typed_trade_json trade_type = JObj [
     (''type'', JStr ''update/trade''),
     (''channel'', JStr ''trade:0''),
     (''nonce'', JInt 1),
     (''trades'', JArr [JObj [
       (''trade_id'', JInt 1),
       (''tx_hash'', JStr ''hash''),
       (''type'', JStr trade_type),
       (''market_id'', JInt 0),
       (''size'', JStr ''1''),
       (''price'', JStr ''1''),
       (''usd_amount'', JStr ''1''),
       (''ask_id'', JInt 1),
       (''bid_id'', JInt 2),
       (''ask_client_id'', JInt 1),
       (''bid_client_id'', JInt 2),
       (''ask_account_id'', JInt 1),
       (''bid_account_id'', JInt 2),
       (''is_maker_ask'', JBool False),
       (''block_height'', JInt 1),
       (''timestamp'', JInt 1)]]),
     (''liquidation_trades'', JArr [])]"

definition parses_all_documented_trade_types :: bool where
  "parses_all_documented_trade_types =
     list_all (\<lambda>trade_type.
       unwrap (de_trade_ws_message (typed_trade_json trade_type)) (\<lambda>parsed.
         case parsed of
           TrUpdate _ _ trades _ \<Rightarrow> index trades 0 (\<lambda>t. tr_type t = trade_type)
         | _ \<Rightarrow> False))
       [''trade'', ''liquidation'', ''deleverage'', ''market-settlement'']"

lemma parses_all_documented_trade_types: "parses_all_documented_trade_types" by code_simp

section \<open>trade.rs, funding.rs, market.rs\<close>

definition recent_trades_text :: string where
  \<open>recent_trades_text =
     ''{"code":200,"trades":[{"trade_id":886868782,'' @
     ''"tx_hash":"00000000ed3647ac000001a0c544d07c000000000000000000000000000000000000000000000000",'' @
     ''"type":"trade","market_id":0,"size":"0.2500","price":"2751.72",'' @
     ''"usd_amount":"687.930000","ask_id":281475066754794,"bid_id":562949856726542,'' @
     ''"ask_client_id":2501872167,"bid_client_id":439876680208,"ask_account_id":2267,'' @
     ''"bid_account_id":9235,"is_maker_ask":true,"block_height":25659845,'' @
     ''"timestamp":1790016016508},{"trade_id":886866793,'' @
     ''"tx_hash":"00000000ed363043000001a0c544bc7c000000000000000000000000000000000000000000000000",'' @
     ''"type":"trade","market_id":0,"size":"0.0003","price":"2751.13",'' @
     ''"usd_amount":"0.825339","ask_id":281475066754769,"bid_id":562949856726646,'' @
     ''"ask_client_id":0,"bid_client_id":1786602595555,"ask_account_id":384,'' @
     ''"bid_account_id":1183,"is_maker_ask":false,"block_height":25659812,'' @
     ''"timestamp":1790016011388}]}''\<close>

definition parses_a_live_recent_trades_response :: "('d, 't, 'f) libs \<Rightarrow> bool" where
  "parses_a_live_recent_trades_response L =
     unwrap (from_text L de_trades_response recent_trades_text) (\<lambda>resp.
       trs_code resp = 200 \<and> length (trs_trades resp) = 2
       \<and> index (trs_trades resp) 0 (\<lambda>t. trade_id t = 886868782 \<and> tr_type t = ''trade''
            \<and> tr_price t = ''2751.72'' \<and> tr_is_maker_ask t))"

lemma parses_a_live_recent_trades_response: "parses_a_live_recent_trades_response tu" by code_simp

definition live_fundings_text :: string where
  \<open>live_fundings_text =
     ''{"code":200,"resolution":"1h","fundings":[{"timestamp":1790416800,'' @
     ''"value":"0.00089832","rate":"0.0004","direction":"long"},{"timestamp":1790420400,'' @
     ''"value":"0.00089876","rate":"0.0004","direction":"long"}]}''\<close>

definition parses_a_live_fundings_response :: "('d, 't, 'f) libs \<Rightarrow> bool" where
  "parses_a_live_fundings_response L =
     unwrap (from_text L de_fundings_response live_fundings_text) (\<lambda>resp.
       fr_code resp = 200 \<and> fr_resolution resp = ''1h'' \<and> length (fr_fundings resp) = 2
       \<and> index (fr_fundings resp) 0 (\<lambda>f. fd_timestamp f = 1790416800 \<and> fd_rate f = ''0.0004''
            \<and> fd_direction f = ''long''))"

lemma parses_a_live_fundings_response: "parses_a_live_fundings_response tu" by code_simp

definition live_order_books_text :: string where
  \<open>live_order_books_text =
     ''{"code":200,"order_books":[{"symbol":"QBTS","market_id":51,"market_type":"perp",'' @
     ''"base_asset_id":0,"quote_asset_id":0,"status":"active","taker_fee":"0.0000",'' @
     ''"is_taker_fee_enabled":true,"maker_fee":"0.0000","is_maker_fee_enabled":true,'' @
     ''"liquidation_fee":"1.0000","min_base_amount":"0.500","min_quote_amount":"10.000000",'' @
     ''"order_quote_limit":"25000000.000000","supported_size_decimals":3,'' @
     ''"supported_price_decimals":3,"supported_quote_decimals":6,'' @
     ''"created_at":"1788529452738","multiplier":"1.000000000000000000"}]}''\<close>

definition parses_a_live_order_books_response :: "('d, 't, 'f) libs \<Rightarrow> bool" where
  "parses_a_live_order_books_response L =
     unwrap (from_text L de_order_books_response live_order_books_text) (\<lambda>resp.
       obs_code resp = 200 \<and> length (obs_order_books resp) = 1
       \<and> index (obs_order_books resp) 0 (\<lambda>market. mk_symbol market = ''QBTS'' \<and> mk_market_id market = 51
            \<and> mk_market_type market = ''perp'' \<and> mk_status market = ''active''
            \<and> supported_price_decimals market = 3))"

lemma parses_a_live_order_books_response: "parses_a_live_order_books_response tu" by code_simp

section \<open>account.rs\<close>

definition positioned_account_text :: string where
  \<open>positioned_account_text =
     ''{"code":200,"message":null,"accounts":[{"index":30597,"collateral":"7985.878279",'' @
     ''"available_balance":"232.447167","positions":[{"market_id":0,"symbol":"ETH",'' @
     ''"sign":-1,"position":"9.5500","avg_entry_price":"2742.53",'' @
     ''"unrealized_pnl":"-61.455788","realized_pnl":"0.000000"}]}]}''\<close>

definition parses_a_live_positioned_account_response :: "('d, 't, 'f) libs \<Rightarrow> bool" where
  "parses_a_live_positioned_account_response L =
     unwrap (from_text L de_detailed_accounts_response positioned_account_text) (\<lambda>response.
       index (dar_accounts response) 0 (\<lambda>account. index (ac_positions account) 0 (\<lambda>position.
         ap_market_id position = 0 \<and> ap_sign position = -1 \<and> ap_position position = ''9.5500'')))"

lemma parses_a_live_positioned_account_response: "parses_a_live_positioned_account_response tu" by code_simp

definition account_update_text :: string where
  \<open>account_update_text =
     ''{"type":"update/account_all","account":39,"channel":"account_all:39","positions":{},'' @
     ''"trades":{"25":[{"trade_id":912297287,"tx_hash":"5de60c","type":"trade",'' @
     ''"market_id":25,"size":"0.4100","price":"742.98","usd_amount":"304.621800",'' @
     ''"ask_id":7318349410159933,"bid_id":7599824354593016,"ask_client_id":3012762476492,'' @
     ''"bid_client_id":1790072395637,"ask_account_id":39,"bid_account_id":4125,'' @
     ''"is_maker_ask":true,"block_height":26058484,"timestamp":1790072395752}]}}''\<close>

definition parses_a_live_account_trade_update :: "('d, 't, 'f) libs \<Rightarrow> bool" where
  "parses_a_live_account_trade_update L =
     unwrap (from_text L de_account_all_ws_message account_update_text) (\<lambda>message.
       acc_account message = 39
       \<and> unwrap (acc_trades message ''25'') (\<lambda>trades. index trades 0 (\<lambda>trade.
            ask_client_id trade = 3012762476492 \<and> tr_is_maker_ask trade)))"

lemma parses_a_live_account_trade_update: "parses_a_live_account_trade_update tu" by code_simp

end
