(* ===== verification/Unit_Tests.thy ===== *)
theory Unit_Tests
  imports Wire_Tests
begin

text \<open>
  The unit tests of \<^verbatim>\<open>src/book.rs\<close> and \<^verbatim>\<open>src/ws.rs\<close> on the model: each test is a definition over the
  third-party functions, and the lemma of its name says that it passes on the concrete instance \<open>tu\<close>. An
  error message that a test looks for is the constructor that has it.
\<close>

section \<open>book.rs\<close>

definition lv :: "string \<Rightarrow> string \<Rightarrow> price_level" where
  "lv price sz = \<lparr>level_price = price, level_size = sz\<rparr>"

definition pairs :: "price_level list \<Rightarrow> (string \<times> string) list" where
  "pairs levels = map (\<lambda>l. (level_price l, level_size l)) levels"

text \<open>\<^verbatim>\<open>book.apply_delta(..).unwrap()\<close>, with the book that it leaves.\<close>

definition delta_ok ::
  "('d::linorder, 't, 'f) libs \<Rightarrow> 'd book \<Rightarrow> price_level list \<Rightarrow> price_level list \<Rightarrow> ('d book \<Rightarrow> bool) \<Rightarrow> bool" where
  "delta_ok L book bs as rest =
     (case apply_delta L book bs as of (r, book') \<Rightarrow> unwrap_ok r (\<lambda>_. rest book'))"

definition snapshot_orders_sides :: "('d::linorder, 't, 'f) libs \<Rightarrow> bool" where
  "snapshot_orders_sides L =
     unwrap_ok (from_snapshot L
       [lv ''217.69'' ''1'', lv ''217.70'' ''2'']
       [lv ''217.75'' ''3'', lv ''217.72'' ''4'']) (\<lambda>book.
       pairs (bids book) = [(''217.70'', ''2''), (''217.69'', ''1'')]
       \<and> pairs (asks book) = [(''217.72'', ''4''), (''217.75'', ''3'')])"

lemma snapshot_orders_sides: "snapshot_orders_sides tu" by code_simp

definition delta_replaces_adds_and_removes_levels :: "('d::linorder, 't, 'f) libs \<Rightarrow> bool" where
  "delta_replaces_adds_and_removes_levels L =
     unwrap_ok (from_snapshot L [lv ''217.71'' ''1.0000'', lv ''217.69'' ''1''] []) (\<lambda>book.
     delta_ok L book [lv ''217.71'' ''0.0000'', lv ''217.70'' ''0.0460''] [] (\<lambda>book.
     delta_ok L book [lv ''217.69'' ''5''] [lv ''218'' ''2''] (\<lambda>book.
       pairs (bids book) = [(''217.70'', ''0.0460''), (''217.69'', ''5'')]
       \<and> pairs (asks book) = [(''218'', ''2'')])))"

lemma delta_replaces_adds_and_removes_levels: "delta_replaces_adds_and_removes_levels tu" by code_simp

definition zero_in_any_form_removes_and_prices_match_by_value :: "('d::linorder, 't, 'f) libs \<Rightarrow> bool" where
  "zero_in_any_form_removes_and_prices_match_by_value L =
     unwrap_ok (from_snapshot L [lv ''1.50'' ''1'', lv ''2'' ''1''] []) (\<lambda>book.
     delta_ok L book [lv ''1.5'' ''0'', lv ''2.000'' ''0e0''] [] (\<lambda>book.
       bids book = []))"

lemma zero_in_any_form_removes_and_prices_match_by_value:
  "zero_in_any_form_removes_and_prices_match_by_value tu" by code_simp

definition removing_an_absent_level_is_a_no_op :: "('d::linorder, 't, 'f) libs \<Rightarrow> bool" where
  "removing_an_absent_level_is_a_no_op L =
     unwrap_ok (from_snapshot L [lv ''1'' ''1''] []) (\<lambda>book.
     delta_ok L book [lv ''9'' ''0''] [] (\<lambda>book.
       pairs (bids book) = [(''1'', ''1'')]))"

lemma removing_an_absent_level_is_a_no_op: "removing_an_absent_level_is_a_no_op tu" by code_simp

definition rejects_zero_size_in_snapshot_and_bad_decimals :: "('d::linorder, 't, 'f) libs \<Rightarrow> bool" where
  "rejects_zero_size_in_snapshot_and_bad_decimals L \<longleftrightarrow>
     isl (from_snapshot L [lv ''1'' ''0''] [])
     \<and> isl (fst (apply_delta L book_default [lv ''x'' ''1''] []))"

lemma rejects_zero_size_in_snapshot_and_bad_decimals:
  "rejects_zero_size_in_snapshot_and_bad_decimals tu" by code_simp

definition new_snapshot_resets_the_book :: "('d::linorder, 't, 'f) libs \<Rightarrow> bool" where
  "new_snapshot_resets_the_book L =
     unwrap_ok (from_snapshot L [lv ''1'' ''1''] []) (\<lambda>book.
     delta_ok L book [lv ''2'' ''1''] [] (\<lambda>book.
     unwrap_ok (from_snapshot L [lv ''3'' ''1''] []) (\<lambda>book.
       pairs (bids book) = [(''3'', ''1'')])))"

lemma new_snapshot_resets_the_book: "new_snapshot_resets_the_book tu" by code_simp

section \<open>ws.rs\<close>

definition test_msg :: "('d, 't, 'f) libs \<Rightarrow> string \<Rightarrow> order_book_ws_message option" where
  "test_msg L json = from_text L de_order_book_ws_message json"

definition test_snapshot ::
  "('d, 't, 'f) libs \<Rightarrow> int \<Rightarrow> string \<Rightarrow> string \<Rightarrow> order_book_ws_message option" where
  \<open>test_snapshot L nonce bs as = test_msg L
     (''{"type":"subscribed/order_book","channel":"order_book:7","offset":1,'' @
      ''"last_updated_at":1790015233367788,"order_book":{"code":0,"offset":1,"nonce":'' @ show_int nonce @
      '',"begin_nonce":0,"asks":'' @ as @ '',"bids":'' @ bs @ ''}}'')\<close>

definition test_delta ::
  "('d, 't, 'f) libs \<Rightarrow> int \<Rightarrow> int \<Rightarrow> string \<Rightarrow> string \<Rightarrow> order_book_ws_message option" where
  \<open>test_delta L begin_nonce nonce bs as = test_msg L
     (''{"type":"update/order_book","channel":"order_book:7","offset":2,'' @
      ''"last_updated_at":1790015233367999,"order_book":{"code":0,"offset":2,"nonce":'' @ show_int nonce @
      '',"begin_nonce":'' @ show_int begin_nonce @ '',"asks":'' @ as @ '',"bids":'' @ bs @ ''}}'')\<close>

text \<open>A message applied to the markets of symbol 3, market 7, with the result and the markets after it.\<close>

definition applied ::
  "('d::linorder, 't::linorder, 'f) libs \<Rightarrow> order_book_ws_message option \<Rightarrow> ('d, 't) markets
   \<Rightarrow> ((ws_error + 't ob_row) \<Rightarrow> ('d, 't) markets \<Rightarrow> bool) \<Rightarrow> bool" where
  "applied L message markets rest =
     unwrap message (\<lambda>m. case apply_orderbook_message L 3 7 m markets of (r, markets') \<Rightarrow> rest r markets')"

definition levels_text :: "(string \<times> string) list \<Rightarrow> string" where
  \<open>levels_text ls = ''['' @ str_join '','' (map (\<lambda>(p, s).
     ''{"price":"'' @ p @ ''","size":"'' @ s @ ''"}'') ls) @ '']''\<close>

definition levels_json :: "(string \<times> string) list \<Rightarrow> json" where
  "levels_json ls = JArr (map (\<lambda>(p, s). JObj [(''price'', JStr p), (''size'', JStr s)]) ls)"

definition rows_store_begin_nonce_and_snapshot_equals_book_after_last_delta ::
  "('d::linorder, 't::linorder, 'f) libs \<Rightarrow> bool" where
  "rows_store_begin_nonce_and_snapshot_equals_book_after_last_delta L =
     applied L (test_snapshot L 10 (levels_text [(''217.71'', ''1.0000''), (''217.69'', ''1'')])
       (levels_text [(''217.80'', ''2'')])) Map.empty (\<lambda>snap markets. unwrap_ok snap (\<lambda>snap.
       obr_begin_nonce snap = None \<and> obr_sequence snap = Some 10
       \<and> unwrap (markets 7) (\<lambda>m. obr_time (book_snapshot_row 3 m) = obr_time snap)
       \<and> applied L (test_delta L 10 15 (levels_text [(''217.71'', ''0.0000''), (''217.70'', ''0.0460'')])
            (levels_text [(''217.80'', ''0''), (''217.85'', ''4'')])) markets (\<lambda>d markets. unwrap_ok d (\<lambda>d.
            obr_type d = ''delta'' \<and> obr_begin_nonce d = Some 10 \<and> obr_sequence d = Some 15
            \<and> unwrap (markets 7) (\<lambda>m. let periodic = book_snapshot_row 3 m in
                obr_time periodic = obr_time d
                \<and> obr_type periodic = ''snapshot'' \<and> obr_sequence periodic = Some 15
                \<and> obr_begin_nonce periodic = None
                \<and> obr_bids periodic = levels_json [(''217.70'', ''0.0460''), (''217.69'', ''1'')]
                \<and> obr_asks periodic = levels_json [(''217.85'', ''4'')]
                \<and> applied L (test_delta L 15 16 (levels_text [(''217.70'', ''0'')]) (levels_text [])) markets
                    (\<lambda>next markets. unwrap_ok next (\<lambda>next.
                     obr_time next = obr_time periodic
                     \<and> obr_begin_nonce next = obr_sequence periodic
                     \<and> unwrap (markets 7) (\<lambda>m. let latest = book_snapshot_row 3 m in
                         obr_time latest = obr_time next \<and> obr_sequence latest = Some 16
                         \<and> obr_bids latest = levels_json [(''217.69'', ''1'')]))))))))"

lemma rows_store_begin_nonce_and_snapshot_equals_book_after_last_delta:
  "rows_store_begin_nonce_and_snapshot_equals_book_after_last_delta tu" by code_simp

definition missing_books_lists_subscribed_markets_without_a_snapshot ::
  "('d::linorder, 't::linorder, 'f) libs \<Rightarrow> bool" where
  "missing_books_lists_subscribed_markets_without_a_snapshot L \<longleftrightarrow>
     missing_books [7, 15] (Map.empty :: ('d, 't) markets) = [7, 15]
     \<and> applied L (test_snapshot L 10 (levels_text []) (levels_text [])) Map.empty (\<lambda>r markets. unwrap_ok r (\<lambda>_.
          missing_books [7, 15] markets = [15] \<and> missing_books [15] markets = [15]))"

lemma missing_books_lists_subscribed_markets_without_a_snapshot:
  "missing_books_lists_subscribed_markets_without_a_snapshot tu" by code_simp

text \<open>\<^verbatim>\<open>*last_updated_at = t\<close> on an update.\<close>

fun set_last_updated_at :: "int \<Rightarrow> order_book_ws_message \<Rightarrow> order_book_ws_message" where
  "set_last_updated_at t (ObUpdate channel _ order_book) = ObUpdate channel t order_book"
| "set_last_updated_at t m = m"

definition gap_fails_and_leaves_the_book_unchanged :: "('d::linorder, 't::linorder, 'f) libs \<Rightarrow> bool" where
  "gap_fails_and_leaves_the_book_unchanged L =
     applied L (test_snapshot L 10 (levels_text [(''1'', ''1'')]) (levels_text [])) Map.empty
       (\<lambda>r markets. unwrap_ok r (\<lambda>_.
     applied L (test_delta L 11 12 (levels_text [(''1'', ''0'')]) (levels_text [])) markets
       (\<lambda>err markets.
         isl err
         \<and> unwrap (markets 7) (\<lambda>m. mb_nonce m = 10 \<and> length (bids (mb_book m)) = 1
             \<and> (let before = book_snapshot_row 3 m in
                 applied L (map_option (set_last_updated_at (to_micros L (obr_time before) - 1))
                     (test_delta L 10 11 (levels_text [(''1'', ''0'')]) (levels_text []))) markets
                   (\<lambda>err markets.
                     unwrap_err err (\<lambda>e. case e of TimeBackwards _ \<Rightarrow> True | _ \<Rightarrow> False)
                     \<and> unwrap (markets 7) (\<lambda>m. let after = book_snapshot_row 3 m in
                         obr_time after = obr_time before \<and> obr_sequence after = obr_sequence before
                         \<and> obr_bids after = obr_bids before \<and> obr_asks after = obr_asks before)))))))"

lemma gap_fails_and_leaves_the_book_unchanged: "gap_fails_and_leaves_the_book_unchanged tu" by code_simp

definition delta_before_snapshot_fails :: "('d::linorder, 't::linorder, 'f) libs \<Rightarrow> bool" where
  "delta_before_snapshot_fails L =
     applied L (test_delta L 0 1 (levels_text []) (levels_text [])) Map.empty (\<lambda>r markets. isl r)"

lemma delta_before_snapshot_fails: "delta_before_snapshot_fails tu" by code_simp

end
