(* ===== verification/Funding_Tests.thy ===== *)
theory Funding_Tests
  imports Test_Support
begin

text \<open>
  The unit tests of \<^verbatim>\<open>src/funding.rs\<close> on the model, as in theory \<open>Unit_Tests\<close>. The instants that the tests
  give as a date are given in Unix seconds. What the first test says about the text of a decimal
  (\<^verbatim>\<open>to_string\<close>) is left out: the model compares decimals by value.
\<close>

text \<open>\<^verbatim>\<open>at(secs)\<close>: the instant, or a panic.\<close>

definition at :: "('d, 't, 'f) libs \<Rightarrow> int \<Rightarrow> ('t \<Rightarrow> bool) \<Rightarrow> bool" where
  "at L secs rest = unwrap (from_secs L secs) rest"

definition parsed ::
  "('d, 't, 'f) libs \<Rightarrow> string \<Rightarrow> (funding_error + ('t, 'd) settled_funding list \<Rightarrow> bool) \<Rightarrow> bool" where
  "parsed L body rest = rest (parse_fundings_response L body)"

definition parses_exact_decimal_rates_and_unix_second_times :: "('d, 't, 'f) libs \<Rightarrow> bool" where
  \<open>parses_exact_decimal_rates_and_unix_second_times L =
     parsed L (''{"code":200,"resolution":"1h","fundings":['' @
       ''{"timestamp":1790416800,"value":"0.00089832","rate":"0.0004","direction":"long"},'' @
       ''{"timestamp":1790420400,"value":"0.00089876","rate":"-0.00012500","direction":"short"}]}'')
       (\<lambda>r. unwrap_ok r (\<lambda>rows.
         length rows = 2
         \<and> index rows 0 (\<lambda>row. at L 1790416800 (\<lambda>t. sf_time row = t)
              \<and> unwrap (dec_from_str L ''0.0004'') (\<lambda>d. sf_rate row = d)
              \<and> sf_direction row = ''long'')
         \<and> index rows 1 (\<lambda>row. sf_direction row = ''short'')))\<close>

lemma parses_exact_decimal_rates_and_unix_second_times:
  "parses_exact_decimal_rates_and_unix_second_times tu" by code_simp

definition accepts_an_empty_window :: "('d, 't, 'f) libs \<Rightarrow> bool" where
  \<open>accepts_an_empty_window L =
     parsed L ''{"code":200,"resolution":"1h","fundings":[]}'' (\<lambda>r. unwrap_ok r (\<lambda>rows. rows = []))\<close>

lemma accepts_an_empty_window: "accepts_an_empty_window tu" by code_simp

definition rejects_an_error_code :: "('d, 't, 'f) libs \<Rightarrow> bool" where
  \<open>rejects_an_error_code L =
     parsed L ''{"code":429,"resolution":"1h","fundings":[]}'' (\<lambda>r. unwrap_err r (\<lambda>err.
       case err of FundingsCode code \<Rightarrow> code = 429 | _ \<Rightarrow> False))\<close>

lemma rejects_an_error_code: "rejects_an_error_code tu" by code_simp

definition rejects_a_different_resolution :: "('d, 't, 'f) libs \<Rightarrow> bool" where
  \<open>rejects_a_different_resolution L =
     parsed L ''{"code":200,"resolution":"1d","fundings":[]}'' (\<lambda>r. unwrap_err r (\<lambda>err.
       case err of FundingsResolution _ \<Rightarrow> True | _ \<Rightarrow> False))\<close>

lemma rejects_a_different_resolution: "rejects_a_different_resolution tu" by code_simp

definition rejects_a_missing_rate :: "('d, 't, 'f) libs \<Rightarrow> bool" where
  \<open>rejects_a_missing_rate L =
     parsed L (''{"code":200,"resolution":"1h","fundings":['' @
       ''{"timestamp":1790416800,"direction":"long"}]}'') isl\<close>

lemma rejects_a_missing_rate: "rejects_a_missing_rate tu" by code_simp

definition rejects_a_numeric_rate_instead_of_a_string :: "('d, 't, 'f) libs \<Rightarrow> bool" where
  \<open>rejects_a_numeric_rate_instead_of_a_string L =
     parsed L (''{"code":200,"resolution":"1h","fundings":['' @
       ''{"timestamp":1790416800,"rate":0.0004,"direction":"long"}]}'') isl\<close>

lemma rejects_a_numeric_rate_instead_of_a_string: "rejects_a_numeric_rate_instead_of_a_string tu" by code_simp

definition rejects_a_rate_that_is_not_a_decimal :: "('d, 't, 'f) libs \<Rightarrow> bool" where
  \<open>rejects_a_rate_that_is_not_a_decimal L =
     parsed L (''{"code":200,"resolution":"1h","fundings":['' @
       ''{"timestamp":1790416800,"rate":"abc","direction":"long"}]}'') (\<lambda>r. unwrap_err r (\<lambda>err.
       case err of FundingRate _ \<Rightarrow> True | _ \<Rightarrow> False))\<close>

lemma rejects_a_rate_that_is_not_a_decimal: "rejects_a_rate_that_is_not_a_decimal tu" by code_simp

definition rejects_a_future_settlement_such_as_milliseconds_read_as_seconds ::
  "('d, 't::linorder, 'f) libs \<Rightarrow> bool" where
  \<open>rejects_a_future_settlement_such_as_milliseconds_read_as_seconds L =
     parsed L (''{"code":200,"resolution":"1h","fundings":['' @
       ''{"timestamp":1790416800000,"rate":"0.0004","direction":"long"}]}'') (\<lambda>r. unwrap_ok r (\<lambda>rows.
       at L 0 (\<lambda>start. at L 1790420400 (\<lambda>now.
         unwrap_err (validate_page start now rows) (\<lambda>err.
           case err of AfterNow \<Rightarrow> True | _ \<Rightarrow> False)))))\<close>

lemma rejects_a_future_settlement_such_as_milliseconds_read_as_seconds:
  "rejects_a_future_settlement_such_as_milliseconds_read_as_seconds tu" by code_simp

definition rejects_an_empty_direction :: "('d, 't, 'f) libs \<Rightarrow> bool" where
  \<open>rejects_an_empty_direction L =
     parsed L (''{"code":200,"resolution":"1h","fundings":['' @
       ''{"timestamp":1790416800,"rate":"0.0004","direction":""}]}'') isl\<close>

lemma rejects_an_empty_direction: "rejects_an_empty_direction tu" by code_simp

text \<open>The check of a page of rows at the given seconds, from 1000 to 2000.\<close>

definition page_checked :: "('d, 't::linorder, 'f) libs \<Rightarrow> int list \<Rightarrow> (funding_error + unit \<Rightarrow> bool) \<Rightarrow> bool" where
  "page_checked L secs rest =
     unwrap (dec_from_str L ''0.0004'') (\<lambda>rate. at L 1000 (\<lambda>start. at L 2000 (\<lambda>now.
     unwrap (seq_opt (from_secs L) secs) (\<lambda>times.
       rest (validate_page start now
         (map (\<lambda>t. \<lparr>sf_time = t, sf_rate = rate, sf_direction = ''long''\<rparr>) times))))))"

definition page_must_be_strictly_increasing_from_start :: "('d, 't::linorder, 'f) libs \<Rightarrow> bool" where
  "page_must_be_strictly_increasing_from_start L \<longleftrightarrow>
     page_checked L [1001, 1002] (\<lambda>r. \<not> isl r)
     \<and> page_checked L [] (\<lambda>r. \<not> isl r)
     \<and> page_checked L [1000, 1001] (\<lambda>r. \<not> isl r)
     \<and> page_checked L [999] isl
     \<and> page_checked L [1002, 1001] isl
     \<and> page_checked L [1001, 1001] isl
     \<and> page_checked L [2001] isl"

lemma page_must_be_strictly_increasing_from_start: "page_must_be_strictly_increasing_from_start tu" by code_simp

text \<open>12:00 on 27 October 2026, 00:00 on 1 January 2026, and 13:00 on 27 October.\<close>

definition starts_at_the_next_hour_after_the_newest_stored_settlement :: "('d, 't, 'f) libs \<Rightarrow> bool" where
  "starts_at_the_next_hour_after_the_newest_stored_settlement L =
     at L 1793102400 (\<lambda>newest. at L 1767225600 (\<lambda>configured. at L 1793106000 (\<lambda>expected.
       unwrap_ok (next_request_start L (Some newest) configured) (\<lambda>start. start = expected))))"

lemma starts_at_the_next_hour_after_the_newest_stored_settlement:
  "starts_at_the_next_hour_after_the_newest_stored_settlement tu" by code_simp

text \<open>00:00, 00:30 and 01:00 on 1 January 2026.\<close>

definition starts_at_the_backfill_hour_when_nothing_is_stored :: "('d, 't, 'f) libs \<Rightarrow> bool" where
  "starts_at_the_backfill_hour_when_nothing_is_stored L \<longleftrightarrow>
     at L 1767225600 (\<lambda>aligned. unwrap_ok (next_request_start L None aligned) (\<lambda>start. start = aligned))
     \<and> at L 1767227400 (\<lambda>mid_hour. at L 1767229200 (\<lambda>expected.
         unwrap_ok (next_request_start L None mid_hour) (\<lambda>start. start = expected)))"

lemma starts_at_the_backfill_hour_when_nothing_is_stored:
  "starts_at_the_backfill_hour_when_nothing_is_stored tu" by code_simp

text \<open>09:00:00, 08:23:00 and 09:00:05 on 28 October 2026.\<close>

definition requests_only_after_the_start_hour_closed :: "('d, 't::linorder, 'f) libs \<Rightarrow> bool" where
  "requests_only_after_the_start_hour_closed L =
     at L 1793178000 (\<lambda>start. at L 1793175780 (\<lambda>before. at L 1793178005 (\<lambda>after.
       unwrap_ok (hour_closed L start before) (\<lambda>closed. \<not> closed)
       \<and> unwrap_ok (hour_closed L start start) (\<lambda>closed. closed)
       \<and> unwrap_ok (hour_closed L start after) (\<lambda>closed. closed))))"

lemma requests_only_after_the_start_hour_closed: "requests_only_after_the_start_hour_closed tu" by code_simp

end
