(* ===== verification/Spec2Isabelle.thy ===== *)
theory Spec2Isabelle
  imports Sample_Life Upgrades Life_Types Life_Fundings Session_Props Export_Props Unit_Tests Funding_Tests
begin

text \<open>
  A model of lighter-timescaledb-ingestor, a service that records the public market data of the Lighter
  exchange in TimescaleDB, with the theorems that make it correct.

  \<^bold>\<open>The program.\<close> At its start the service reads three settings, lists the markets of the exchange over REST and
  upserts them into the table of symbols in one transaction (\<^verbatim>\<open>src/main.rs\<close>, \<^verbatim>\<open>src/lib.rs\<close>). Then three
  tasks run. A loop opens one WebSocket connection after another (\<^verbatim>\<open>src/ws.rs\<close>): it keeps an order book of
  each market (\<^verbatim>\<open>src/book.rs\<close>) up to date from snapshots and deltas, checks that the nonces and times of a market
  continue, and turns book messages and trades into rows; at an interval that is set it adds a snapshot row for
  each book. The rows go through a channel of 1024 messages to the writer task, which collects them in batches and
  inserts a batch when it holds 128 or when a tick comes; a write that fails exits the process. A poller
  (\<^verbatim>\<open>src/funding.rs\<close>) pages the hourly settled funding of each perpetual market into its table. Apart from the
  service, one subcommand exports stored rows as Parquet files (\<^verbatim>\<open>src/export.rs\<close>). The tasks share nothing but
  the channel and the database.

  \<^bold>\<open>What models what.\<close>
  \<^item> \<open>Prelude\<close>, \<open>Rust_Std\<close>: results as sums with \<open>and_then\<close> for the \<^verbatim>\<open>?\<close> operator, ranges of the integers, and the
    functions of the standard library on strings and numbers that the code calls.
  \<^item> \<open>Json\<close>, \<open>Wire\<close>, \<open>Wire_Account\<close>: \<^verbatim>\<open>crates/lighter-rs-types\<close>, its structs as records and their derived
    deserialisers as decoders of JSON values.
  \<^item> \<open>Libs\<close>: the third-party functions (decimals, instants, floats, JSON text) as one record \<open>L\<close>, an argument of
    every definition that calls one. \<open>chrono_ok\<close> is the documented clock arithmetic that the funding
    properties assume; what else a property assumes of \<open>L\<close> stands in its hypotheses.
  \<^item> \<open>Ordered_Map\<close>, \<open>Book\<close>: \<^verbatim>\<open>src/book.rs\<close>; a side is a \<^verbatim>\<open>BTreeMap\<close>, listed in the order of its keys. An
    update that fails at a level leaves the levels before it applied, as the code does.
  \<^item> \<open>Models\<close>, \<open>Schema\<close>: \<^verbatim>\<open>src/models.rs\<close> and \<^verbatim>\<open>src/schema.rs\<close>, rows and columns, and the values a row gives its
    columns.
  \<^item> \<open>Migrations\<close>, \<open>Constraints\<close>, \<open>Upgrades\<close>: \<^verbatim>\<open>migrations/\<close>, the statements of every \<^verbatim>\<open>up.sql\<close> and \<^verbatim>\<open>down.sql\<close> and what they do to a
    catalog of tables, constraints, indexes and policies; \<open>satisfies\<close> says what a catalog demands of the contents of
    the tables; \<open>exec_on\<close> runs a statement on a catalog together with rows, which may forbid it.
  \<^item> \<open>Feed\<close>, \<open>Session\<close>: \<^verbatim>\<open>src/ws.rs\<close> up to the channel. \<open>conn\<close> is the state of a connection (books, whether the
    sender and the socket are open, rows handed over, frames sent); \<open>on_event\<close> is one turn of the
    \<^verbatim>\<open>select!\<close> loop, with one branch for each of its arms; \<open>run_ws_ingestion\<close> runs a list of events, and
    \<open>reach\<close> holds of the connections that any events lead to.
  \<^item> \<open>Store\<close>: the statements of \<^verbatim>\<open>src/lib.rs\<close> on tables (lists of rows) under the constraints of
    \<^verbatim>\<open>migrations/\<close>, with the sequence that symbol ids are drawn from and its end; \<open>db_inv\<close> says that the constraints
    hold.
  \<^item> \<open>Writer\<close>: \<^verbatim>\<open>writer_task\<close> and \<^verbatim>\<open>flush\<close> of \<^verbatim>\<open>src/ws.rs\<close>; \<open>writer_step\<close> is one turn of its loop with a fault of
    the database chosen by the environment, \<open>pipe_step\<close> the writer beside its bounded channel.
  \<^item> \<open>Funding\<close>: \<^verbatim>\<open>src/funding.rs\<close>; \<open>poll_round\<close> is one turn of the paging loop, \<open>poll_market\<close>, \<open>poll_sweep\<close> and
    \<open>run_funding_poller\<close> the loops around it, over lists of \<open>round\<close>s: what the clock, the server and the
    database answer in each turn.
  \<^item> \<open>Export\<close>: \<^verbatim>\<open>src/export.rs\<close>, over a tree of files and the rows that the query gives. \<open>Query\<close> says which rows
    of the tables the two statements select: the \<^verbatim>\<open>WHERE\<close> clause is read back from the text that the code builds.
  \<^item> \<open>Ingestor\<close>: \<^verbatim>\<open>src/main.rs\<close>, the start (\<open>start_ingestor\<close>), the result of \<^verbatim>\<open>main\<close> and the sequence of sessions.
  \<^item> \<open>Life\<close>: everything composed. A state \<open>life\<close> is the database and, while a process runs, what its tasks
    hold; \<open>life_step\<close> is one action of one task, a start, or a kill, so every interleaving of the tasks
    is a sequence of its steps. \<open>Retention\<close> adds the drops of the retention policy.

  \<^bold>\<open>Interfaces.\<close> The locale \<open>ordered_map\<close> (in \<open>Ordered_Map\<close>) says that each operation is an edit of a finite map;
  the sides of a book rest on its interpretation \<open>bt\<close>. \<open>snapshot_book\<close> (in \<open>Snapshot_Log\<close>) is what a reader of
  stored rows needs of a book: operations that keep an invariant and a snapshot that gives the book back; \<open>bk\<close>
  interprets it on \<open>Book\<close>. \<open>dedup_insert\<close> (in \<open>Store\<close>) is \<^verbatim>\<open>ON CONFLICT DO NOTHING\<close>, interpreted on
  trades and on funding rates. \<open>column_batch\<close> (in \<open>Export_Laws\<close>) is the contract between the export loop and the two
  column builders.

  \<^bold>\<open>What is proved.\<close> \<open>read_rows\<close> defines what the stored order-book rows mean: replay a symbol's rows, each
  delta only after the nonce that it names.
  \<^item> Over a life of the service: the stored rows of a symbol are always readable, from any snapshot on (C1); with
    those in flight they give the open connection's live book (C2), also when the retention policy drops rows,
    as long as snapshots come in the order of their times (\<open>retention_keeps_live_book\<close>); the settlements that are stored are exactly those from the backfill instant to the
    newest one (\<open>stored_funding_is_exact\<close>). These rest on \<open>life_inv\<close>, which every step keeps, and on
    \<open>Life_Fundings\<close>.
  \<^item> The declared schema: the migrations declare the tables of \<^verbatim>\<open>src/schema.rs\<close>; what they declare
    is what the model enforces; which rows allow them to be reverted (\<open>reverts_need_old_rows\<close>); a life keeps every declared constraint and every integer in the range of its
    column (\<open>Life_Types\<close>).
  \<^item> Readers (\<open>Export_Log\<close>): in the order of time and id, which the README gives, the rows replay to the same books
    as long as no snapshot is older than the row before it; a book that comes with an older time is accepted,
    and then that order misses the live book (\<open>older_book_misleads_time_order\<close>); from an exported file the
    books of a market can be rebuilt, on the same condition and when no other market has its ticker.
  \<^item> A connection (\<open>Feed_Log\<close>, \<open>Session\<close>, their \<open>_Props\<close>): exactly which deltas are accepted and what
    they do, the rows refine the books (\<open>feed_inv\<close>), a gap or a bad frame ends the connection without a row,
    a book check subscribes again to what is missing, sides stay sorted.
  \<^item> The pipeline (\<open>Writer\<close>, \<open>Store\<close>, \<open>Store_Props\<close>): first in, first out, within its two bounds; prefixes
    after a failure; a channel without senders is drained; inserts that can be repeated.
  \<^item> Funding (\<open>Funding_Grid\<close>, \<open>Funding_Poll\<close>, \<open>Funding_Reference\<close>, \<open>Funding_Bounds\<close>): exactly which responses
    are accepted; request starts on the hourly grid; paging is one uncapped request; the loop ends; the
    64-bit arithmetic does not wrap; no minute holds more requests than the limit.
  \<^item> Start and export (\<open>Ingestor_Props\<close>, \<open>Export_Laws\<close>, \<open>Export_Query\<close>, \<open>Query\<close>): the effect of a sync, success or not;
    a query that asks for what the command line asks for, and complete files with exactly those rows.

  \<open>Sample\<close>, \<open>Json_Text\<close> and \<open>Sample_Life\<close> are a concrete instance of the libraries, a small exchange and a life on
  it, on which each property is tried out. \<open>Wire_Tests\<close>, \<open>Unit_Tests\<close> and \<open>Funding_Tests\<close> translate every unit test
  of the repository, but for two assertions on the printed form of a decimal, and show that the model passes it.

  \<^bold>\<open>Loops and their bounds.\<close> There is no fuel that a property could run out of. A loop that may go on for
  ever (a connection, the writer, the poller) takes a list of what its environment does, and stops with its state
  when the list ends, as a process that was killed does. \<open>poll_market_returns\<close> shows how long a list a poll
  needs: one turn for each hour from its start to the bound of its clock, and two. The writer needs one turn for
  each message of the channel and one more (\<open>abandoned_channel_drains\<close>).

  \<^bold>\<open>Not modelled.\<close>
  \<^item> Time: which timer fires when is the environment's choice, except for the spacing of funding requests. Logging,
    counters and the texts of errors are left out; an error is a constructor.
  \<^item> Third-party code: tokio (beyond the interleaving of its tasks), the WebSocket and HTTP clients, TLS, clap, chrono,
    bigdecimal, serde's reading of text, diesel, arrow and parquet. Sending is one action that succeeds or
    fails. That the database answers the two queries of an export with the rows that \<open>Query\<close> selects, in their order,
    is a hypothesis (\<open>answers_trades\<close>, \<open>answers_orderbooks\<close>).
  \<^item> The database beyond its constraints: the id of a row is its place in the table; indexes, compression and
    hypertable chunks do not change what is stored. When the retention policy runs and which rows are then old
    enough is the environment's choice. Writers to the tables other than this service, also a second process of
    it, are left out, as are the bodies of the two functions that diesel sets up and nothing uses.
  \<^item> Limits that PostgreSQL has and Rust does not: characters against bytes in \<^verbatim>\<open>VARCHAR(255)\<close>, NUL in text, its range of
    instants. The writer's two statements are separate, so a kill between them leaves what the fault \<open>OrderbooksFault\<close>
    leaves; a commit whose answer is lost is a commit and then a kill.
\<close>

section \<open>From the exchange to the tables\<close>

text \<open>C1. Whatever happens to the service, the order-book rows in the table stay one readable log for each symbol:
  a snapshot first, every delta continuing the row before it, and a reader can replay them, from the first
  row or from any snapshot row on, always to the same book. The database keeps its constraints. This holds at every moment of a life
  that starts from an empty order-book table: through starts with any symbol sync, connections that fail at
  any frame, writes that fail or are killed half-way, and kills at any moment, against any exchange.\<close>

theorem service_keeps_readable_logs:
  assumes "life_reach L cfg answers db l" and "db_inv db" and "db_orderbooks db = []" and "db_fundings db = []"
    and "r \<in> set (db_symbols (li_db l))"
  defines "rows \<equiv> table_rows (sym_id r) (li_db l)"
  shows "db_inv (li_db l) \<and> chained rows \<and> read_rows L rows \<noteq> None
     \<and> (\<forall>before row after. rows = before @ row # after \<longrightarrow> obr_type row = ''snapshot'' \<longrightarrow>
          read_rows L (row # after) = read_rows L rows)"
proof -
  have ok: "db_inv (li_db l) \<and> log_ok L rows"
    using life_logs [OF assms(1-4)] life_inv_logs [OF _ assms(5)] unfolding rows_def by blast
  then obtain st where "read_rows L rows = Some st" by (auto simp: log_ok_def)
  with ok read_rows_restart [of L _ _ _ st] show ?thesis by (auto simp: log_ok_def)
qed

theorem service_keeps_readable_logs_witness:
  "length (table_rows 1 db7) = 1 \<and> db_inv db7 \<and> chained (table_rows 1 db7)
   \<and> read_rows funding_libs (table_rows 1 db7) \<noteq> None"
proof -
  let ?r = "\<lparr>sym_id = 1, sym_name = ''BTC'', sym_market_id = 7, sym_market_type = ''perp''\<rparr>"
  from service_keeps_readable_logs [OF life_sample_reach7 sample_db_inv sample_db_new, of ?r] btc_row7
  have "db_inv db7 \<and> chained (table_rows 1 db7) \<and> read_rows funding_libs (table_rows 1 db7) \<noteq> None" by simp
  moreover have "length (table_rows 1 db7) = 1" by code_simp
  ultimately show ?thesis by blast
qed

text \<open>C2. The rows give the live book: while a connection is open and has a book of a market, replaying the stored
  rows of its symbol and then those in flight (batch, channel, being sent) gives exactly the nonce and the
  book that the connection holds, whatever earlier connections, processes and failed writes left in the
  table.\<close>

theorem live_book_is_replayable:
  assumes "life_reach L cfg answers db l" and "db_inv db" and "db_orderbooks db = []" and "db_fundings db = []"
    and "li_proc l = Some p" and "pr_conn p = Some c"
    and "sv_symbol_cache (pr_services p) market_id = Some symbol" and "cn_markets c market_id = Some m"
  shows "read_rows L (table_rows symbol (li_db l) @ rows_of symbol (pr_batch p @ pr_queue p @ pr_pending p))
     = Some (Some (mb_nonce m, mb_book m))"
  using life_logs [OF assms(1-4)] life_inv_book [OF _ assms(5-8)]
  by (auto simp: all_rows_def in_flight_def market_state_def)

theorem live_book_is_replayable_witness:
  "read_rows funding_libs (table_rows 1 db0 @ rows_of 1 (pr_batch p2 @ pr_queue p2 @ pr_pending p2))
     = Some (Some (10, mb_book (the (cn_markets (snd e2) 7))))"
proof -
  have "\<not> isl (fst e2)" by code_simp
  then have c: "pr_conn p2 = Some (snd e2)" by (simp add: p2_def)
  have "load_symbol_cache db0 7 = Some 1" by code_simp
  then have s: "sv_symbol_cache (pr_services p2) 7 = Some 1" using idle2 by (simp add: sv0_def)
  have "map_option mb_nonce (cn_markets (snd e2) 7) = Some 10" by code_simp
  then obtain m where m: "cn_markets (snd e2) 7 = Some m" "mb_nonce m = 10" by auto
  from live_book_is_replayable [OF life_sample_reach2 sample_db_inv sample_db_new _ c s m(1)] m(2)
  show ?thesis by (simp add: m(1))
qed

text \<open>C4. Stored funding is exact: at every moment of a life from an empty funding table, the settlement times that
  are stored for a market are exactly those settlements of the market that lie between the backfill instant and
  the newest one that is stored. None is missing, so the next poll, in this process or the next, loses nothing,
  and none is made up. The servers page the hourly settlements of each market and may fail in any way.\<close>

theorem stored_funding_is_exact:
  assumes "life_reach L cfg answers db l" and "chrono_ok L nanos" and "hourly S"
    and "\<And>k server. answers k server \<Longrightarrow> serves L nanos k (S k) server"
    and "cf_backfill_start cfg = Some backfill"
    and "db_inv db" and "db_orderbooks db = []" and "db_fundings db = []"
    and "r \<in> set (db_symbols (li_db l))"
  defines "stored_times \<equiv> set (funding_times (sym_id r) (li_db l))"
  shows "nanos ` stored_times = (\<lambda>s. s * 1000000000) ` {s \<in> set (S (sym_market_id r)).
     nanos backfill \<le> s * 1000000000 \<and> (\<exists>t \<in> stored_times. s * 1000000000 \<le> nanos t)}"
  unfolding stored_times_def
proof (rule exact_fundings)
  have "life_inv True L nanos backfill S l"
    using assms(4,5) by (intro life_reach_inv [OF assms(1-3) _ _ db_ok_new [OF assms(6-8)]]) simp_all
  with assms(9) show "no_gap nanos backfill (S (sym_market_id r)) (sym_id r) (li_db l)"
    by (auto simp: life_inv_def db_ok_def market_pairs_def)
  have "(sym_market_id r, sym_id r) \<in> market_pairs (li_db l)" using assms(9) by (auto simp: market_pairs_def)
  then show "known_settlement nanos backfill (S (sym_market_id r)) t" if "t \<in> set (funding_times (sym_id r) (li_db l))" for t
    using life_reach_sound [OF assms(1,2,4-8)] that by (auto simp: life_sound_def dest: fundings_soundD)
qed

theorem stored_funding_is_exact_witness:
  "set (funding_times 1 db7) = {3600000000000, 7200000000000}
   \<and> (\<lambda>t. t) ` set (funding_times 1 db7) = (\<lambda>s. s * 1000000000) ` {s \<in> set [3600, 7200].
        0 \<le> s * 1000000000 \<and> (\<exists>t \<in> set (funding_times 1 db7). s * 1000000000 \<le> t)}"
proof
  let ?r = "\<lparr>sym_id = 1, sym_name = ''BTC'', sym_market_id = 7, sym_market_type = ''perp''\<rparr>"
  have h: "hourly btc_settlements" by (simp add: hourly_def btc_settlements_def)
  have b: "cf_backfill_start sample_config = Some 0" by (simp add: sample_config_def)
  from stored_funding_is_exact [OF life_sample_reach7 funding_chrono h _ b sample_db_inv sample_db_new, of ?r] btc_row7
  show "(\<lambda>t. t) ` set (funding_times 1 db7) = (\<lambda>s. s * 1000000000) ` {s \<in> set [3600, 7200].
        0 \<le> s * 1000000000 \<and> (\<exists>t \<in> set (funding_times 1 db7). s * 1000000000 \<le> t)}"
    by (simp add: life_answers_def btc_settlements_def)
  have "funding_times 1 db7 = [3600000000000, 7200000000000]" by code_simp
  then show "set (funding_times 1 db7) = {3600000000000, 7200000000000}" by simp
qed

text \<open>C18. The tables accept every row that connections produce, up to the types of trades, which come from
  the exchange unchecked: a batch of such rows in which every trade has one of the four known types is
  stored as a whole when no fault of the connection strikes. A trade of any other type ends the process.\<close>

theorem session_batches_are_stored:
  assumes "db_inv (wr_db w)" and "wr_batch w \<noteq> []"
    and "set (wr_batch w) \<subseteq> set (ws_sessions L market_ids (load_symbol_cache (wr_db w)) sessions)"
  shows "if list_all (\<lambda>r. tw_type r \<in> set trade_types) (trades_of (wr_batch w))
     then flush NoFault w = w\<lparr>wr_batch := [], wr_db := stored (wr_db w) (wr_batch w)\<rparr>
     else flush NoFault w = w\<lparr>wr_batch := [], wr_status := ProcessExit\<rparr>"
proof -
  have inv: "symbols_inv (wr_db w)" using assms(1) by (simp add: db_inv_def)
  note ran = load_symbol_cache_ran [OF inv]
  have known: "known_row (load_symbol_cache (wr_db w)) m" if "m \<in> set (wr_batch w)" for m
    using that assms(3) by (intro ws_sessions_known [of m L market_ids _ sessions]) auto
  show ?thesis
  proof (cases "list_all (\<lambda>r. tw_type r \<in> set trade_types) (trades_of (wr_batch w))")
    case True
    have "acceptable (wr_db w) m" if "m \<in> set (wr_batch w)" for m
      using known [OF that] True that ran by (cases m) (auto simp: list_all_iff trades_of_set)
    then have "flush_rows NoFault (trades_of (wr_batch w)) (orderbooks_of (wr_batch w)) (wr_db w)
        = (True, stored (wr_db w) (wr_batch w))" by (intro flush_rows_accepts) simp_all
    with True assms(2) show ?thesis by (simp add: flush_def)
  next
    case False
    then have "insert_trades (trades_of (wr_batch w)) (wr_db w) = Inl CheckViolation"
      by (auto simp: insert_trades_def list_all_iff)
    moreover have "trades_of (wr_batch w) \<noteq> []" using False by auto
    ultimately have "flush_rows NoFault (trades_of (wr_batch w)) (orderbooks_of (wr_batch w)) (wr_db w)
        = (False, wr_db w)" by (simp add: flush_rows_def)
    with False assms(2) show ?thesis by (simp add: flush_def)
  qed
qed

theorem session_batches_are_stored_witness:
  "flush NoFault \<lparr>wr_batch = cn_rows sample_conn, wr_db = sample_db, wr_status = Running\<rparr>
     = \<lparr>wr_batch = [], wr_db = stored sample_db (cn_rows sample_conn), wr_status = Running\<rparr>"
proof -
  let ?w = "\<lparr>wr_batch = cn_rows sample_conn, wr_db = sample_db, wr_status = Running\<rparr>"
  let ?s = "\<lparr>ss_connect = True, ss_tx_open = True, ss_sink = None, ss_events = sample_events\<rparr>"
  have "ws_sessions sample [7, 8] sample_cache [?s] = cn_rows sample_conn"
    using sample_run_ok by (simp add: session_run_def sample_run_def)
  then have sub: "set (wr_batch ?w) \<subseteq> set (ws_sessions sample [7, 8] (load_symbol_cache (wr_db ?w)) [?s])"
    by (simp add: sample_db_cache)
  have "0 < length (cn_rows sample_conn)" by code_simp
  then have ne: "wr_batch ?w \<noteq> []" by simp
  have inv: "db_inv (wr_db ?w)" by (simp add: sample_db_inv)
  have "list_all (\<lambda>r. tw_type r \<in> set trade_types) (trades_of (cn_rows sample_conn))" by code_simp
  with session_batches_are_stored [OF inv ne sub] show ?thesis by simp
qed

section \<open>The declared schema\<close>

text \<open>C15. The migrations, applied in order to an empty database, succeed and declare exactly the tables of
  \<^verbatim>\<open>src/schema.rs\<close>: the same columns in the same order, with the same types and nullability, the same primary keys,
  and the references that it declares joinable.\<close>

theorem migrations_declare_schema:
  "migrate (length migrations) no_catalog = Inr migrated
   \<and> map (\<lambda>name. map_option schema_table (table_named name migrated)) (map tb_name same_query) = map Some same_query
   \<and> length (ca_tables migrated) = length same_query
   \<and> set (references_of migrated) = set joinable"
proof (intro conjI)
  show "length (ca_tables migrated) = length same_query" by code_simp
qed (rule migrated_eq migrated_schema migrated_references)+

text \<open>C39. Which databases can be reverted: reverting the last \<open>n\<close> migrations from any contents of the tables succeeds
  exactly when, from the fourth on (\<^verbatim>\<open>trade_type_values\<close>), no stored trade is a deleverage or a market
  settlement, and, from the fifth on (\<^verbatim>\<open>spot_market_support\<close>), no two symbols share a name. Otherwise the
  \<^verbatim>\<open>ADD CONSTRAINT\<close> of that \<^verbatim>\<open>down.sql\<close> fails on the rows. When it succeeds, tables, columns, constraints, indexes
  and policies are those that the first migrations alone declare, and every table that is left has all its
  rows. The index migration is an exception to the rest: on any catalog, its \<^verbatim>\<open>down.sql\<close> also drops indexes of its two
  names that were there before its \<^verbatim>\<open>up.sql\<close>.\<close>

theorem reverts_need_old_rows:
  assumes "n \<le> length migrations"
  shows "((\<exists>w. exec_all_on (undo n) (migrated, table_data db) = Inr w) \<longleftrightarrow>
        (4 \<le> n \<longrightarrow> (\<forall>r \<in> set (db_trades db). tw_type r \<in> {''trade'', ''liquidation''}))
      \<and> (5 \<le> n \<longrightarrow> distinct (map sym_name (db_symbols db))))
   \<and> (\<forall>cat data. exec_all_on (undo n) (migrated, table_data db) = Inr (cat, data) \<longrightarrow>
        (\<exists>before. migrate (length migrations - n) no_catalog = Inr before \<and> same_catalog cat before)
      \<and> (\<forall>t \<in> set (ca_tables cat). length (data (pt_name t)) = length (table_data db (pt_name t))))
   \<and> (\<forall>cat cat'. exec_all (mi_up orderbook_read_indexes) cat = Inr cat' \<longrightarrow>
        exec_all (mi_down orderbook_read_indexes) cat' = Inr (cat\<lparr>ca_indexes := filter (\<lambda>i. ix_name i \<notin>
          {''orderbook_messages_symbol_id_idx'', ''orderbook_messages_snapshot_symbol_id_time_idx''}) (ca_indexes cat)\<rparr>))"
proof -
  note down = undo_catalog [OF assms]
  have run: "exec_all_on (undo n) (migrated, table_data db) = Inr w \<longleftrightarrow> exec_all (undo n) migrated = Inr (fst w)
      \<and> snd w = rows_undone (undo n) (table_data db) \<and> all_pass (undo n) (table_data db)" for w
    by (rule exec_all_on_undo [OF down(1)])
  from down(2) obtain cat before where cat: "exec_all (undo n) migrated = Inr cat"
    "migrate (length migrations - n) no_catalog = Inr before" "same_catalog cat before" by blast
  have "(\<exists>w. exec_all_on (undo n) (migrated, table_data db) = Inr w) \<longleftrightarrow> all_pass (undo n) (table_data db)"
    unfolding run using cat(1) by auto
  moreover have "length (rows_undone (undo n) (table_data db) (pt_name t)) = length (table_data db (pt_name t))"
    if "t \<in> set (ca_tables cat)" for t
    using rows_undone_length [OF down(1) undo_tables [OF assms cat(1) that]] .
  ultimately show ?thesis
    using cat read_indexes_undone unfolding undo_passes [OF assms] run by (intro conjI allI impI) auto
qed

theorem reverts_need_old_rows_witness:
  "(\<exists>w. exec_all_on (undo 9) (migrated, table_data sample_db) = Inr w)
   \<and> \<not> (\<exists>w. exec_all_on (undo 5) (migrated, table_data (twin_db 1 2)) = Inr w)
   \<and> (\<exists>w. exec_all_on (undo 4) (migrated, table_data (twin_db 1 2)) = Inr w)"
proof -
  have "length migrations = 9" by (simp add: migrations_def)
  with reverts_need_old_rows [of 9 sample_db] reverts_need_old_rows [of 5 "twin_db 1 2"] reverts_need_old_rows [of 4 "twin_db 1 2"]
  show ?thesis by (simp add: sample_db_def sample_symbols_def twin_db_def)
qed

text \<open>C14. The constraints that the statements of the model check are exactly those that the migrations declare: while
  ids are left, the contents of a database satisfy every column type, \<^verbatim>\<open>NOT NULL\<close>, key, unique index, \<^verbatim>\<open>CHECK\<close> and
  foreign key of the migrated catalog if and only if the invariant of the database and its types hold.\<close>

theorem model_enforces_declared_constraints:
  assumes "ids_left db" and "ids_drawn db"
  shows "satisfies migrated (table_data db) \<longleftrightarrow> db_inv db \<and> rows_typed db"
  using assms by (rule satisfies_iff)

theorem model_enforces_declared_constraints_witness:
  "satisfies migrated (table_data sample_db)
   \<and> \<not> satisfies migrated (table_data (sample_db\<lparr>db_symbols := tl sample_symbols, db_orderbooks := table_rows 1 db7\<rparr>))"
proof -
  let ?bad = "sample_db\<lparr>db_symbols := tl sample_symbols, db_orderbooks := table_rows 1 db7\<rparr>"
  have "length (table_rows 1 db7) = 1" by code_simp
  then have left: "ids_left sample_db" "ids_left ?bad" by (simp_all add: ids_left_def sample_db_def)
  have drawn: "ids_drawn sample_db" "ids_drawn ?bad" by (simp_all add: ids_drawn_def sample_db_def sample_symbols_def)
  have row: "table_rows 1 db7 \<noteq> []" using \<open>length (table_rows 1 db7) = 1\<close> by auto
  have "\<not> db_inv ?bad"
  proof
    assume inv: "db_inv ?bad"
    obtain b where b: "b \<in> set (table_rows 1 db7)" using row by (cases "table_rows 1 db7") auto
    then have "obr_symbol b = 1" by (simp add: table_rows_def)
    with inv b show False by (auto simp: db_inv_def symbol_ids_def sample_symbols_def)
  qed
  moreover have "rows_typed sample_db"
    by (simp add: rows_typed_def sample_db_def sample_symbols_def in_i32_def)
  ultimately show ?thesis
    using model_enforces_declared_constraints [OF left(1) drawn(1)] model_enforces_declared_constraints [OF left(2) drawn(2)]
      sample_db_inv by blast
qed

text \<open>C13. Whatever the exchange sends, what is stored has the declared types and satisfies the declared constraints: a
  life that starts from a database that satisfies the migrated catalog, without order-book rows and
  settlements, satisfies it at every moment, in particular every integer is in the range of its column.\<close>

theorem service_keeps_declared_constraints:
  assumes "life_reach L cfg answers db l" and "satisfies migrated (table_data db)" and "ids_left db" and "ids_drawn db"
    and "0 < db_next_symbol db" and "db_orderbooks db = []" and "db_fundings db = []" and "ids_left (li_db l)"
  shows "satisfies migrated (table_data (li_db l))"
proof -
  have "db_inv db" "rows_typed db" using satisfies_iff [OF assms(3,4)] assms(2) by blast+
  from life_satisfies [OF assms(1) this(1) assms(6,7) this(2) assms(5,8)] show ?thesis .
qed

theorem service_keeps_declared_constraints_witness: "satisfies migrated (table_data db7)"
proof -
  have typed: "rows_typed sample_db" by (simp add: rows_typed_def sample_db_def sample_symbols_def in_i32_def)
  have left: "ids_left sample_db" and drawn: "ids_drawn sample_db" and nxt: "0 < db_next_symbol sample_db"
    by (simp_all add: ids_left_def ids_drawn_def sample_db_def sample_symbols_def)
  have sat: "satisfies migrated (table_data sample_db)"
    using satisfies_iff [OF left drawn] sample_db_inv typed by blast
  have "length (db_trades db7) = 0 \<and> length (db_orderbooks db7) = 1" by code_simp
  then have "ids_left (li_db \<lparr>li_db = db7, li_proc = Some p7\<rparr>)" by (simp add: ids_left_def)
  from service_keeps_declared_constraints [OF life_sample_reach7 sat left drawn nxt sample_db_new this] show ?thesis by simp
qed

section \<open>Reading the tables\<close>

text \<open>C5. Rows in time order: the README tells a reader to replay the rows of a symbol in the order of \<^verbatim>\<open>(time, id)\<close>.
  At every moment of a life, as long as no snapshot row is older than the row of its symbol before it, that is
  the order in which the rows were stored, so a reader that starts at any snapshot row arrives at the same book.\<close>

theorem time_order_is_stored_order:
  assumes "life_reach L cfg answers db l" and "db_inv db" and "db_orderbooks db = []" and "db_fundings db = []"
    and "r \<in> set (db_symbols (li_db l))" and "snapshots_in_time (table_rows (sym_id r) (li_db l))"
  defines "rows \<equiv> table_rows (sym_id r) (li_db l)"
  shows "by_time rows = rows \<and> read_rows L (by_time rows) \<noteq> None
     \<and> (\<forall>before row after. by_time rows = before @ row # after \<longrightarrow> obr_type row = ''snapshot'' \<longrightarrow>
          read_rows L (row # after) = read_rows L rows)"
proof -
  have ok: "log_ok L rows"
    using life_logs [OF assms(1-4)] life_inv_logs [OF _ assms(5)] unfolding rows_def by blast
  then have "sorted (map obr_time rows)"
    using assms(6) by (intro chained_in_time) (simp_all add: log_ok_def rows_def)
  from by_time_sorted [OF this] have b: "by_time rows = rows" .
  from ok obtain st where "read_rows L rows = Some st" by (auto simp: log_ok_def)
  with b read_rows_restart [of L _ _ _ st] show ?thesis by auto
qed

theorem time_order_is_stored_order_witness:
  "length (table_rows 1 db7) = 1 \<and> by_time (table_rows 1 db7) = table_rows 1 db7"
proof -
  let ?r = "\<lparr>sym_id = 1, sym_name = ''BTC'', sym_market_id = 7, sym_market_type = ''perp''\<rparr>"
  have len: "length (table_rows 1 db7) = 1" by code_simp
  then obtain row where "table_rows 1 db7 = [row]" by (auto simp: length_Suc_conv)
  then have "snapshots_in_time (table_rows (sym_id ?r) (li_db \<lparr>li_db = db7, li_proc = Some p7\<rparr>))"
    by (simp add: snapshots_in_time_def)
  with time_order_is_stored_order [OF life_sample_reach7 sample_db_inv sample_db_new, of ?r] btc_row7 len
  show ?thesis by simp
qed




text \<open>C6. The retention policy does no harm: a life in which old order-book rows are dropped at any moments is a life
  without drops but for the rows that are gone. While a connection is open and has a book, and on the condition that no
  snapshot row of the symbol was ever written with an older time than the row of the symbol before it, what
  is left in the table and what is in flight gives that book, from any snapshot row on. The condition is for
  the exchange to keep: the code accepts an older complete book, and a drop may remove the row of that book
  and leave a newer one that was stored before it.\<close>

theorem retention_keeps_live_book:
  assumes "kept_reach L cfg answers db written l" and "db_inv db" and "db_orderbooks db = []" and "db_fundings db = []"
    and "li_proc l = Some p" and "pr_conn p = Some c"
    and "sv_symbol_cache (pr_services p) market_id = Some symbol" and "cn_markets c market_id = Some m"
    and "snapshots_in_time (filter (\<lambda>b. obr_symbol b = symbol) written)"
    and "table_rows symbol (li_db l) @ rows_of symbol (pr_batch p @ pr_queue p @ pr_pending p) = before @ anchor # after"
    and "obr_type anchor = ''snapshot''"
  shows "life_reach L cfg answers db (life_with_books written l)
     \<and> read_rows L (anchor # after) = Some (Some (mb_nonce m, mb_book m))"
  using kept_reach_life [OF assms(1)] kept_live_book [OF assms(1-9) _ assms(11)] assms(10)
  by (simp add: in_flight_def market_state_def)

theorem retention_keeps_live_book_witness:
  "length (table_rows 1 db7) = 1 \<and> table_rows 1 db9 = [] \<and>
   read_rows funding_libs (rows_of 1 (pr_batch p8 @ pr_queue p8 @ pr_pending p8))
     = Some (Some (10, mb_book (the (cn_markets (snd e8) 7))))"
proof -
  let ?l = "\<lparr>li_db = db9, li_proc = Some p8\<rparr>"
  have c: "pr_conn p8 = Some (snd e8)" by (simp add: p8_def)
  have "load_symbol_cache db0 7 = Some 1" by code_simp
  then have s: "sv_symbol_cache (pr_services p8) 7 = Some 1" using idle2 by (simp add: p8_def p7_def p5_def sv0_def)
  have "map_option mb_nonce (cn_markets (snd e8) 7) = Some 10" by code_simp
  then obtain m where m: "cn_markets (snd e8) 7 = Some m" "mb_nonce m = 10" by auto
  have len: "length (table_rows 1 db7) = 1" by code_simp
  then obtain old where "table_rows 1 db7 = [old]" by (auto simp: length_Suc_conv)
  then have t: "snapshots_in_time (filter (\<lambda>b. obr_symbol b = 1) (db_orderbooks db7))"
    by (simp add: table_rows_def snapshots_in_time_def)
  have "length (table_rows 1 db9) = 0" by code_simp
  then have gone: "table_rows 1 db9 = []" by simp
  have "map obr_type (rows_of 1 (pr_batch p8 @ pr_queue p8 @ pr_pending p8)) = [''snapshot'']" by code_simp
  then obtain anchor where anchor: "rows_of 1 (pr_batch p8 @ pr_queue p8 @ pr_pending p8) = [anchor]" "obr_type anchor = ''snapshot''"
    by (auto simp only: map_eq_Cons_conv map_is_Nil_conv)
  from retention_keeps_live_book [OF kept_sample_reach9 sample_db_inv sample_db_new _ c s m(1) t, of "[]" anchor "[]"] anchor m gone len
  show ?thesis by simp
qed

text \<open>C7. From the table to a file and back to a book: at any moment of a life, an export of the order books succeeds
  only with a file from which the books can be rebuilt. On the conditions that the ticker names one market only and that no snapshot
  row of the market is older than the row before it, neither of which the code guarantees, replaying the ticker's lines from any snapshot line on gives the
  book that the stored rows give, although the file has no begin nonces, and also when the file starts
  in the middle of the log because only recent hours were asked for.\<close>

theorem exported_file_rebuilds_books:
  assumes "life_reach L cfg answers db l" and "db_inv db" and "db_orderbooks db = []" and "db_fundings db = []"
    and "r \<in> set (db_symbols (li_db l))" and "snapshots_in_time (table_rows (sym_id r) (li_db l))"
    and "\<And>s. s \<in> set (db_symbols (li_db l)) \<Longrightarrow> sym_name s = sym_name r \<Longrightarrow> s = r"
    and "export_parquet L env dir tickers hours with_trades True overwrite files = (Inr (), files')"
    and "answers_orderbooks ago (li_db l) env" and "tickers = [] \<or> sym_name r \<in> set tickers" and "text_round_trip L"
  shows "\<exists>out st. files' (path_join dir ''orderbook_messages.parquet'') = Some (BooksFile out True)
     \<and> read_rows L (table_rows (sym_id r) (li_db l)) = Some st
     \<and> (\<forall>before line after. filter (\<lambda>l. line_symbol l = sym_name r) (concat (map book_lines out)) = before @ line # after \<longrightarrow>
          line_type line = ''snapshot'' \<longrightarrow> rebuild L None (line # after) = Some (map_option snd st))"
proof -
  let ?rows = "table_rows (sym_id r) (li_db l)"
  have ok: "db_inv (li_db l)" "log_ok L ?rows"
    using life_logs [OF assms(1-4)] life_inv_logs [OF _ assms(5)] by blast+
  have inv: "symbols_inv (li_db l)" using ok(1) by (simp add: db_inv_def)
  have "sorted (map obr_time ?rows)"
    using ok(2) assms(6) by (intro chained_in_time) (simp_all add: log_ok_def)
  from exported_lines [OF assms(8,9) inv assms(5,7,10) this] obtain out older newer where
    o: "files' (path_join dir ''orderbook_messages.parquet'') = Some (BooksFile out True)"
    and rows: "?rows = older @ newer"
    and lines: "map Inr (filter (\<lambda>l. line_symbol l = sym_name r) (concat (map book_lines out)))
       = map (book_line L) (map (\<lambda>b. view_of_book b (sym_name r)) newer)"
    by metis
  obtain st where "read_rows L ?rows = Some st" using ok(2) by (auto simp: log_ok_def)
  with rebuild_exported [OF assms(11) ok(2) [unfolded rows] lines] rows o show ?thesis by fastforce
qed

theorem exported_file_rebuilds_books_witness:
  "\<exists>files' out st. export_parquet funding_libs (answering (\<lambda>h. 0) db7) ''d'' [''BTC''] (Some 24) False True False Map.empty = (Inr (), files')
     \<and> files' ''d/orderbook_messages.parquet'' = Some (BooksFile out True)
     \<and> read_rows funding_libs (table_rows 1 db7) = Some st
     \<and> (\<forall>before line after. filter (\<lambda>l. line_symbol l = ''BTC'') (concat (map book_lines out)) = before @ line # after \<longrightarrow>
          line_type line = ''snapshot'' \<longrightarrow> rebuild funding_libs None (line # after) = Some (map_option snd st))"
proof -
  let ?r = "\<lparr>sym_id = 1, sym_name = ''BTC'', sym_market_id = 7, sym_market_type = ''perp''\<rparr>"
  let ?run = "export_parquet funding_libs (answering (\<lambda>h. 0) db7) ''d'' [''BTC''] (Some 24) False True False Map.empty"
  have "\<not> isl (fst ?run)" by code_simp
  then obtain files' where e: "?run = (Inr (), files')" by (elim fst_Inr_E) simp
  have "length (table_rows 1 db7) = 1" by code_simp
  then obtain row where "table_rows 1 db7 = [row]" by (auto simp: length_Suc_conv)
  then have t: "snapshots_in_time (table_rows (sym_id ?r) (li_db \<lparr>li_db = db7, li_proc = Some p7\<rparr>))"
    by (simp add: snapshots_in_time_def)
  have "list_all (\<lambda>s. sym_name s = ''BTC'' \<longrightarrow> s = ?r) (db_symbols db7)" by code_simp
  then have u: "s = ?r" if "s \<in> set (db_symbols db7)" "sym_name s = ''BTC''" for s using that by (simp add: list_all_iff)
  have p: "path_join ''d'' ''orderbook_messages.parquet'' = ''d/orderbook_messages.parquet''" by (simp add: path_join_def ends_with_def)
  let ?l = "\<lparr>li_db = db7, li_proc = Some p7\<rparr>"
  have r: "?r \<in> set (db_symbols (li_db ?l))" using btc_row7 by simp
  have u': "s = ?r" if "s \<in> set (db_symbols (li_db ?l))" "sym_name s = sym_name ?r" for s using that u by simp
  have q: "answers_orderbooks (\<lambda>h. 0) (li_db ?l) (answering (\<lambda>h. 0) db7)" by (simp add: answering_answers)
  have n: "[''BTC''] = [] \<or> sym_name ?r \<in> set [''BTC'']" by simp
  from exported_file_rebuilds_books [OF life_sample_reach7 sample_db_inv sample_db_new r t u' e q n life_text_round_trip]
  have "\<exists>out st. files' ''d/orderbook_messages.parquet'' = Some (BooksFile out True)
     \<and> read_rows funding_libs (table_rows 1 db7) = Some st
     \<and> (\<forall>before line after. filter (\<lambda>l. line_symbol l = ''BTC'') (concat (map book_lines out)) = before @ line # after \<longrightarrow>
          line_type line = ''snapshot'' \<longrightarrow> rebuild funding_libs None (line # after) = Some (map_option snd st))"
    by (simp only: p symbol_row.simps life.simps)
  with e show ?thesis by blast
qed

end
